(* ===== verification/Prelude.thy ===== *)
theory Prelude
  imports Complex_Main "HOL-Library.Word" "HOL-Library.Product_Lexorder"
begin

text \<open>
  Shared vocabulary of the development: the result of a fallible call, time stamps,
  machine floats as far as the code compares them, JSON values with the accessors of
  \<^verbatim>\<open>serde_json::Value\<close> that the code uses, the list operations that stand for the SQL
  clauses (\<^verbatim>\<open>WHERE\<close>, \<^verbatim>\<open>UPDATE ... RETURNING\<close>, \<^verbatim>\<open>ORDER BY\<close>, \<^verbatim>\<open>LIMIT\<close>), the string
  functions of the standard library, and the interface of a keyed table with the facts
  every client of a table needs.
\<close>

section \<open>Collections of facts\<close>

named_theorems stmt_defs \<open>definitions of single SQL statements\<close>
named_theorems sql_simps \<open>facts on tables, selections and updates\<close>

section \<open>Basic types\<close>

text \<open>Time stamps (\<^verbatim>\<open>TIMESTAMPTZ\<close>, \<^verbatim>\<open>DateTime<Utc>\<close>) count microseconds.\<close>

type_synonym timestamp = int

type_synonym bytes = "8 word list"

abbreviation seconds :: "int \<Rightarrow> int" where
  "seconds n \<equiv> n * 1000000"

text \<open>A double as far as the code looks at it: finiteness and order.\<close>

datatype f64 = F_NaN | F_PosInf | F_NegInf | F_Fin rat

fun f64_is_finite :: "f64 \<Rightarrow> bool" where
  "f64_is_finite (F_Fin _) = True"
| "f64_is_finite _ = False"

text \<open>IEEE comparison: false as soon as one side is NaN.\<close>

fun f64_le :: "f64 \<Rightarrow> f64 \<Rightarrow> bool" where
  "f64_le F_NaN _ = False"
| "f64_le _ F_NaN = False"
| "f64_le F_NegInf _ = True"
| "f64_le _ F_PosInf = True"
| "f64_le (F_Fin a) (F_Fin b) = (a \<le> b)"
| "f64_le _ _ = False"

fun f64_less :: "f64 \<Rightarrow> f64 \<Rightarrow> bool" where
  "f64_less F_NaN _ = False"
| "f64_less _ F_NaN = False"
| "f64_less F_NegInf b = (b \<noteq> F_NegInf)"
| "f64_less a F_PosInf = (a \<noteq> F_PosInf)"
| "f64_less (F_Fin a) (F_Fin b) = (a < b)"
| "f64_less _ _ = False"

fun ilog2 :: "nat \<Rightarrow> nat" where
  "ilog2 n = (if n < 2 then 0 else Suc (ilog2 (n div 2)))"

declare ilog2.simps [simp del]

text \<open>\<^verbatim>\<open>n as f64\<close> for an integer: round to 53 significant bits, ties to even.\<close>

definition f64_of_int :: "int \<Rightarrow> f64" where
  "f64_of_int n =
     (let m = nat \<bar>n\<bar> in
      if m < 2 ^ 53 then F_Fin (of_int n)
      else let k = ilog2 m - 52;
               q = m div 2 ^ k;
               r = m mod 2 ^ k;
               half = 2 ^ (k - 1);
               q' = (if r > half \<or> (r = half \<and> odd q) then q + 1 else q)
           in F_Fin (of_int (sgn n) * of_nat (q' * 2 ^ k)))"

section \<open>JSON values\<close>

text \<open>
  \<^verbatim>\<open>serde_json::Value\<close>. An integer literal in the range of \<^verbatim>\<open>i64\<close>/\<^verbatim>\<open>u64\<close> is
  \<open>JInt\<close>, any other number \<open>JReal\<close>. An object is the list of its members; keys are
  unique because \<^verbatim>\<open>serde_json::Map\<close> is a map.
\<close>

datatype json =
    JNull
  | JBool bool
  | JInt int
  | JReal f64
  | JStr string
  | JArr "json list"
  | JObj "(string \<times> json) list"

fun json_get :: "string \<Rightarrow> json \<Rightarrow> json option" where
  "json_get k (JObj ms) = map_of ms k"
| "json_get k _ = None"

fun json_as_str :: "json \<Rightarrow> string option" where
  "json_as_str (JStr s) = Some s"
| "json_as_str _ = None"

fun json_as_i64 :: "json \<Rightarrow> int option" where
  "json_as_i64 (JInt n) = (if - (2 ^ 63) \<le> n \<and> n < 2 ^ 63 then Some n else None)"
| "json_as_i64 _ = None"

fun json_as_f64 :: "json \<Rightarrow> f64 option" where
  "json_as_f64 (JInt n) = Some (f64_of_int n)"
| "json_as_f64 (JReal x) = Some x"
| "json_as_f64 _ = None"

definition get_str :: "string \<Rightarrow> json \<Rightarrow> string option" where
  "get_str k v = Option.bind (json_get k v) json_as_str"

definition get_i64 :: "string \<Rightarrow> json \<Rightarrow> int option" where
  "get_i64 k v = Option.bind (json_get k v) json_as_i64"

definition json_as_bool :: "json \<Rightarrow> bool option" where
  "json_as_bool v = (case v of JBool b \<Rightarrow> Some b | _ \<Rightarrow> None)"

section \<open>Options\<close>

fun opt_zip :: "'a option \<Rightarrow> 'b option \<Rightarrow> ('a \<times> 'b) option" where
  "opt_zip (Some a) (Some b) = Some (a, b)"
| "opt_zip _ _ = None"

text \<open>\<^verbatim>\<open>COALESCE(a, b)\<close> and \<^verbatim>\<open>Option::or\<close>.\<close>

fun coalesce :: "'a option \<Rightarrow> 'a option \<Rightarrow> 'a option" where
  "coalesce (Some a) _ = Some a"
| "coalesce None b = b"

definition unwrap_or :: "'a \<Rightarrow> 'a option \<Rightarrow> 'a" where
  "unwrap_or d x = (case x of None \<Rightarrow> d | Some a \<Rightarrow> a)"

definition opt_filter :: "('a \<Rightarrow> bool) \<Rightarrow> 'a option \<Rightarrow> 'a option" where
  "opt_filter P x = (case x of None \<Rightarrow> None | Some a \<Rightarrow> if P a then Some a else None)"

section \<open>SQL clauses on tables\<close>

text \<open>
  A table is the list of its rows. \<^verbatim>\<open>fetch_optional\<close> keeps the first row of a result,
  \<^verbatim>\<open>UPDATE\<close> maps the rows its \<^verbatim>\<open>WHERE\<close> selects, \<^verbatim>\<open>RETURNING *\<close> gives the new rows.
  A comparison with \<^verbatim>\<open>NULL\<close> selects nothing (\<open>sql_eq\<close>, \<open>sql_lt\<close>).
\<close>

definition fetch_optional :: "'r list \<Rightarrow> 'r option" where
  "fetch_optional rs = (case rs of [] \<Rightarrow> None | r # _ \<Rightarrow> Some r)"

definition update_where :: "('r \<Rightarrow> bool) \<Rightarrow> ('r \<Rightarrow> 'r) \<Rightarrow> 'r list \<Rightarrow> 'r list" where
  "update_where P f rs = map (\<lambda>r. if P r then f r else r) rs"

definition returning :: "('r \<Rightarrow> bool) \<Rightarrow> ('r \<Rightarrow> 'r) \<Rightarrow> 'r list \<Rightarrow> 'r list" where
  "returning P f rs = map f (filter P rs)"

definition delete_where :: "('r \<Rightarrow> bool) \<Rightarrow> 'r list \<Rightarrow> 'r list" where
  "delete_where P rs = filter (\<lambda>r. \<not> P r) rs"

fun sql_eq :: "'a option \<Rightarrow> 'a option \<Rightarrow> bool" where
  "sql_eq (Some a) (Some b) = (a = b)"
| "sql_eq _ _ = False"

definition sql_lt :: "int option \<Rightarrow> int \<Rightarrow> bool" where
  "sql_lt a b = (case a of None \<Rightarrow> False | Some x \<Rightarrow> x < b)"

text \<open>A unique index ignores rows whose key is \<^verbatim>\<open>NULL\<close> (\<open>None\<close>).\<close>

definition unique_on :: "('r \<Rightarrow> 'k option) \<Rightarrow> 'r list \<Rightarrow> bool" where
  "unique_on k rs = distinct (List.map_filter k rs)"

section \<open>Strings\<close>

text \<open>A \<^verbatim>\<open>&str\<close> is the list of its UTF-8 bytes.\<close>

definition starts_with :: "string \<Rightarrow> string \<Rightarrow> bool" where
  "starts_with p s = (take (length p) s = p)"

fun contains_sub :: "string \<Rightarrow> string \<Rightarrow> bool" where
  "contains_sub p [] = (p = [])"
| "contains_sub p (c # s) = (starts_with p (c # s) \<or> contains_sub p s)"

definition code :: "char \<Rightarrow> nat" where
  "code c = of_char c"

definition is_ascii_alphanumeric :: "char \<Rightarrow> bool" where
  "is_ascii_alphanumeric c =
     (let n = code c in (48 \<le> n \<and> n \<le> 57) \<or> (65 \<le> n \<and> n \<le> 90) \<or> (97 \<le> n \<and> n \<le> 122))"

definition to_ascii_lower :: "char \<Rightarrow> char" where
  "to_ascii_lower c = (if 65 \<le> code c \<and> code c \<le> 90 then char_of (code c + 32) else c)"

definition to_ascii_lowercase :: "string \<Rightarrow> string" where
  "to_ascii_lowercase s = map to_ascii_lower s"

text \<open>\<^verbatim>\<open>CITEXT\<close> equality.\<close>

definition citext_eq :: "string \<Rightarrow> string \<Rightarrow> bool" where
  "citext_eq a b = (to_ascii_lowercase a = to_ascii_lowercase b)"

text \<open>\<^verbatim>\<open>str::split(c)\<close>: the pieces between separators, at least one.\<close>

fun split_on :: "char \<Rightarrow> string \<Rightarrow> string list" where
  "split_on c [] = [[]]"
| "split_on c (x # xs) =
     (if x = c then [] # split_on c xs
      else case split_on c xs of [] \<Rightarrow> [[x]] | p # ps \<Rightarrow> (x # p) # ps)"

text \<open>The UTF-8 encodings of the characters with the Unicode property \<^verbatim>\<open>White_Space\<close>.\<close>

definition unicode_ws :: "string list" where
  "unicode_ws =
     map (\<lambda>n. [char_of n]) [9, 10, 11, 12, 13, 32 :: nat] @
     map (\<lambda>n. [char_of (194 :: nat), char_of n]) [133, 160 :: nat] @
     [[char_of (225 :: nat), char_of (154 :: nat), char_of (128 :: nat)]] @
     map (\<lambda>n. [char_of (226 :: nat), char_of (128 :: nat), char_of n])
       [128, 129, 130, 131, 132, 133, 134, 135, 136, 137, 138, 168, 169, 175 :: nat] @
     [[char_of (226 :: nat), char_of (129 :: nat), char_of (159 :: nat)],
      [char_of (227 :: nat), char_of (128 :: nat), char_of (128 :: nat)]]"

text \<open>Drop the leading pieces that are in \<open>ws\<close>; every piece is at least one byte long.\<close>

function drop_pieces :: "string list \<Rightarrow> string \<Rightarrow> string" where
  "drop_pieces ws s =
     (case List.find (\<lambda>w. w \<noteq> [] \<and> starts_with w s) ws of
        None \<Rightarrow> s
      | Some w \<Rightarrow> if s = [] then s else drop_pieces ws (drop (length w) s))"
  by pat_completeness auto
termination
proof (relation "measure (\<lambda>(ws, s). length s)", goal_cases)
  case (2 ws s w)
  then have "w \<noteq> []" by (auto simp: find_Some_iff)
  with 2(2) show ?case by (cases w; cases s) auto
qed simp

declare drop_pieces.simps [simp del]

text \<open>\<^verbatim>\<open>str::trim\<close>.\<close>

definition trim :: "string \<Rightarrow> string" where
  "trim s = rev (drop_pieces (map rev unicode_ws) (rev (drop_pieces unicode_ws s)))"

text \<open>Decimal rendering of an integer (\<^verbatim>\<open>format!("{n}")\<close>).\<close>

fun show_nat :: "nat \<Rightarrow> string" where
  "show_nat n = (if n < 10 then [char_of (48 + n)] else show_nat (n div 10) @ [char_of (48 + n mod 10)])"

declare show_nat.simps [simp del]

definition show_int :: "int \<Rightarrow> string" where
  "show_int n = (if n < 0 then ''-'' @ show_nat (nat (- n)) else show_nat (nat n))"

section \<open>URLs\<close>

text \<open>A parsed URL (crate \<^verbatim>\<open>url\<close>): its text, scheme, host and explicit port.\<close>

record url =
  u_str :: string
  u_scheme :: string
  u_host :: "string option"
  u_port :: "int option"

section \<open>Lemmas on tables\<close>

lemma fetch_optional_Some_mem [sql_simps, dest]: "fetch_optional rs = Some r \<Longrightarrow> r \<in> set rs"
  by (auto simp: fetch_optional_def split: list.splits)

lemma fetch_optional_None [simp]: "fetch_optional rs = None \<longleftrightarrow> rs = []"
  by (auto simp: fetch_optional_def split: list.splits)

lemma fetch_optional_Nil [simp]: "fetch_optional [] = None"
  by simp

lemma fetch_optional_Cons [simp]: "fetch_optional (r # rs) = Some r"
  by (simp add: fetch_optional_def)

lemma update_where_Nil [simp]: "update_where P f [] = []"
  by (simp add: update_where_def)

lemma update_where_Cons [simp]:
  "update_where P f (r # rs) = (if P r then f r else r) # update_where P f rs"
  by (simp add: update_where_def)

lemma update_where_append [simp]:
  "update_where P f (rs @ ss) = update_where P f rs @ update_where P f ss"
  by (simp add: update_where_def)

lemma length_update_where [simp]: "length (update_where P f rs) = length rs"
  by (simp add: update_where_def)

lemma set_update_where: "set (update_where P f rs) = (\<lambda>r. if P r then f r else r) ` set rs"
  by (simp add: update_where_def)

lemma mem_update_where:
  "r \<in> set (update_where P f rs) \<longleftrightarrow>
     (\<exists>s \<in> set rs. r = (if P s then f s else s))"
  by (auto simp: set_update_where)

lemma bex_update_where:
  "(\<exists>r \<in> set (update_where P f rs). Q r) \<longleftrightarrow> (\<exists>r \<in> set rs. Q (if P r then f r else r))"
  unfolding set_update_where by (rule bex_simps(7))

lemma update_where_id: "(\<And>r. r \<in> set rs \<Longrightarrow> \<not> P r) \<Longrightarrow> update_where P f rs = rs"
  unfolding update_where_def by (induction rs) auto

text \<open>An update that keeps the key keeps every fact that reads the keys alone.\<close>

lemma map_update_where [sql_simps]:
  "(\<And>r. P r \<Longrightarrow> g (f r) = g r) \<Longrightarrow> map g (update_where P f rs) = map g rs"
  by (simp add: update_where_def comp_def)

lemma map_filter_update_where:
  "(\<And>r. P r \<Longrightarrow> k (f r) = k r) \<Longrightarrow> List.map_filter k (update_where P f rs) = List.map_filter k rs"
  by (induction rs) (auto simp: List.map_filter_simps split: option.splits)

lemma unique_on_update_where [sql_simps]:
  "(\<And>r. P r \<Longrightarrow> k (f r) = k r) \<Longrightarrow> unique_on k (update_where P f rs) = unique_on k rs"
  by (simp add: unique_on_def map_filter_update_where)

lemma list_all_update_where:
  "(\<And>r. P r \<Longrightarrow> Q (f r) = Q r) \<Longrightarrow> list_all Q (update_where P f rs) = list_all Q rs"
  by (induction rs) simp_all

lemma list_ex_update_where [sql_simps]:
  "(\<And>r. P r \<Longrightarrow> Q (f r) = Q r) \<Longrightarrow> list_ex Q (update_where P f rs) = list_ex Q rs"
  by (induction rs) auto

lemma filter_update_where [sql_simps]:
  "(\<And>r. P r \<Longrightarrow> Q (f r) = Q r) \<Longrightarrow>
     filter Q (update_where P f rs) = update_where P f (filter Q rs)"
  by (induction rs) auto

lemma map_filter_append [simp]:
  "List.map_filter k (rs @ ss) = List.map_filter k rs @ List.map_filter k ss"
  by (induction rs) (auto simp: List.map_filter_simps split: option.splits)

lemma set_map_filter: "set (List.map_filter k rs) = {x. \<exists>r \<in> set rs. k r = Some x}"
  by (induction rs) (auto simp: List.map_filter_simps split: option.splits)

lemma unique_on_snoc:
  "unique_on k (rs @ [r]) \<longleftrightarrow>
     unique_on k rs \<and> (\<forall>x. k r = Some x \<longrightarrow> (\<forall>s \<in> set rs. k s \<noteq> Some x))"
  by (auto simp: unique_on_def List.map_filter_simps set_map_filter split: option.splits)

lemma unique_on_Nil [simp]: "unique_on k []"
  by (simp add: unique_on_def List.map_filter_simps)

lemma unique_on_filter: "unique_on k rs \<Longrightarrow> unique_on k (filter P rs)"
  by (induction rs) (auto simp: unique_on_def List.map_filter_simps set_map_filter split: option.splits)

lemma unique_on_delete_where [sql_simps]: "unique_on k rs \<Longrightarrow> unique_on k (delete_where P rs)"
  by (simp add: delete_where_def unique_on_filter)

lemma unique_onD:
  "unique_on k rs \<Longrightarrow> r \<in> set rs \<Longrightarrow> s \<in> set rs \<Longrightarrow> k r = Some x \<Longrightarrow> k s = Some x \<Longrightarrow> r = s"
proof (induction rs)
  case (Cons a rs)
  then show ?case
    by (auto simp: unique_on_def List.map_filter_simps set_map_filter split: option.splits)
qed simp

lemma filter_unique_on:
  assumes "unique_on k rs" and "r \<in> set rs" and "k r = Some x"
  shows "filter (\<lambda>s. k s = Some x) rs = [r]"
  using assms
proof (induction rs)
  case (Cons a rs)
  show ?case
  proof (cases "k a = Some x")
    case True
    with Cons.prems have "a = r" and "filter (\<lambda>s. k s = Some x) rs = []"
      by (auto simp: unique_on_def List.map_filter_simps set_map_filter filter_empty_conv)
    with True show ?thesis by simp
  next
    case False
    with Cons show ?thesis
      by (auto simp: unique_on_def List.map_filter_simps split: option.splits)
  qed
qed simp

lemma map_filter_weaken:
  assumes "\<And>r. P r \<Longrightarrow> k (f r) = None \<or> k (f r) = k r"
  shows "set (List.map_filter k (update_where P f rs)) \<subseteq> set (List.map_filter k rs)"
  using assms by (fastforce simp: set_map_filter mem_update_where split: if_splits)

text \<open>An update that at most takes rows out of the index violates no unique key.\<close>

lemma unique_on_weaken:
  assumes "unique_on k rs" and "\<And>r. P r \<Longrightarrow> k (f r) = None \<or> k (f r) = k r"
  shows "unique_on k (update_where P f rs)"
  using assms(1)
proof (induction rs)
  case (Cons a rs)
  have "set (List.map_filter k (update_where P f rs)) \<subseteq> set (List.map_filter k rs)"
    using assms(2) by (rule map_filter_weaken)
  with Cons assms(2) [of a] show ?case
    by (auto simp: unique_on_def List.map_filter_simps split: option.splits if_splits)
qed simp

lemma opt_zip_Some [simp]: "opt_zip a b = Some (x, y) \<longleftrightarrow> a = Some x \<and> b = Some y"
  by (cases a; cases b) auto

lemma opt_zip_None: "opt_zip a b = None \<longleftrightarrow> a = None \<or> b = None"
  by (cases a; cases b) auto

lemma coalesce_None_right [simp]: "coalesce a None = a"
  by (cases a) auto

lemma drop_pieces_set: "set (drop_pieces ws s) \<subseteq> set s"
proof (induction ws s rule: drop_pieces.induct)
  case (1 ws s)
  show ?case
  proof (cases "List.find (\<lambda>w. w \<noteq> [] \<and> starts_with w s) ws")
    case None
    then show ?thesis by (simp add: drop_pieces.simps [of ws s])
  next
    case (Some w)
    with 1 show ?thesis
      by (auto simp: drop_pieces.simps [of ws s] dest: in_set_dropD)
  qed
qed

lemma trim_set: "set (trim s) \<subseteq> set s"
proof -
  have "set (trim s) \<subseteq> set (rev (drop_pieces unicode_ws s))"
    using drop_pieces_set [of "map rev unicode_ws" "rev (drop_pieces unicode_ws s)"]
    by (simp add: trim_def)
  also have "\<dots> \<subseteq> set s" using drop_pieces_set by simp
  finally show ?thesis .
qed

section \<open>Trimming visible text\<close>

text \<open>\<^verbatim>\<open>trim\<close> leaves a string alone that begins and ends with a visible ASCII character.\<close>

definition graphic :: "char \<Rightarrow> bool" where
  "graphic c \<longleftrightarrow> 33 \<le> code c \<and> code c < 127"

lemma ws_not_graphic: "list_all (\<lambda>p. \<not> graphic (hd p) \<and> \<not> graphic (last p)) unicode_ws"
  by code_simp

lemma drop_pieces_keeps:
  assumes "\<And>p. p \<in> set ws \<Longrightarrow> p \<noteq> [] \<Longrightarrow> \<not> graphic (hd p)" and "s = [] \<or> graphic (hd s)"
  shows "drop_pieces ws s = s"
proof -
  have "\<not> starts_with p s" if "p \<in> set ws" "p \<noteq> []" for p
    using assms(1) [OF that] assms(2) that(2) by (cases p; cases s) (auto simp: starts_with_def)
  then have "List.find (\<lambda>w. w \<noteq> [] \<and> starts_with w s) ws = None"
    by (auto simp: find_None_iff)
  then show ?thesis by (simp add: drop_pieces.simps [of ws s])
qed

lemma trim_graphic:
  assumes "s = [] \<or> (graphic (hd s) \<and> graphic (last s))"
  shows "trim s = s"
proof -
  have "drop_pieces unicode_ws s = s"
    using ws_not_graphic assms by (intro drop_pieces_keeps) (auto simp: list_all_iff)
  moreover have "drop_pieces (map rev unicode_ws) (rev s) = rev s"
    using ws_not_graphic assms by (intro drop_pieces_keeps) (auto simp: list_all_iff hd_rev)
  ultimately show ?thesis by (simp add: trim_def)
qed

text \<open>Evaluation looks at the two ends first.\<close>

lemma trim_code [code]:
  "trim s = (if s = [] \<or> (graphic (hd s) \<and> graphic (last s)) then s
     else rev (drop_pieces (map rev unicode_ws) (rev (drop_pieces unicode_ws s))))"
  using trim_graphic [of s] by (simp add: trim_def)

section \<open>The interface of a keyed table\<close>

text \<open>
  A component that stores rows in the database relies on this interface only: reading the
  rows after changing them, and a key that identifies a row. Every table of the model is
  an instance.
\<close>

locale keyed_table =
  fixes rows :: "'d \<Rightarrow> 'r list"
    and modify :: "('r list \<Rightarrow> 'r list) \<Rightarrow> 'd \<Rightarrow> 'd"
    and key :: "'r \<Rightarrow> 'k"
  assumes rows_modify: "rows (modify f d) = f (rows d)"
begin

lemma lookup_after_insert:
  "(\<And>s. s \<in> set (rows d) \<Longrightarrow> key s \<noteq> key r) \<Longrightarrow>
     filter (\<lambda>s. key s = key r) (rows (modify (\<lambda>rs. rs @ [r]) d)) = [r]"
  by (simp add: rows_modify filter_empty_conv)

lemma insert_keeps_others:
  "key r \<noteq> k \<Longrightarrow>
     filter (\<lambda>s. key s = k) (rows (modify (\<lambda>rs. rs @ [r]) d)) = filter (\<lambda>s. key s = k) (rows d)"
  by (simp add: rows_modify)

lemma keys_after_update:
  "(\<And>r. P r \<Longrightarrow> key (f r) = key r) \<Longrightarrow>
     map key (rows (modify (update_where P f) d)) = map key (rows d)"
  by (simp add: rows_modify map_update_where)

lemma lookup_after_update:
  "(\<And>r. key r = k \<Longrightarrow> key (f r) = key r) \<Longrightarrow>
     filter (\<lambda>s. key s = k) (rows (modify (update_where (\<lambda>r. key r = k) f) d)) =
       map f (filter (\<lambda>s. key s = k) (rows d))"
  unfolding rows_modify by (induction "rows d" arbitrary: d) (auto simp: update_where_def filter_map comp_def intro: map_cong)

lemma update_keeps_others:
  assumes "\<And>r. key r = k \<Longrightarrow> key (f r) = key r" and "k' \<noteq> k"
  shows "filter (\<lambda>s. key s = k') (rows (modify (update_where (\<lambda>r. key r = k) f) d)) =
    filter (\<lambda>s. key s = k') (rows d)"
proof -
  have "filter (\<lambda>s. key s = k') (update_where (\<lambda>r. key r = k) f rs) = filter (\<lambda>s. key s = k') rs" for rs
    using assms by (induction rs) auto
  then show ?thesis by (simp add: rows_modify)
qed

lemma lookup_after_delete:
  "filter (\<lambda>s. key s = k) (rows (modify (delete_where (\<lambda>r. key r = k)) d)) = []"
  by (auto simp: rows_modify delete_where_def filter_empty_conv)

end

end
