(* ===== verification/Html.thy ===== *)
theory Html
  imports Prelude
begin

text \<open>
  The caption sanitizer of \<^verbatim>\<open>crates/federation/src/note.rs\<close>: entity decoding, tag stripping and
  escaping, iterated to a fixed point. Strings are UTF-8 byte lists, as in the code. The lemmas
  show that whatever a remote server sends, the stored caption has no character that could
  open a tag or an attribute, and that escaping loses nothing: decoding gives the text back.
\<close>

section \<open>Definitions\<close>

definition utf8_len :: "char \<Rightarrow> nat" where
  "utf8_len b = (let n = code b in
     if n \<le> 127 then 1
     else if 192 \<le> n \<and> n \<le> 223 then 2
     else if 224 \<le> n \<and> n \<le> 239 then 3
     else 4)"

text \<open>\<^verbatim>\<open>char::from_u32\<close> and the UTF-8 encoding of the character.\<close>

definition utf8_encode :: "nat \<Rightarrow> string option" where
  "utf8_encode n =
     (if n < 128 then Some [char_of n]
      else if n < 2048 then Some [char_of (192 + n div 64), char_of (128 + n mod 64)]
      else if 55296 \<le> n \<and> n \<le> 57343 then None
      else if n < 65536 then
        Some [char_of (224 + n div 4096), char_of (128 + n div 64 mod 64), char_of (128 + n mod 64)]
      else if n \<le> 1114111 then
        Some [char_of (240 + n div 262144), char_of (128 + n div 4096 mod 64),
              char_of (128 + n div 64 mod 64), char_of (128 + n mod 64)]
      else None)"

definition is_digit :: "char \<Rightarrow> bool" where
  "is_digit c \<longleftrightarrow> 48 \<le> code c \<and> code c \<le> 57"

definition is_hexdigit :: "char \<Rightarrow> bool" where
  "is_hexdigit c \<longleftrightarrow> is_digit c \<or> (65 \<le> code c \<and> code c \<le> 70) \<or> (97 \<le> code c \<and> code c \<le> 102)"

definition digit_value :: "char \<Rightarrow> nat" where
  "digit_value c = (if is_digit c then code c - 48 else if code c \<le> 70 then code c - 55 else code c - 87)"

definition number_of :: "nat \<Rightarrow> string \<Rightarrow> nat" where
  "number_of base ds = foldl (\<lambda>n c. n * base + digit_value c) 0 ds"

text \<open>A \<^verbatim>\<open>u32\<close> parse of digits: \<^verbatim>\<open>None\<close> on overflow.\<close>

definition parse_u32 :: "nat \<Rightarrow> string \<Rightarrow> nat option" where
  "parse_u32 base ds = (let n = number_of base ds in if n < 2 ^ 32 then Some n else None)"

text \<open>\<^verbatim>\<open>str::find(';')\<close>, as the text before the first occurrence.\<close>

fun before_semi :: "string \<Rightarrow> string option" where
  "before_semi [] = None"
| "before_semi (c # s) = (if c = CHR '';'' then Some [] else map_option (\<lambda>r. c # r) (before_semi s))"

definition named_entities :: "(string \<times> string) list" where
  "named_entities =
     [(''amp'', ''&''), (''lt'', ''<''), (''gt'', ''>''), (''quot'', [CHR 0x22]), (''apos'', [CHR 0x27]),
      (''nbsp'', [CHR 0xC2, CHR 0xA0]), (''hellip'', [CHR 0xE2, CHR 0x80, CHR 0xA6])]"

definition strip_prefix :: "string \<Rightarrow> string \<Rightarrow> string option" where
  "strip_prefix p s = (if starts_with p s then Some (drop (length p) s) else None)"

definition decode_numeric :: "nat \<Rightarrow> (char \<Rightarrow> bool) \<Rightarrow> nat \<Rightarrow> string \<Rightarrow> (string \<times> nat) option" where
  "decode_numeric base ok extra s =
     (case before_semi s of
        None \<Rightarrow> None
      | Some ds \<Rightarrow>
          if ds \<noteq> [] \<and> list_all ok ds
          then Option.bind (parse_u32 base ds)
                 (\<lambda>n. map_option (\<lambda>c. (c, length ds + extra)) (utf8_encode n))
          else None)"

text \<open>\<^verbatim>\<open>decode_one_entity\<close> on a text that starts with \<^verbatim>\<open>&\<close>: the decoded text and the bytes consumed.\<close>

definition decode_one_entity :: "string \<Rightarrow> (string \<times> nat) option" where
  "decode_one_entity rest =
     (let after = drop 1 rest in
      case List.find (\<lambda>(name, _). starts_with (name @ '';'') after) named_entities of
        Some (name, decoded) \<Rightarrow> Some (decoded, length name + 2)
      | None \<Rightarrow>
          (case coalesce (strip_prefix ''#x'' after) (strip_prefix ''#X'' after) of
             Some hex \<Rightarrow> decode_numeric 16 is_hexdigit 4 hex
           | None \<Rightarrow>
               (case strip_prefix ''#'' after of
                  Some dec \<Rightarrow> decode_numeric 10 is_digit 3 dec
                | None \<Rightarrow> None)))"

lemma decode_one_entity_consumes: "decode_one_entity s = Some (r, k) \<Longrightarrow> 0 < k"
  by (auto simp: decode_one_entity_def decode_numeric_def Let_def find_Some_iff
      split: option.splits prod.splits if_splits bind_splits)

function decode_loop :: "string \<Rightarrow> string" where
  "decode_loop [] = []"
| "decode_loop (c # cs) =
     (if c \<noteq> CHR ''&'' then take (utf8_len c) (c # cs) @ decode_loop (drop (utf8_len c) (c # cs))
      else case decode_one_entity (c # cs) of
        Some (decoded, consumed) \<Rightarrow> decoded @ decode_loop (drop consumed (c # cs))
      | None \<Rightarrow> CHR ''&'' # decode_loop cs)"
  by pat_completeness auto
termination
  by (relation "measure length") (auto simp: utf8_len_def Let_def dest: decode_one_entity_consumes)

declare decode_loop.simps [simp del]

definition decode_html_entities :: "string \<Rightarrow> string" where
  "decode_html_entities s = (if CHR ''&'' \<notin> set s then s else decode_loop s)"

fun strip_go :: "nat \<Rightarrow> string \<Rightarrow> string" where
  "strip_go depth [] = []"
| "strip_go depth (c # s) =
     (if c = CHR ''<'' then strip_go (depth + 1) s
      else if c = CHR ''>'' \<and> depth > 0 then strip_go (depth - 1) s
      else if depth = 0 then c # strip_go depth s
      else strip_go depth s)"

definition strip_tags :: "string \<Rightarrow> string" where
  "strip_tags s = trim (strip_go 0 s)"

definition escape_char :: "char \<Rightarrow> string" where
  "escape_char c =
     (if c = CHR ''&'' then ''&amp;''
      else if c = CHR ''<'' then ''&lt;''
      else if c = CHR ''>'' then ''&gt;''
      else if c = CHR 0x22 then ''&quot;''
      else if c = CHR 0x27 then ''&#x27;''
      else [c])"

definition escape_html :: "string \<Rightarrow> string" where
  "escape_html s = concat (map escape_char s)"

text \<open>The bounded loop of \<^verbatim>\<open>strip_html_tags\<close>, \<open>n\<close> passes left.\<close>

fun strip_passes :: "nat \<Rightarrow> string \<Rightarrow> string" where
  "strip_passes 0 current = current"
| "strip_passes (Suc n) current =
     (let stripped = strip_tags (decode_html_entities current) in
      if stripped = current then current else strip_passes n stripped)"

definition strip_html_tags :: "string \<Rightarrow> string" where
  "strip_html_tags input = escape_html (strip_passes 8 input)"

section \<open>Escaped text is inert\<close>

text \<open>The characters that could open a tag or end an attribute value.\<close>

definition markup_chars :: "char set" where
  "markup_chars = {CHR ''<'', CHR ''>'', CHR 0x22, CHR 0x27}"

lemma escape_char_inert: "set (escape_char c) \<inter> markup_chars = {}"
  by (auto simp: escape_char_def markup_chars_def)

lemma escape_html_inert: "set (escape_html s) \<inter> markup_chars = {}"
  using escape_char_inert by (fastforce simp: escape_html_def)

text \<open>Well-formed UTF-8, as far as the decoder looks: a multi-byte character has its
  continuation bytes, and these are not ASCII.\<close>

fun utf8_ok :: "string \<Rightarrow> bool" where
  "utf8_ok [] = True"
| "utf8_ok (c # s) =
     (let k = utf8_len c - 1 in
      k \<le> length s \<and> list_all (\<lambda>b. 128 \<le> code b \<and> code b < 192) (take k s) \<and> utf8_ok (drop k s))"

declare utf8_ok.simps(2) [simp del]

lemma decode_loop_plain:
  "c \<noteq> CHR ''&'' \<Longrightarrow> decode_loop (c # s) = take (utf8_len c) (c # s) @ decode_loop (drop (utf8_len c) (c # s))"
  by (simp add: decode_loop.simps)

lemma decode_loop_entity:
  "decode_one_entity (CHR ''&'' # s) = Some (r, k) \<Longrightarrow>
     decode_loop (CHR ''&'' # s) = r @ decode_loop (drop k (CHR ''&'' # s))"
  by (simp add: decode_loop.simps)

lemma decode_amp: "decode_loop (''&amp;'' @ s) = ''&'' @ decode_loop s"
  by (simp add: decode_loop.simps decode_one_entity_def named_entities_def starts_with_def)

lemma decode_lt: "decode_loop (''&lt;'' @ s) = ''<'' @ decode_loop s"
  by (simp add: decode_loop.simps decode_one_entity_def named_entities_def starts_with_def)

lemma decode_gt: "decode_loop (''&gt;'' @ s) = ''>'' @ decode_loop s"
  by (simp add: decode_loop.simps decode_one_entity_def named_entities_def starts_with_def)

lemma decode_quot: "decode_loop (''&quot;'' @ s) = CHR 0x22 # decode_loop s"
  by (simp add: decode_loop.simps decode_one_entity_def named_entities_def starts_with_def)

lemma char_of_39: "char_of (39 :: nat) = CHR 0x27"
  by code_simp

lemma decode_apos: "decode_loop (''&#x27;'' @ s) = CHR 0x27 # decode_loop s"
  by (simp add: decode_loop.simps decode_one_entity_def named_entities_def starts_with_def
      strip_prefix_def decode_numeric_def is_hexdigit_def is_digit_def code_def parse_u32_def
      number_of_def digit_value_def utf8_encode_def char_of_39)

lemmas decode_escaped = decode_amp decode_lt decode_gt decode_quot decode_apos

lemma escape_high: "128 \<le> code c \<Longrightarrow> escape_char c = [c]"
  by (auto simp: escape_char_def code_def)

lemma escape_high_list: "list_all (\<lambda>b. 128 \<le> code b \<and> code b < 192) bs \<Longrightarrow> escape_html bs = bs"
  by (induction bs) (auto simp: escape_html_def escape_high)

lemma escape_html_append: "escape_html (a @ b) = escape_html a @ escape_html b"
  by (simp add: escape_html_def)

lemma escape_html_Cons: "escape_html (c # s) = escape_char c @ escape_html s"
  by (simp add: escape_html_def)

lemma utf8_len_ascii: "code c < 128 \<Longrightarrow> utf8_len c = 1"
  by (simp add: utf8_len_def)

lemma decode_escape_loop: "utf8_ok s \<Longrightarrow> decode_loop (escape_html s) = s"
proof (induction s rule: utf8_ok.induct)
  case 1
  then show ?case by (simp add: escape_html_def decode_loop.simps)
next
  case (2 c s)
  let ?k = "utf8_len c - 1"
  have k: "?k \<le> length s" "list_all (\<lambda>b. 128 \<le> code b \<and> code b < 192) (take ?k s)"
    and IH: "decode_loop (escape_html (drop ?k s)) = drop ?k s"
    using 2 by (auto simp: utf8_ok.simps(2) Let_def)
  show ?case
  proof (cases "code c < 128")
    case True
    with IH have IH': "decode_loop (escape_html s) = s" by (simp add: utf8_len_ascii)
    show ?thesis
    proof (cases "escape_char c = [c]")
      case plain: True
      then have "c \<noteq> CHR ''&''" by (auto simp: escape_char_def)
      with True plain IH' show ?thesis
        by (simp add: escape_html_Cons decode_loop_plain utf8_len_ascii)
    next
      case False
      then have "c \<in> {CHR ''&'', CHR ''<'', CHR ''>'', CHR 0x22, CHR 0x27}"
        by (auto simp: escape_char_def split: if_splits)
      with IH' show ?thesis
        unfolding escape_html_Cons using decode_escaped [of "escape_html s"]
        by (auto simp: escape_char_def)
    qed
  next
    case False
    then have e: "escape_char c = [c]" and amp: "c \<noteq> CHR ''&''"
      by (auto simp: escape_high) (simp add: code_def)
    obtain n where n: "utf8_len c = Suc n" by (cases "utf8_len c") (auto simp: utf8_len_def Let_def split: if_splits)
    have "escape_html (c # s) = c # escape_html (take n s @ drop n s)"
      by (simp add: escape_html_Cons e)
    also have "\<dots> = c # take n s @ escape_html (drop n s)"
      using k(2) by (simp only: escape_html_append n diff_Suc_1 escape_high_list)
    finally have "escape_html (c # s) = c # take n s @ escape_html (drop n s)" .
    with amp n k(1) IH show ?thesis
      by (simp add: decode_loop_plain [OF amp])
  qed
qed

section \<open>Properties of the sanitizer\<close>

text \<open>a sanitized caption never contains an angle bracket or a quote, however the remote text
  nests, encodes or truncates its markup: nothing stored can open a tag or leave an
  attribute.\<close>

theorem sanitized_caption_is_inert: "set (strip_html_tags s) \<inter> {CHR ''<'', CHR ''>'', CHR 0x22, CHR 0x27} = {}"
  unfolding strip_html_tags_def using escape_html_inert by (simp add: markup_chars_def)

text \<open>escaping is lossless: decoding the entities of an escaped text gives the text back.\<close>

theorem escape_then_decode: "utf8_ok s \<Longrightarrow> decode_html_entities (escape_html s) = s"
proof (cases "CHR ''&'' \<in> set (escape_html s)")
  case True
  assume "utf8_ok s"
  then have "decode_loop (escape_html s) = s" by (rule decode_escape_loop)
  with True show ?thesis by (simp add: decode_html_entities_def)
next
  case False
  then have "\<forall>c \<in> set s. CHR ''&'' \<notin> set (escape_char c)"
    by (auto simp: escape_html_def)
  then have "\<forall>c \<in> set s. escape_char c = [c]"
    by (auto simp: escape_char_def split: if_splits)
  then have "escape_html s = s"
    by (induction s) (auto simp: escape_html_def)
  with False show ?thesis by (simp add: decode_html_entities_def)
qed

theorem escape_then_decode_witness:
  "decode_html_entities (escape_html ''a<b & 'c' '') = ''a<b & 'c' ''"
  by (rule escape_then_decode) code_simp

end
