(* ===== verification/Db_Schema.thy ===== *)
theory Db_Schema
  imports Prelude
begin

text \<open>
  The Postgres schema (\<^verbatim>\<open>crates/db/migrations\<close>) as records, one per table the code reads
  or writes, with the field order of the Rust structs of \<^verbatim>\<open>crates/db/src\<close>. Columns whose
  \<^verbatim>\<open>CHECK\<close> constraint lists the admissible values are datatypes. The record \<open>db\<close> holds the
  tables and the \<^verbatim>\<open>BIGSERIAL\<close> sequences; \<open>pool\<close> adds what surrounds a statement at run
  time: the clock and the state of the connection. A statement is atomic: \<open>exec\<close> runs it
  at the next tick of the clock and either applies it or leaves the tables as they were.
\<close>

section \<open>Errors\<close>

text \<open>\<^verbatim>\<open>sqlx::Error\<close>: an error reported by Postgres with its SQLSTATE, a missing row
  under \<^verbatim>\<open>fetch_one\<close>, or a failure of the connection.\<close>

datatype sql_error = Database string | RowNotFound | ConnectionError

datatype db_error = Sql sql_error | Migrate | UniqueViolation

fun is_unique_violation :: "db_error \<Rightarrow> bool" where
  "is_unique_violation (Sql (Database c)) = (c = ''23505'')"
| "is_unique_violation _ = False"

abbreviation unique_violation :: sql_error where
  "unique_violation \<equiv> Database ''23505''"

abbreviation foreign_key_violation :: sql_error where
  "foreign_key_violation \<equiv> Database ''23503''"

abbreviation negative_limit :: sql_error where
  "negative_limit \<equiv> Database ''2201W''"

section \<open>Rows\<close>

datatype actor_type = Person | Application | Service

record actor =
  ac_id :: int
  ac_username :: string
  ac_domain :: "string option"
  ac_actor_type :: actor_type
  ac_public_key_pem :: string
  ac_private_key_pem :: "string option"
  ac_inbox_url :: string
  ac_shared_inbox_url :: "string option"
  ac_outbox_url :: string
  ac_followers_url :: string
  ac_display_name :: "string option"
  ac_summary :: "string option"
  ac_avatar_path :: "string option"
  ac_header_path :: "string option"
  ac_manually_approves_followers :: bool
  ac_is_locked :: bool
  ac_suspended_at :: "timestamp option"
  ac_deleted_at :: "timestamp option"
  ac_ap_id :: string
  ac_created_at :: timestamp
  ac_updated_at :: timestamp

datatype user_status = Active | Pending_Approval

record user =
  us_id :: int
  us_actor_id :: int
  us_email :: "string option"
  us_email_verified_at :: "timestamp option"
  us_password_hash :: "string option"
  us_totp_secret :: "string option"
  us_totp_recovery_codes :: "json option"
  us_is_admin :: bool
  us_status :: user_status
  us_deleted_at :: "timestamp option"
  us_created_at :: timestamp

datatype origin = Local | Remote
datatype visibility = Public | Unlisted | Followers
datatype clip_status = Pending | Processing | Ready | Failed | Deleted

text \<open>The column \<^verbatim>\<open>sound_id\<close> (migration 0008) is part of the row but not of the Rust struct.\<close>

record clip =
  cl_id :: int
  cl_actor_id :: int
  cl_ap_id :: string
  cl_origin :: origin
  cl_caption_html :: "string option"
  cl_visibility :: visibility
  cl_status :: clip_status
  cl_duration_s :: "f64 option"
  cl_sha256_hash :: "string option"
  cl_width :: "int option"
  cl_height :: "int option"
  cl_size_bytes :: "int option"
  cl_remote_media_url :: "string option"
  cl_remote_poster_url :: "string option"
  cl_is_sensitive :: bool
  cl_cw_text :: "string option"
  cl_comments_disabled :: bool
  cl_downloads_allowed :: bool
  cl_like_count :: int
  cl_comment_count :: int
  cl_share_count :: int
  cl_view_count :: int
  cl_published_at :: "timestamp option"
  cl_deleted_at :: "timestamp option"
  cl_created_at :: timestamp
  cl_updated_at :: timestamp
  cl_sound_id :: "int option"

datatype asset_kind = Video_Hls | Video_Mp4 | Poster | Preview | Captions | Audio_Kind
datatype rendition = R1080 | R720 | R480 | R_Audio | R_Orig

record media_asset =
  ma_id :: int
  ma_clip_id :: int
  ma_kind :: asset_kind
  ma_rendition :: rendition
  ma_lang :: "string option"
  ma_path :: string
  ma_mime :: string
  ma_size_bytes :: "int option"
  ma_bitrate_kbps :: "int option"
  ma_codec :: "string option"
  ma_ready_at :: "timestamp option"

record comment =
  cm_id :: int
  cm_clip_id :: int
  cm_actor_id :: int
  cm_parent_comment_id :: "int option"
  cm_ap_id :: string
  cm_body_html :: string
  cm_like_count :: int
  cm_deleted_at :: "timestamp option"
  cm_created_at :: timestamp

text \<open>\<^verbatim>\<open>likes\<close> and \<^verbatim>\<open>announces\<close> have the same columns.\<close>

record reaction =
  re_clip_id :: int
  re_actor_id :: int
  re_ap_activity_id :: "string option"
  re_created_at :: timestamp

datatype follow_state = Requested | Accepted | Rejected

record follow =
  fo_follower_actor_id :: int
  fo_target_actor_id :: int
  fo_ap_activity_id :: "string option"
  fo_state :: follow_state
  fo_created_at :: timestamp
  fo_updated_at :: timestamp

record hashtag =
  ht_id :: int
  ht_tag :: string

record bookmark =
  bk_clip_id :: int
  bk_actor_id :: int
  bk_created_at :: timestamp

record sound =
  sn_id :: int
  sn_title :: string
  sn_author_actor_id :: "int option"
  sn_created_at :: timestamp

datatype direction = Inbound | Outbound

record activity =
  av_id :: int
  av_activity_id :: string
  av_direction :: direction
  av_actor_ap_id :: string
  av_object_ap_id :: "string option"
  av_raw :: json
  av_received_at :: timestamp
  av_processed_at :: "timestamp option"

record tombstone =
  tb_ap_id :: string
  tb_type :: string
  tb_deleted_at :: timestamp

datatype job_state = Queued | Running | Done | Dead

record job =
  jb_id :: int
  jb_kind :: string
  jb_payload :: json
  jb_run_after :: timestamp
  jb_attempts :: int
  jb_max_attempts :: int
  jb_last_error :: "string option"
  jb_state :: job_state
  jb_locked_by :: "string option"
  jb_locked_at :: "timestamp option"
  jb_created_at :: timestamp

record session =
  se_id :: string
  se_user_id :: int
  se_expires_at :: timestamp
  se_ip :: "string option"
  se_ua :: "string option"
  se_csrf_token :: string

datatype token_kind = Verify | Password_Reset

record email_token =
  et_id :: int
  et_user_id :: int
  et_kind :: token_kind
  et_token_hash :: string
  et_expires_at :: timestamp
  et_used_at :: "timestamp option"
  et_created_at :: timestamp

record inst =
  in_domain :: string
  in_software :: "string option"
  in_version :: "string option"
  in_inbox_url :: string
  in_disabled_at :: "timestamp option"
  in_failure_count :: int
  in_last_success_at :: "timestamp option"

record setting =
  st_key :: string
  st_value :: json
  st_updated_at :: timestamp

record audit_entry =
  au_id :: int
  au_admin_actor_id :: "int option"
  au_action :: string
  au_target_type :: string
  au_target_id :: "int option"
  au_payload :: json
  au_created_at :: timestamp

datatype notification_kind = N_Follow | N_Like | N_Comment | N_Mention | N_Boost

record notification =
  nt_id :: int
  nt_actor_id :: int
  nt_kind :: notification_kind
  nt_source_actor_id :: int
  nt_clip_id :: "int option"
  nt_read_at :: "timestamp option"
  nt_created_at :: timestamp

datatype report_target = T_Clip | T_Comment | T_Actor
datatype report_state = Open | Resolved | Rejected_Report

record report =
  rp_id :: int
  rp_reporter_actor_id :: "int option"
  rp_target_type :: report_target
  rp_target_id :: int
  rp_category :: "string option"
  rp_body :: string
  rp_state :: report_state
  rp_created_at :: timestamp
  rp_resolved_at :: "timestamp option"

record domain_block =
  dk_domain :: string
  dk_obfuscate :: bool
  dk_public_note :: "string option"
  dk_created_at :: timestamp

section \<open>The database and the connection pool\<close>

record db =
  actors :: "actor list"
  users :: "user list"
  clips :: "clip list"
  media_assets :: "media_asset list"
  comments :: "comment list"
  likes :: "reaction list"
  announces :: "reaction list"
  follows :: "follow list"
  hashtags :: "hashtag list"
  clip_hashtags :: "(int \<times> int) list"
  bookmarks :: "bookmark list"
  sounds :: "sound list"
  activities :: "activity list"
  tombstones :: "tombstone list"
  jobs :: "job list"
  sessions :: "session list"
  email_tokens :: "email_token list"
  instances :: "inst list"
  settings :: "setting list"
  audit_log :: "audit_entry list"
  notifications :: "notification list"
  reports :: "report list"
  domain_blocks :: "domain_block list"
  next_id :: int

text \<open>
  The Postgres sequences behind the \<^verbatim>\<open>BIGSERIAL\<close> columns are modelled by one counter:
  every insert draws a fresh number. The code relies on an id being new, never on the
  numbers of one table being consecutive (Postgres itself leaves gaps).
\<close>

definition empty_db :: db where
  "empty_db = \<lparr>actors = [], users = [], clips = [], media_assets = [], comments = [],
     likes = [], announces = [], follows = [], hashtags = [], clip_hashtags = [],
     bookmarks = [], sounds = [], activities = [], tombstones = [], jobs = [], sessions = [],
     email_tokens = [], instances = [], settings = [], audit_log = [], notifications = [], reports = [],
     domain_blocks = [], next_id = 1\<rparr>"

text \<open>
  What a statement meets at run time: \<open>clock n\<close> is \<^verbatim>\<open>now()\<close> at the \<open>n\<close>-th statement,
  \<open>link n\<close> the connection at that statement. When the connection fails, the client sees an
  error and the statement may or may not have been applied.
\<close>

datatype link_state = Up | Down | Ack_Lost

record pool =
  db :: db
  clock :: "nat \<Rightarrow> timestamp"
  link :: "nat \<Rightarrow> link_state"
  ticks :: nat

type_synonym 'a stmt = "timestamp \<Rightarrow> db \<Rightarrow> sql_error + ('a \<times> db)"

text \<open>\<^verbatim>\<open>Utc::now()\<close> in the handlers reads the same clock.\<close>

definition now :: "'z pool_scheme \<Rightarrow> timestamp" where
  "now p = clock p (ticks p)"

definition exec :: "'a stmt \<Rightarrow> 'z pool_scheme \<Rightarrow> (db_error + 'a) \<times> 'z pool_scheme" where
  "exec f p =
     (let p' = p\<lparr>ticks := Suc (ticks p)\<rparr>; r = f (now p) (db p) in
      case (link p (ticks p), r) of
        (Up, Inr (a, d)) \<Rightarrow> (Inr a, p'\<lparr>db := d\<rparr>)
      | (Up, Inl e) \<Rightarrow> (Inl (Sql e), p')
      | (Ack_Lost, Inr (a, d)) \<Rightarrow> (Inl (Sql ConnectionError), p'\<lparr>db := d\<rparr>)
      | (_, _) \<Rightarrow> (Inl (Sql ConnectionError), p'))"

text \<open>The operator \<^verbatim>\<open>?\<close>: go on with the value, return early with the error.\<close>

definition try_then ::
  "('e + 'a) \<times> 'p \<Rightarrow> ('a \<Rightarrow> 'p \<Rightarrow> ('e + 'b) \<times> 'p) \<Rightarrow> ('e + 'b) \<times> 'p" where
  "try_then r k = (case r of (Inl e, p) \<Rightarrow> (Inl e, p) | (Inr a, p) \<Rightarrow> k a p)"

text \<open>\<^verbatim>\<open>LIMIT n\<close>.\<close>

definition limit_rows :: "int \<Rightarrow> 'r list \<Rightarrow> sql_error + 'r list" where
  "limit_rows n rs = (if n < 0 then Inl negative_limit else Inr (take (nat n) rs))"

text \<open>A read-only statement.\<close>

definition select :: "(timestamp \<Rightarrow> db \<Rightarrow> 'a) \<Rightarrow> 'a stmt" where
  "select f = (\<lambda>t d. Inr (f t d, d))"

text \<open>\<^verbatim>\<open>fetch_one\<close> on an optional row.\<close>

definition fetch_one :: "'r option stmt \<Rightarrow> 'r stmt" where
  "fetch_one s = (\<lambda>t d. case s t d of
     Inl e \<Rightarrow> Inl e | Inr (None, d') \<Rightarrow> Inl RowNotFound | Inr (Some r, d') \<Rightarrow> Inr (r, d'))"

section \<open>Unique keys of the tables\<close>

text \<open>One index key per \<^verbatim>\<open>UNIQUE\<close> constraint; \<open>None\<close> where the row is not indexed.\<close>

definition local_username_key :: "actor \<Rightarrow> string option" where
  "local_username_key a = (if ac_domain a = None then Some (to_ascii_lowercase (ac_username a)) else None)"

definition actors_unique :: "actor list \<Rightarrow> bool" where
  "actors_unique rs \<longleftrightarrow> unique_on (\<lambda>a. Some (ac_ap_id a)) rs \<and> unique_on local_username_key rs"

definition users_unique :: "user list \<Rightarrow> bool" where
  "users_unique rs \<longleftrightarrow> unique_on (\<lambda>u. Some (us_actor_id u)) rs \<and>
     unique_on (\<lambda>u. map_option to_ascii_lowercase (us_email u)) rs"

text \<open>\<^verbatim>\<open>clips_sha256_active_uniq\<close> (migration 0003).\<close>

definition active_sha_key :: "clip \<Rightarrow> string option" where
  "active_sha_key c =
     (if cl_deleted_at c = None \<and> cl_status c \<noteq> Failed then cl_sha256_hash c else None)"

definition clips_unique :: "clip list \<Rightarrow> bool" where
  "clips_unique rs \<longleftrightarrow> unique_on (\<lambda>c. Some (cl_ap_id c)) rs \<and> unique_on active_sha_key rs"

definition asset_key :: "media_asset \<Rightarrow> (int \<times> asset_kind \<times> rendition) option" where
  "asset_key a = Some (ma_clip_id a, ma_kind a, ma_rendition a)"

definition follow_key :: "follow \<Rightarrow> (int \<times> int) option" where
  "follow_key f = Some (fo_follower_actor_id f, fo_target_actor_id f)"

text \<open>Write a table back if its unique indexes accept the new rows.\<close>

definition put_actors :: "'a \<Rightarrow> actor list \<Rightarrow> db \<Rightarrow> sql_error + ('a \<times> db)" where
  "put_actors r rs d = (if actors_unique rs then Inr (r, d\<lparr>actors := rs\<rparr>) else Inl unique_violation)"

definition put_users :: "'a \<Rightarrow> user list \<Rightarrow> db \<Rightarrow> sql_error + ('a \<times> db)" where
  "put_users r rs d = (if users_unique rs then Inr (r, d\<lparr>users := rs\<rparr>) else Inl unique_violation)"

definition put_clips :: "'a \<Rightarrow> clip list \<Rightarrow> db \<Rightarrow> sql_error + ('a \<times> db)" where
  "put_clips r rs d = (if clips_unique rs then Inr (r, d\<lparr>clips := rs\<rparr>) else Inl unique_violation)"

definition has_actor :: "int \<Rightarrow> db \<Rightarrow> bool" where
  "has_actor i d = list_ex (\<lambda>a. ac_id a = i) (actors d)"

definition has_clip :: "int \<Rightarrow> db \<Rightarrow> bool" where
  "has_clip i d = list_ex (\<lambda>c. cl_id c = i) (clips d)"

definition has_user :: "int \<Rightarrow> db \<Rightarrow> bool" where
  "has_user i d = list_ex (\<lambda>u. us_id u = i) (users d)"

section \<open>Executing statements\<close>

lemma exec_ok:
  "link p (ticks p) = Up \<Longrightarrow> f (now p) (db p) = Inr (a, d) \<Longrightarrow>
     exec f p = (Inr a, p\<lparr>ticks := Suc (ticks p), db := d\<rparr>)"
  by (simp add: exec_def)

lemma exec_err:
  "link p (ticks p) = Up \<Longrightarrow> f (now p) (db p) = Inl e \<Longrightarrow>
     exec f p = (Inl (Sql e), p\<lparr>ticks := Suc (ticks p)\<rparr>)"
  by (simp add: exec_def)

lemma exec_up:
  "link p (ticks p) = Up \<Longrightarrow> exec f p = (case f (now p) (db p) of
     Inl e \<Rightarrow> (Inl (Sql e), p\<lparr>ticks := Suc (ticks p)\<rparr>)
   | Inr (a, d) \<Rightarrow> (Inr a, p\<lparr>ticks := Suc (ticks p), db := d\<rparr>))"
  by (auto simp: exec_def split: sum.splits)

lemma exec_down:
  "link p (ticks p) = Down \<Longrightarrow> exec f p = (Inl (Sql ConnectionError), p\<lparr>ticks := Suc (ticks p)\<rparr>)"
  by (simp add: exec_def)

text \<open>The ways a statement ends: it applied, or the tables are as before; a success means
  that it applied.\<close>

lemma exec_cases:
  obtains (ok) a d where "f (now p) (db p) = Inr (a, d)"
      and "exec f p = (Inr a, p\<lparr>ticks := Suc (ticks p), db := d\<rparr>)"
    | (err) e where "exec f p = (Inl e, p\<lparr>ticks := Suc (ticks p)\<rparr>)"
    | (lost) a d where "f (now p) (db p) = Inr (a, d)"
      and "exec f p = (Inl (Sql ConnectionError), p\<lparr>ticks := Suc (ticks p), db := d\<rparr>)"
  by (cases "link p (ticks p)"; cases "f (now p) (db p)") (auto simp: exec_def)

lemma exec_InrD:
  "exec f p = (Inr a, p') \<Longrightarrow>
     f (now p) (db p) = Inr (a, db p') \<and> p' = p\<lparr>ticks := Suc (ticks p), db := db p'\<rparr>"
  by (cases rule: exec_cases [of f p]) auto

text \<open>A property of the tables that the statement keeps survives its execution.\<close>

definition keeps :: "(db \<Rightarrow> bool) \<Rightarrow> 'a stmt \<Rightarrow> bool" where
  "keeps I f \<longleftrightarrow> (\<forall>t d a d'. I d \<longrightarrow> f t d = Inr (a, d') \<longrightarrow> I d')"

lemma keepsI: "(\<And>t d a d'. I d \<Longrightarrow> f t d = Inr (a, d') \<Longrightarrow> I d') \<Longrightarrow> keeps I f"
  by (auto simp: keeps_def)

lemma keepsD: "keeps I f \<Longrightarrow> I d \<Longrightarrow> f t d = Inr (a, d') \<Longrightarrow> I d'"
  by (auto simp: keeps_def)

lemma keeps_exec: "keeps I f \<Longrightarrow> I (db p) \<Longrightarrow> I (db (snd (exec f p)))"
  by (cases rule: exec_cases [of f p]) (auto dest: keepsD)

lemma keeps_execD: "keeps I f \<Longrightarrow> I (db p) \<Longrightarrow> exec f p = (r, p') \<Longrightarrow> I (db p')"
  using keeps_exec [of I f p] by simp

lemma keeps_select [simp, intro]: "keeps I (select f)"
  by (auto simp: keeps_def select_def)

lemma keeps_fetch_one [intro]: "keeps I f \<Longrightarrow> keeps I (fetch_one f)"
  by (force simp: keeps_def fetch_one_def split: sum.splits option.splits prod.splits)

lemma try_then_keeps:
  assumes "J (db (snd r))" and "\<And>a p. J (db p) \<Longrightarrow> J (db (snd (k a p)))"
  shows "J (db (snd (try_then r k)))"
  using assms by (cases r; cases "fst r") (auto simp: try_then_def)

lemma try_then_cases:
  assumes "\<And>e q. r = (Inl e, q) \<Longrightarrow> P q" and "\<And>a q. r = (Inr a, q) \<Longrightarrow> P (snd (k a q))"
  shows "P (snd (try_then r k))"
  using assms by (cases r; cases "fst r") (auto simp: try_then_def)

lemma exec_post: "exec f p = (r, q) \<Longrightarrow> db q = db p \<or> (\<exists>a. f (now p) (db p) = Inr (a, db q))"
  by (cases rule: exec_cases [of f p]) auto

lemma exec_selectD:
  "exec (select f) p = (r, p') \<Longrightarrow> db p' = db p \<and> (\<forall>a. r = Inr a \<longrightarrow> a = f (now p) (db p))"
  by (cases rule: exec_cases [of "select f" p]) (auto simp: select_def)

lemma exec_frame [simp]:
  "clock (snd (exec f p)) = clock p" "link (snd (exec f p)) = link p"
  "ticks (snd (exec f p)) = Suc (ticks p)" "pool.more (snd (exec f p)) = pool.more p"
  by (cases rule: exec_cases [of f p]; simp)+

lemma exec_select_db [simp]: "db (snd (exec (select f) p)) = db p"
  by (cases rule: exec_cases [of "select f" p]) (auto simp: select_def)

lemma try_then_Inl [simp]: "try_then (Inl e, p) k = (Inl e, p)"
  and try_then_Inr [simp]: "try_then (Inr a, p) k = k a p"
  by (simp_all add: try_then_def)

end
