(* ===== verification/Note.thy ===== *)
theory Note
  imports Html Db_Schema
begin

text \<open>
  Clips as ActivityPub notes (\<^verbatim>\<open>crates/federation/src/note.rs\<close>): the outbound \<^verbatim>\<open>Create(Note)\<close>
  JSON and the validation of inbound notes. Parsing of RFC 3339 time stamps and their
  rendering belong to the crate \<^verbatim>\<open>chrono\<close> and are parameters. A decimal literal is read as the
  rational it denotes; the rounding of \<^verbatim>\<open>f64\<close> arithmetic is not modelled.
\<close>

section \<open>Reading numbers\<close>

text \<open>\<^verbatim>\<open>str::parse::<f64>\<close>.\<close>

definition split_sign :: "string \<Rightarrow> bool \<times> string" where
  "split_sign s = (case s of
     [] \<Rightarrow> (False, [])
   | c # r \<Rightarrow> if c = CHR ''-'' then (True, r) else if c = CHR ''+'' then (False, r) else (False, s))"

definition parse_exponent :: "string \<Rightarrow> int option" where
  "parse_exponent s = (let (neg, ds) = split_sign s in
     if ds \<noteq> [] \<and> list_all is_digit ds
     then Some (if neg then - int (number_of 10 ds) else int (number_of 10 ds)) else None)"

definition pow10 :: "int \<Rightarrow> rat" where
  "pow10 e = (if e \<ge> 0 then 10 ^ nat e else 1 / 10 ^ nat (- e))"

definition parse_decimal :: "string \<Rightarrow> rat option" where
  "parse_decimal s =
     (let ip = takeWhile is_digit s; r1 = dropWhile is_digit s;
          (fp, r2) = (case r1 of
              c # r \<Rightarrow> if c = CHR ''.'' then (takeWhile is_digit r, dropWhile is_digit r) else ([], r1)
            | [] \<Rightarrow> ([], []));
          mant = of_nat (number_of 10 (ip @ fp)) * pow10 (- int (length fp))
      in if ip = [] \<and> fp = [] then None
         else case r2 of
           [] \<Rightarrow> Some mant
         | c # r \<Rightarrow> if c = CHR ''e'' \<or> c = CHR ''E''
                   then map_option (\<lambda>e. mant * pow10 e) (parse_exponent r) else None)"

definition parse_f64 :: "string \<Rightarrow> f64 option" where
  "parse_f64 s =
     (let (neg, body) = split_sign s; low = to_ascii_lowercase body in
      if low = ''nan'' then Some F_NaN
      else if low = ''inf'' \<or> low = ''infinity'' then Some (if neg then F_NegInf else F_PosInf)
      else map_option (\<lambda>r. F_Fin (if neg then - r else r)) (parse_decimal body))"

definition f64_nonneg :: "f64 \<Rightarrow> bool" where
  "f64_nonneg x = f64_le (F_Fin 0) x"

fun f64_add :: "f64 \<Rightarrow> f64 \<Rightarrow> f64" where
  "f64_add F_NaN _ = F_NaN"
| "f64_add _ F_NaN = F_NaN"
| "f64_add F_PosInf F_NegInf = F_NaN"
| "f64_add F_NegInf F_PosInf = F_NaN"
| "f64_add F_PosInf _ = F_PosInf"
| "f64_add _ F_PosInf = F_PosInf"
| "f64_add F_NegInf _ = F_NegInf"
| "f64_add _ F_NegInf = F_NegInf"
| "f64_add (F_Fin a) (F_Fin b) = F_Fin (a + b)"

text \<open>Multiplication by a positive constant.\<close>

fun f64_scale :: "rat \<Rightarrow> f64 \<Rightarrow> f64" where
  "f64_scale k (F_Fin a) = F_Fin (k * a)"
| "f64_scale k x = x"

section \<open>Durations\<close>

text \<open>\<^verbatim>\<open>parse_component\<close>: \<open>num\<close> is the text since \<^verbatim>\<open>num_start\<close>. \<open>None\<close> is the early return.\<close>

fun component_go :: "char \<Rightarrow> string \<Rightarrow> f64 \<times> bool \<Rightarrow> string \<Rightarrow> (f64 \<times> bool) option" where
  "component_go u num acc [] = Some acc"
| "component_go u num (tot, found) (c # s) =
     (if c = u then (case parse_f64 num of
          None \<Rightarrow> None
        | Some x \<Rightarrow> component_go u [] (f64_add tot x, True) s)
      else if \<not> (is_digit c \<or> c = CHR ''.'' \<or> c = CHR '','') then component_go u [] (tot, found) s
      else component_go u (num @ [c]) (tot, found) s)"

definition parse_component :: "string \<Rightarrow> char \<Rightarrow> f64 option" where
  "parse_component chunk unit =
     (case component_go (to_ascii_lower unit) [] (F_Fin 0, False) (to_ascii_lowercase chunk) of
        None \<Rightarrow> None
      | Some (tot, found) \<Rightarrow> if found then Some tot else None)"

definition split_once :: "char \<Rightarrow> string \<Rightarrow> (string \<times> string) option" where
  "split_once c s = (if c \<in> set s then Some (takeWhile (\<lambda>x. x \<noteq> c) s, tl (dropWhile (\<lambda>x. x \<noteq> c) s)) else None)"

definition parse_duration_str :: "string \<Rightarrow> f64 option" where
  "parse_duration_str s =
     (let trimmed = trim s in
      case parse_f64 trimmed of
        Some secs \<Rightarrow> if f64_nonneg secs then Some secs else None
      | None \<Rightarrow>
          (case strip_prefix ''P'' trimmed of
             None \<Rightarrow> None
           | Some rest \<Rightarrow>
               (let (days, time) = (case split_once (CHR ''T'') rest of
                      Some (d, t) \<Rightarrow> (d, Some t) | None \<Rightarrow> (rest, None));
                    part = (\<lambda>ch u k. f64_scale k (unwrap_or (F_Fin 0) (parse_component ch u)));
                    total0 = part days (CHR ''D'') 86400;
                    tot = (case time of None \<Rightarrow> total0
                      | Some t \<Rightarrow> f64_add (f64_add (f64_add total0 (part t (CHR ''H'') 3600))
                          (part t (CHR ''M'') 60)) (part t (CHR ''S'') 1))
                in if f64_nonneg tot then Some tot else None)))"

definition parse_duration_seconds :: "json \<Rightarrow> f64 option" where
  "parse_duration_seconds v = (case v of
     JInt n \<Rightarrow> opt_filter f64_nonneg (json_as_f64 v)
   | JReal x \<Rightarrow> opt_filter f64_nonneg (json_as_f64 v)
   | JStr s \<Rightarrow> parse_duration_str s
   | _ \<Rightarrow> None)"

section \<open>Inbound notes\<close>

record parsed_attachment =
  pa_media_url :: string
  pa_width :: "int option"
  pa_height :: "int option"
  pa_duration_s :: "f64 option"

record parsed_note =
  pn_id :: string
  pn_attributed_to :: string
  pn_content_html :: "string option"
  pn_sensitive :: bool
  pn_summary :: "string option"
  pn_published :: "timestamp option"
  pn_attachment :: parsed_attachment

record note_fields =
  nf_content_html :: "string option"
  nf_sensitive :: bool
  nf_summary :: "string option"

definition nonempty :: "string option \<Rightarrow> string option" where
  "nonempty = opt_filter (\<lambda>s. s \<noteq> [])"

definition first_string :: "json option \<Rightarrow> string option" where
  "first_string v = (case v of
     Some (JStr s) \<Rightarrow> Some s
   | Some (JArr items) \<Rightarrow> fetch_optional (List.map_filter json_as_str items)
   | _ \<Rightarrow> None)"

definition int_field :: "json \<Rightarrow> string \<Rightarrow> int option" where
  "int_field entry key = opt_filter (\<lambda>v. - (2 ^ 31) \<le> v \<and> v < 2 ^ 31) (get_i64 key entry)"

definition mp4_entry :: "json \<Rightarrow> parsed_attachment option" where
  "mp4_entry entry =
     (let kind = unwrap_or [] (get_str ''type'' entry) in
      if kind \<noteq> ''Document'' \<and> kind \<noteq> ''Video'' then None
      else if get_str ''mediaType'' entry \<noteq> Some ''video/mp4'' then None
      else map_option (\<lambda>url. \<lparr>pa_media_url = url, pa_width = int_field entry ''width'',
             pa_height = int_field entry ''height'',
             pa_duration_s = Option.bind (json_get ''duration'' entry) parse_duration_seconds\<rparr>)
           (nonempty (get_str ''url'' entry)))"

definition find_mp4_attachment :: "json \<Rightarrow> parsed_attachment option" where
  "find_mp4_attachment v = (case v of
     JArr items \<Rightarrow> fetch_optional (List.map_filter mp4_entry items)
   | JObj _ \<Rightarrow> mp4_entry v
   | _ \<Rightarrow> None)"

definition get_bool_or_false :: "string \<Rightarrow> json \<Rightarrow> bool" where
  "get_bool_or_false k v = unwrap_or False (Option.bind (json_get k v) json_as_bool)"

definition parse_inbound_note :: "(string \<Rightarrow> timestamp option) \<Rightarrow> json \<Rightarrow> string + parsed_note" where
  "parse_inbound_note parse_rfc3339 ob =
     (if get_str ''type'' ob \<noteq> Some ''Note'' then Inl ''object is not a Note''
      else case nonempty (get_str ''id'' ob) of
        None \<Rightarrow> Inl ''note has no id''
      | Some i \<Rightarrow> (case first_string (json_get ''attributedTo'' ob) of
          None \<Rightarrow> Inl ''note has no attributedTo''
        | Some by \<Rightarrow> (case Option.bind (json_get ''attachment'' ob) find_mp4_attachment of
            None \<Rightarrow> Inl ''attachment array has no Document/Video with mediaType video/mp4''
          | Some att \<Rightarrow> Inr \<lparr>pn_id = i, pn_attributed_to = by, pn_content_html = get_str ''content'' ob,
              pn_sensitive = get_bool_or_false ''sensitive'' ob, pn_summary = get_str ''summary'' ob,
              pn_published = Option.bind (get_str ''published'' ob) parse_rfc3339,
              pn_attachment = att\<rparr>)))"

definition extract_note_fields :: "json \<Rightarrow> note_fields" where
  "extract_note_fields ob = \<lparr>nf_content_html = get_str ''content'' ob,
     nf_sensitive = get_bool_or_false ''sensitive'' ob, nf_summary = get_str ''summary'' ob\<rparr>"

section \<open>Outbound notes\<close>

definition as_public :: string where
  "as_public = ''https://www.w3.org/ns/activitystreams#Public''"

definition clip_object_id :: "string \<Rightarrow> int \<Rightarrow> string" where
  "clip_object_id base_url clip_id = base_url @ ''/clips/'' @ show_int clip_id"

text \<open>\<^verbatim>\<open>(d * 1000.0).round() / 1000.0\<close>, halves away from zero.\<close>

definition round_ms :: "f64 \<Rightarrow> f64" where
  "round_ms x = (case x of
     F_Fin r \<Rightarrow> F_Fin (of_int (if r \<ge> 0 then \<lfloor>r * 1000 + 1 / 2\<rfloor> else - \<lfloor>- r * 1000 + 1 / 2\<rfloor>) / 1000)
   | _ \<Rightarrow> x)"

definition opt_member :: "string \<Rightarrow> json option \<Rightarrow> (string \<times> json) list" where
  "opt_member k v = (case v of None \<Rightarrow> [] | Some x \<Rightarrow> [(k, x)])"

definition attachment_json :: "string \<Rightarrow> clip \<Rightarrow> string option \<Rightarrow> json" where
  "attachment_json base_url c media_filename = JObj (
     [(''type'', JStr ''Document''), (''mediaType'', JStr ''video/mp4''),
      (''url'', JStr (base_url @ ''/assets/'' @ show_int (cl_id c) @ ''/'' @ unwrap_or ''720.mp4'' media_filename))] @
     opt_member ''width'' (map_option JInt (cl_width c)) @
     opt_member ''height'' (map_option JInt (cl_height c)) @
     opt_member ''duration'' (map_option (\<lambda>d. JReal (round_ms d)) (cl_duration_s c)))"

definition published_text :: "(timestamp \<Rightarrow> string) \<Rightarrow> clip \<Rightarrow> string" where
  "published_text rfc3339 c = rfc3339 (unwrap_or (cl_created_at c) (cl_published_at c))"

definition clip_note_json :: "(timestamp \<Rightarrow> string) \<Rightarrow> string \<Rightarrow> clip \<Rightarrow> actor \<Rightarrow> string option \<Rightarrow> json" where
  "clip_note_json rfc3339 base_url c author media_filename = JObj (
     [(''id'', JStr (cl_ap_id c)), (''type'', JStr ''Note''), (''attributedTo'', JStr (ac_ap_id author)),
      (''content'', JStr (unwrap_or [] (cl_caption_html c))),
      (''published'', JStr (published_text rfc3339 c)), (''url'', JStr (cl_ap_id c)),
      (''sensitive'', JBool (cl_is_sensitive c)),
      (''attachment'', JArr [attachment_json base_url c media_filename]), (''tag'', JArr [])] @
     opt_member ''summary'' (map_option JStr (cl_cw_text c)))"

definition clip_create_activity :: "(timestamp \<Rightarrow> string) \<Rightarrow> string \<Rightarrow> clip \<Rightarrow> actor \<Rightarrow> string option \<Rightarrow> json" where
  "clip_create_activity rfc3339 base_url c author media_filename = JObj
     [(''@context'', JStr ''https://www.w3.org/ns/activitystreams''),
      (''id'', JStr (cl_ap_id c @ ''/activity'')), (''type'', JStr ''Create''),
      (''actor'', JStr (ac_ap_id author)), (''published'', JStr (published_text rfc3339 c)),
      (''to'', JArr [JStr (ac_followers_url author)]), (''cc'', JArr [JStr as_public]),
      (''object'', clip_note_json rfc3339 base_url c author media_filename)]"

section \<open>What we publish, we accept\<close>

lemma get_str_note:
  "get_str ''type'' (clip_note_json r b c a m) = Some ''Note''"
  "get_str ''id'' (clip_note_json r b c a m) = Some (cl_ap_id c)"
  "get_str ''content'' (clip_note_json r b c a m) = Some (unwrap_or [] (cl_caption_html c))"
  "get_str ''summary'' (clip_note_json r b c a m) = cl_cw_text c"
  "get_str ''published'' (clip_note_json r b c a m) = Some (published_text r c)"
  by (auto simp: get_str_def clip_note_json_def opt_member_def split: option.splits)

lemma get_note_other:
  "json_get ''attributedTo'' (clip_note_json r b c a m) = Some (JStr (ac_ap_id a))"
  "json_get ''attachment'' (clip_note_json r b c a m) = Some (JArr [attachment_json b c m])"
  "get_bool_or_false ''sensitive'' (clip_note_json r b c a m) = cl_is_sensitive c"
  by (auto simp: clip_note_json_def get_bool_or_false_def json_as_bool_def unwrap_or_def)

definition i32_ok :: "int option \<Rightarrow> bool" where
  "i32_ok x \<longleftrightarrow> (case x of None \<Rightarrow> True | Some v \<Rightarrow> - (2 ^ 31) \<le> v \<and> v < 2 ^ 31)"

lemma mp4_own_attachment:
  assumes "i32_ok (cl_width c)" and "i32_ok (cl_height c)"
    and "cl_duration_s c = Some (F_Fin d)" and "0 \<le> d"
  shows "mp4_entry (attachment_json b c m) =
    Some \<lparr>pa_media_url = b @ ''/assets/'' @ show_int (cl_id c) @ ''/'' @ unwrap_or ''720.mp4'' m,
      pa_width = cl_width c, pa_height = cl_height c, pa_duration_s = Some (round_ms (F_Fin d))\<rparr>"
  using assms
  by (auto simp: mp4_entry_def attachment_json_def get_str_def get_i64_def opt_member_def nonempty_def
      opt_filter_def unwrap_or_def int_field_def i32_ok_def parse_duration_seconds_def f64_nonneg_def
      round_ms_def split: option.splits)

text \<open>C8: the note built for a published clip passes the inbound validation of another instance and
  carries the clip over: id, author, caption, sensitivity, content warning, size, publication
  time and the media URL (the duration to the millisecond).\<close>

theorem own_note_is_accepted:
  assumes "cl_ap_id c \<noteq> []" and "i32_ok (cl_width c)" and "i32_ok (cl_height c)"
    and "cl_duration_s c = Some (F_Fin d)" and "0 \<le> d"
    and chrono_roundtrip: "\<And>t. parse_rfc3339 (rfc3339 t) = Some t"
  shows "parse_inbound_note parse_rfc3339 (clip_note_json rfc3339 b c author m) = Inr
    \<lparr>pn_id = cl_ap_id c, pn_attributed_to = ac_ap_id author,
     pn_content_html = Some (unwrap_or [] (cl_caption_html c)), pn_sensitive = cl_is_sensitive c,
     pn_summary = cl_cw_text c, pn_published = Some (unwrap_or (cl_created_at c) (cl_published_at c)),
     pn_attachment = \<lparr>pa_media_url = b @ ''/assets/'' @ show_int (cl_id c) @ ''/'' @ unwrap_or ''720.mp4'' m,
       pa_width = cl_width c, pa_height = cl_height c, pa_duration_s = Some (round_ms (F_Fin d))\<rparr>\<rparr>"
  using assms(1) mp4_own_attachment [OF assms(2-5), of b m]
  by (simp add: parse_inbound_note_def get_str_note get_note_other nonempty_def opt_filter_def
      first_string_def find_mp4_attachment_def List.map_filter_simps published_text_def chrono_roundtrip)

text \<open>A concrete rendering of time stamps (sign and magnitude in unary) with its reader, and a clip
  with its author, to exercise the property.\<close>

definition demo_rfc3339 :: "timestamp \<Rightarrow> string" where
  "demo_rfc3339 t = (if t < 0 then CHR ''-'' else CHR ''+'') # replicate (nat \<bar>t\<bar>) (CHR ''1'')"

definition demo_parse_rfc3339 :: "string \<Rightarrow> timestamp option" where
  "demo_parse_rfc3339 s = (case s of
     [] \<Rightarrow> None
   | c # r \<Rightarrow> Some (if c = CHR ''-'' then - int (length r) else int (length r)))"

definition demo_author :: actor where
  "demo_author = \<lparr>ac_id = 1, ac_username = ''alice'', ac_domain = None, ac_actor_type = Person,
     ac_public_key_pem = ''pub'', ac_private_key_pem = Some ''priv'', ac_inbox_url = ''https://a.test/users/alice/inbox'',
     ac_shared_inbox_url = Some ''https://a.test/inbox'', ac_outbox_url = ''https://a.test/users/alice/outbox'',
     ac_followers_url = ''https://a.test/users/alice/followers'', ac_display_name = None, ac_summary = None,
     ac_avatar_path = None, ac_header_path = None, ac_manually_approves_followers = False,
     ac_is_locked = False, ac_suspended_at = None, ac_deleted_at = None,
     ac_ap_id = ''https://a.test/users/alice'', ac_created_at = 0, ac_updated_at = 0\<rparr>"

definition demo_clip :: clip where
  "demo_clip = \<lparr>cl_id = 7, cl_actor_id = 1, cl_ap_id = ''https://a.test/clips/7'', cl_origin = Local,
     cl_caption_html = Some ''hi'', cl_visibility = Public, cl_status = Ready,
     cl_duration_s = Some (F_Fin (3 / 2)), cl_sha256_hash = Some ''ab'', cl_width = Some 720,
     cl_height = Some 1280, cl_size_bytes = Some 100, cl_remote_media_url = None,
     cl_remote_poster_url = None, cl_is_sensitive = False, cl_cw_text = None,
     cl_comments_disabled = False, cl_downloads_allowed = True, cl_like_count = 0,
     cl_comment_count = 0, cl_share_count = 0, cl_view_count = 0, cl_published_at = Some 9,
     cl_deleted_at = None, cl_created_at = 5, cl_updated_at = 9, cl_sound_id = None\<rparr>"

theorem own_note_is_accepted_witness:
  "\<exists>n. parse_inbound_note demo_parse_rfc3339 (clip_note_json demo_rfc3339 ''https://a.test'' demo_clip demo_author None) =
     Inr n \<and> pn_id n = ''https://a.test/clips/7'' \<and> pn_published n = Some 9"
proof -
  have "demo_parse_rfc3339 (demo_rfc3339 t) = Some t" for t
    by (simp add: demo_parse_rfc3339_def demo_rfc3339_def)
  from own_note_is_accepted [of demo_clip "3 / 2" demo_parse_rfc3339 demo_rfc3339 "''https://a.test''" demo_author None,
      OF _ _ _ _ _ this]
  show ?thesis by (simp add: demo_clip_def i32_ok_def unwrap_or_def)
qed

end
