(* ===== verification/Db_Actors.thy ===== *)
theory Db_Actors
  imports Db_Schema
begin

text \<open>
  Accounts in the database: the statements of \<^verbatim>\<open>actor.rs\<close>, \<^verbatim>\<open>user.rs\<close>, \<^verbatim>\<open>session.rs\<close>,
  \<^verbatim>\<open>email_token.rs\<close>, \<^verbatim>\<open>settings.rs\<close>, \<^verbatim>\<open>audit.rs\<close>, \<^verbatim>\<open>instance.rs\<close> and \<^verbatim>\<open>tombstone.rs\<close> of
  \<^verbatim>\<open>crates/db/src\<close>, with the row-level facts their callers rely on: what an upsert keeps,
  that a token is consumed once, that erasure removes every credential.
\<close>

section \<open>Actors (\<^verbatim>\<open>actor.rs\<close>)\<close>

definition actor_by :: "(actor \<Rightarrow> bool) \<Rightarrow> actor option stmt" where
  "actor_by P = select (\<lambda>t d. fetch_optional (filter P (actors d)))"

definition actor_fetch_by_id :: "int \<Rightarrow> actor option stmt" where
  "actor_fetch_by_id i = actor_by (\<lambda>a. ac_id a = i)"

definition actor_fetch_by_ap_id :: "string \<Rightarrow> actor option stmt" where
  "actor_fetch_by_ap_id ap_id = actor_by (\<lambda>a. ac_ap_id a = ap_id)"

definition actor_fetch_by_username_local :: "string \<Rightarrow> actor option stmt" where
  "actor_fetch_by_username_local u = actor_by (\<lambda>a. citext_eq (ac_username a) u \<and> ac_domain a = None)"

text \<open>\<^verbatim>\<open>UPDATE actors SET ... WHERE ... RETURNING *\<close>, with the trigger that stamps \<^verbatim>\<open>updated_at\<close>.\<close>

definition update_actor :: "(actor \<Rightarrow> bool) \<Rightarrow> (timestamp \<Rightarrow> actor \<Rightarrow> actor) \<Rightarrow> actor option stmt" where
  "update_actor P f = (\<lambda>t d.
     let g = (\<lambda>a. (f t a)\<lparr>ac_updated_at := t\<rparr>)
     in put_actors (fetch_optional (returning P g (actors d))) (update_where P g (actors d)) d)"

definition actor_update_profile :: "int \<Rightarrow> string option \<Rightarrow> string option \<Rightarrow> actor option stmt" where
  "actor_update_profile i display_name summary = update_actor (\<lambda>a. ac_id a = i)
     (\<lambda>_ a. a\<lparr>ac_display_name := display_name, ac_summary := summary\<rparr>)"

definition actor_set_avatar_path :: "int \<Rightarrow> string \<Rightarrow> actor option stmt" where
  "actor_set_avatar_path i path = update_actor (\<lambda>a. ac_id a = i) (\<lambda>_ a. a\<lparr>ac_avatar_path := Some path\<rparr>)"

definition actor_suspend :: "int \<Rightarrow> actor option stmt" where
  "actor_suspend i = update_actor (\<lambda>a. ac_id a = i) (\<lambda>t a. a\<lparr>ac_suspended_at := Some t\<rparr>)"

definition actor_mark_deleted :: "int \<Rightarrow> actor option stmt" where
  "actor_mark_deleted i = update_actor (\<lambda>a. ac_id a = i) (\<lambda>t a. a\<lparr>ac_deleted_at := Some t\<rparr>)"

definition actor_mark_remote_deleted_by_ap_id :: "string \<Rightarrow> actor option stmt" where
  "actor_mark_remote_deleted_by_ap_id ap_id =
     update_actor (\<lambda>a. ac_ap_id a = ap_id) (\<lambda>t a. a\<lparr>ac_deleted_at := Some t\<rparr>)"

text \<open>The columns an insert into \<^verbatim>\<open>actors\<close> leaves to their defaults.\<close>

definition new_actor ::
  "int \<Rightarrow> timestamp \<Rightarrow> string \<Rightarrow> string option \<Rightarrow> actor_type \<Rightarrow> string \<Rightarrow> string option \<Rightarrow> string \<Rightarrow>
     string option \<Rightarrow> string \<Rightarrow> string \<Rightarrow> string \<Rightarrow> actor" where
  "new_actor i t username domain actor_type public_key_pem private_key_pem inbox_url
     shared_inbox_url outbox_url followers_url ap_id =
   \<lparr>ac_id = i, ac_username = username, ac_domain = domain, ac_actor_type = actor_type,
    ac_public_key_pem = public_key_pem, ac_private_key_pem = private_key_pem,
    ac_inbox_url = inbox_url, ac_shared_inbox_url = shared_inbox_url,
    ac_outbox_url = outbox_url, ac_followers_url = followers_url,
    ac_display_name = None, ac_summary = None, ac_avatar_path = None, ac_header_path = None,
    ac_manually_approves_followers = False, ac_is_locked = False, ac_suspended_at = None,
    ac_deleted_at = None, ac_ap_id = ap_id, ac_created_at = t, ac_updated_at = t\<rparr>"

definition insert_actor :: "actor \<Rightarrow> db \<Rightarrow> sql_error + (actor \<times> db)" where
  "insert_actor a d = put_actors a (actors d @ [a]) (d\<lparr>next_id := next_id d + 1\<rparr>)"

definition actor_create ::
  "string \<Rightarrow> string option \<Rightarrow> actor_type \<Rightarrow> string \<Rightarrow> string option \<Rightarrow> string \<Rightarrow>
     string option \<Rightarrow> string \<Rightarrow> string \<Rightarrow> string \<Rightarrow> actor stmt" where
  "actor_create username domain actor_type public_key_pem private_key_pem inbox_url
     shared_inbox_url outbox_url followers_url ap_id = (\<lambda>t d.
   insert_actor (new_actor (next_id d) t username domain actor_type public_key_pem private_key_pem
     inbox_url shared_inbox_url outbox_url followers_url ap_id) d)"

text \<open>\<^verbatim>\<open>upsert_remote\<close>: \<^verbatim>\<open>ON CONFLICT (ap_id) DO UPDATE\<close>; the private key, the suspension and the
  creation time of a known row are not in the \<^verbatim>\<open>SET\<close> list.\<close>

record remote_actor =
  rm_username :: string
  rm_domain :: string
  rm_actor_type :: actor_type
  rm_public_key_pem :: string
  rm_inbox_url :: string
  rm_shared_inbox_url :: "string option"
  rm_outbox_url :: string
  rm_followers_url :: string
  rm_ap_id :: string
  rm_display_name :: "string option"
  rm_summary :: "string option"
  rm_avatar_url :: "string option"

definition refresh_actor :: "remote_actor \<Rightarrow> timestamp \<Rightarrow> actor \<Rightarrow> actor" where
  "refresh_actor r t a = a\<lparr>
     ac_username := rm_username r, ac_domain := Some (rm_domain r),
     ac_actor_type := rm_actor_type r, ac_public_key_pem := rm_public_key_pem r,
     ac_inbox_url := rm_inbox_url r, ac_shared_inbox_url := rm_shared_inbox_url r,
     ac_outbox_url := rm_outbox_url r, ac_followers_url := rm_followers_url r,
     ac_display_name := coalesce (rm_display_name r) (ac_display_name a),
     ac_summary := coalesce (rm_summary r) (ac_summary a),
     ac_avatar_path := coalesce (rm_avatar_url r) (ac_avatar_path a),
     ac_deleted_at := None, ac_updated_at := t\<rparr>"

definition actor_upsert_remote :: "remote_actor \<Rightarrow> actor stmt" where
  "actor_upsert_remote r = (\<lambda>t d.
     if list_ex (\<lambda>a. ac_ap_id a = rm_ap_id r) (actors d)
     then fetch_one (update_actor (\<lambda>a. ac_ap_id a = rm_ap_id r) (refresh_actor r)) t d
     else insert_actor ((new_actor (next_id d) t (rm_username r) (Some (rm_domain r)) (rm_actor_type r)
       (rm_public_key_pem r) None (rm_inbox_url r) (rm_shared_inbox_url r) (rm_outbox_url r)
       (rm_followers_url r) (rm_ap_id r))
       \<lparr>ac_display_name := rm_display_name r, ac_summary := rm_summary r,
        ac_avatar_path := rm_avatar_url r\<rparr>) d)"

text \<open>\<^verbatim>\<open>ensure_instance_actor\<close>: the insert with \<^verbatim>\<open>ON CONFLICT (ap_id) DO NOTHING\<close>, then the
  existing row. \<open>Inr None\<close> stands for the panic of \<^verbatim>\<open>expect\<close>.\<close>

definition insert_instance_actor ::
  "string \<Rightarrow> string \<Rightarrow> string \<Rightarrow> string \<Rightarrow> string \<Rightarrow> string \<Rightarrow> string \<Rightarrow> actor option stmt" where
  "insert_instance_actor username public_key_pem private_key_pem ap_id inbox_url outbox_url followers_url =
   (\<lambda>t d.
     if list_ex (\<lambda>a. ac_ap_id a = ap_id) (actors d) then Inr (None, d)
     else case insert_actor (new_actor (next_id d) t username None Application public_key_pem
            (Some private_key_pem) inbox_url (Some inbox_url) outbox_url followers_url ap_id) d of
       Inl e \<Rightarrow> Inl e
     | Inr (a, d') \<Rightarrow> Inr (Some a, d'))"

definition actor_ensure_instance_actor ::
  "string \<Rightarrow> string \<Rightarrow> string \<Rightarrow> string \<Rightarrow> string \<Rightarrow> string \<Rightarrow> string \<Rightarrow>
     'z pool_scheme \<Rightarrow> (db_error + actor option) \<times> 'z pool_scheme" where
  "actor_ensure_instance_actor username public_key_pem private_key_pem ap_id inbox_url outbox_url followers_url p =
     try_then (exec (insert_instance_actor username public_key_pem private_key_pem ap_id inbox_url
         outbox_url followers_url) p)
       (\<lambda>inserted p. case inserted of
          Some a \<Rightarrow> (Inr (Some a), p)
        | None \<Rightarrow> exec (actor_fetch_by_ap_id ap_id) p)"

section \<open>Users (\<^verbatim>\<open>user.rs\<close>)\<close>

definition user_by :: "(user \<Rightarrow> bool) \<Rightarrow> user option stmt" where
  "user_by P = select (\<lambda>t d. fetch_optional (filter P (users d)))"

definition user_fetch_by_id :: "int \<Rightarrow> user option stmt" where
  "user_fetch_by_id i = user_by (\<lambda>u. us_id u = i)"

definition user_fetch_by_actor_id :: "int \<Rightarrow> user option stmt" where
  "user_fetch_by_actor_id i = user_by (\<lambda>u. us_actor_id u = i)"

definition user_fetch_by_email :: "string \<Rightarrow> user option stmt" where
  "user_fetch_by_email e =
     user_by (\<lambda>u. sql_eq (map_option to_ascii_lowercase (us_email u)) (Some (to_ascii_lowercase e)))"

definition insert_user :: "int \<Rightarrow> string option \<Rightarrow> string \<Rightarrow> user_status \<Rightarrow> bool \<Rightarrow> user stmt" where
  "insert_user actor_id email password_hash status is_admin = (\<lambda>t d.
     let u = \<lparr>us_id = next_id d, us_actor_id = actor_id, us_email = email, us_email_verified_at = None,
              us_password_hash = Some password_hash, us_totp_secret = None, us_totp_recovery_codes = None,
              us_is_admin = is_admin, us_status = status, us_deleted_at = None, us_created_at = t\<rparr>
     in if \<not> has_actor actor_id d then Inl foreign_key_violation
        else put_users u (users d @ [u]) (d\<lparr>next_id := next_id d + 1\<rparr>))"

definition user_create_with_status :: "int \<Rightarrow> string option \<Rightarrow> string \<Rightarrow> user_status \<Rightarrow> user stmt" where
  "user_create_with_status actor_id email password_hash status =
     insert_user actor_id email password_hash status False"

definition user_create :: "int \<Rightarrow> string option \<Rightarrow> string \<Rightarrow> user stmt" where
  "user_create actor_id email password_hash = user_create_with_status actor_id email password_hash Active"

definition user_create_admin :: "int \<Rightarrow> string option \<Rightarrow> string \<Rightarrow> user stmt" where
  "user_create_admin actor_id email password_hash = insert_user actor_id email password_hash Active True"

definition update_user :: "int \<Rightarrow> (timestamp \<Rightarrow> user \<Rightarrow> user) \<Rightarrow> user option stmt" where
  "update_user i f = (\<lambda>t d.
     put_users (fetch_optional (returning (\<lambda>u. us_id u = i) (f t) (users d)))
       (update_where (\<lambda>u. us_id u = i) (f t) (users d)) d)"

definition user_set_email_verified :: "int \<Rightarrow> user option stmt" where
  "user_set_email_verified i = update_user i (\<lambda>t u. u\<lparr>us_email_verified_at := Some t\<rparr>)"

definition user_set_password :: "int \<Rightarrow> string \<Rightarrow> user option stmt" where
  "user_set_password i h = update_user i (\<lambda>_ u. u\<lparr>us_password_hash := Some h\<rparr>)"

definition user_set_status :: "int \<Rightarrow> user_status \<Rightarrow> user option stmt" where
  "user_set_status i s = update_user i (\<lambda>_ u. u\<lparr>us_status := s\<rparr>)"

definition erase_row :: "timestamp \<Rightarrow> user \<Rightarrow> user" where
  "erase_row t u = u\<lparr>us_deleted_at := Some t, us_email := None, us_password_hash := None,
     us_totp_secret := None, us_totp_recovery_codes := None, us_is_admin := False\<rparr>"

definition user_mark_deleted_and_erase :: "int \<Rightarrow> user option stmt" where
  "user_mark_deleted_and_erase i = update_user i erase_row"

section \<open>Sessions (\<^verbatim>\<open>session.rs\<close>)\<close>

definition session_create ::
  "string \<Rightarrow> int \<Rightarrow> timestamp \<Rightarrow> string option \<Rightarrow> string option \<Rightarrow> string \<Rightarrow> session stmt" where
  "session_create i user_id expires_at ip ua csrf = (\<lambda>t d.
     let s = \<lparr>se_id = i, se_user_id = user_id, se_expires_at = expires_at, se_ip = ip, se_ua = ua,
              se_csrf_token = csrf\<rparr>
     in if list_ex (\<lambda>s. se_id s = i) (sessions d) then Inl unique_violation
        else if \<not> has_user user_id d then Inl foreign_key_violation
        else Inr (s, d\<lparr>sessions := sessions d @ [s]\<rparr>))"

definition session_fetch_by_id :: "string \<Rightarrow> session option stmt" where
  "session_fetch_by_id i = select (\<lambda>t d. fetch_optional (filter (\<lambda>s. se_id s = i) (sessions d)))"

definition session_delete_by_id :: "string \<Rightarrow> unit stmt" where
  "session_delete_by_id i = (\<lambda>t d. Inr ((), d\<lparr>sessions := delete_where (\<lambda>s. se_id s = i) (sessions d)\<rparr>))"

definition session_delete_for_user :: "int \<Rightarrow> unit stmt" where
  "session_delete_for_user u =
     (\<lambda>t d. Inr ((), d\<lparr>sessions := delete_where (\<lambda>s. se_user_id s = u) (sessions d)\<rparr>))"

section \<open>Email tokens (\<^verbatim>\<open>email_token.rs\<close>)\<close>

definition email_token_create :: "int \<Rightarrow> token_kind \<Rightarrow> string \<Rightarrow> timestamp \<Rightarrow> email_token stmt" where
  "email_token_create user_id kind token_hash expires_at = (\<lambda>t d.
     let e = \<lparr>et_id = next_id d, et_user_id = user_id, et_kind = kind, et_token_hash = token_hash,
              et_expires_at = expires_at, et_used_at = None, et_created_at = t\<rparr>
     in if list_ex (\<lambda>e. et_token_hash e = token_hash) (email_tokens d) then Inl unique_violation
        else if \<not> has_user user_id d then Inl foreign_key_violation
        else Inr (e, d\<lparr>email_tokens := email_tokens d @ [e], next_id := next_id d + 1\<rparr>))"

definition consumable :: "string \<Rightarrow> token_kind \<Rightarrow> timestamp \<Rightarrow> email_token \<Rightarrow> bool" where
  "consumable h k t e \<longleftrightarrow>
     et_token_hash e = h \<and> et_kind e = k \<and> et_used_at e = None \<and> et_expires_at e > t"

definition consume_stmt :: "string \<Rightarrow> token_kind \<Rightarrow> int option stmt" where
  "consume_stmt h k = (\<lambda>t d.
     let f = (\<lambda>e. e\<lparr>et_used_at := Some t\<rparr>) in
     Inr (map_option et_user_id (fetch_optional (returning (consumable h k t) f (email_tokens d))),
          d\<lparr>email_tokens := update_where (consumable h k t) f (email_tokens d)\<rparr>))"

definition email_token_consume ::
  "string \<Rightarrow> token_kind \<Rightarrow> 'z pool_scheme \<Rightarrow> (db_error + user option) \<times> 'z pool_scheme" where
  "email_token_consume token_hash kind p =
     try_then (exec (consume_stmt token_hash kind) p)
       (\<lambda>user_id p. case user_id of
          Some uid \<Rightarrow> exec (user_fetch_by_id uid) p
        | None \<Rightarrow> (Inr None, p))"

definition email_token_invalidate_for_user :: "int \<Rightarrow> token_kind \<Rightarrow> unit stmt" where
  "email_token_invalidate_for_user u k = (\<lambda>t d.
     Inr ((), d\<lparr>email_tokens := update_where
       (\<lambda>e. et_user_id e = u \<and> et_kind e = k \<and> et_used_at e = None)
       (\<lambda>e. e\<lparr>et_used_at := Some t\<rparr>) (email_tokens d)\<rparr>))"

definition email_token_delete_for_user :: "int \<Rightarrow> unit stmt" where
  "email_token_delete_for_user u =
     (\<lambda>t d. Inr ((), d\<lparr>email_tokens := delete_where (\<lambda>e. et_user_id e = u) (email_tokens d)\<rparr>))"

section \<open>Settings, audit log, instances, tombstones\<close>

definition setting_fetch_by_key :: "string \<Rightarrow> setting option stmt" where
  "setting_fetch_by_key k = select (\<lambda>t d. fetch_optional (filter (\<lambda>s. st_key s = k) (settings d)))"

definition setting_set :: "string \<Rightarrow> json \<Rightarrow> setting stmt" where
  "setting_set k v = (\<lambda>t d.
     let s = \<lparr>st_key = k, st_value = v, st_updated_at = t\<rparr> in
     if list_ex (\<lambda>s. st_key s = k) (settings d)
     then Inr (s, d\<lparr>settings := update_where (\<lambda>s. st_key s = k)
            (\<lambda>s. s\<lparr>st_value := v, st_updated_at := t\<rparr>) (settings d)\<rparr>)
     else Inr (s, d\<lparr>settings := settings d @ [s]\<rparr>))"

definition audit_log_stmt :: "int \<Rightarrow> string \<Rightarrow> string \<Rightarrow> int option \<Rightarrow> json \<Rightarrow> unit stmt" where
  "audit_log_stmt admin_actor_id action target_type target_id payload = (\<lambda>t d.
     if \<not> has_actor admin_actor_id d then Inl foreign_key_violation
     else Inr ((), d\<lparr>audit_log := audit_log d @
       [\<lparr>au_id = next_id d, au_admin_actor_id = Some admin_actor_id, au_action = action,
         au_target_type = target_type, au_target_id = target_id, au_payload = payload,
         au_created_at = t\<rparr>], next_id := next_id d + 1\<rparr>))"

definition instance_upsert_success ::
  "string \<Rightarrow> string option \<Rightarrow> string option \<Rightarrow> string \<Rightarrow> inst option stmt" where
  "instance_upsert_success domain software version inbox_url = (\<lambda>t d.
     let f = (\<lambda>i. i\<lparr>in_software := software, in_version := version, in_inbox_url := inbox_url,
                in_failure_count := 0, in_last_success_at := Some t\<rparr>);
         i = \<lparr>in_domain = domain, in_software = software, in_version = version,
              in_inbox_url = inbox_url, in_disabled_at = None, in_failure_count = 0,
              in_last_success_at = Some t\<rparr>;
         P = (\<lambda>i. in_domain i = domain) in
     if list_ex P (instances d)
     then Inr (fetch_optional (returning P f (instances d)), d\<lparr>instances := update_where P f (instances d)\<rparr>)
     else Inr (Some i, d\<lparr>instances := instances d @ [i]\<rparr>))"

definition instance_record_failure :: "string \<Rightarrow> string \<Rightarrow> inst option stmt" where
  "instance_record_failure domain inbox_url = (\<lambda>t d.
     let f = (\<lambda>i. i\<lparr>in_failure_count := in_failure_count i + 1\<rparr>);
         i = \<lparr>in_domain = domain, in_software = None, in_version = None, in_inbox_url = inbox_url,
              in_disabled_at = None, in_failure_count = 1, in_last_success_at = None\<rparr>;
         P = (\<lambda>i. in_domain i = domain) in
     if list_ex P (instances d)
     then Inr (fetch_optional (returning P f (instances d)), d\<lparr>instances := update_where P f (instances d)\<rparr>)
     else Inr (Some i, d\<lparr>instances := instances d @ [i]\<rparr>))"

definition tombstone_upsert :: "string \<Rightarrow> string \<Rightarrow> unit stmt" where
  "tombstone_upsert ap_id ty = (\<lambda>t d.
     Inr ((), d\<lparr>tombstones :=
       (if list_ex (\<lambda>x. tb_ap_id x = ap_id) (tombstones d)
        then update_where (\<lambda>x. tb_ap_id x = ap_id) (\<lambda>x. x\<lparr>tb_type := ty\<rparr>) (tombstones d)
        else tombstones d @ [\<lparr>tb_ap_id = ap_id, tb_type = ty, tb_deleted_at = t\<rparr>])\<rparr>))"

definition tombstone_exists :: "string \<Rightarrow> bool stmt" where
  "tombstone_exists ap_id = select (\<lambda>t d. list_ex (\<lambda>x. tb_ap_id x = ap_id) (tombstones d))"

end
