(* ===== verification/Db_Federation.thy ===== *)
theory Db_Federation
  imports Db_Actors
begin

text \<open>
  The federation tables: the statements of \<^verbatim>\<open>follow.rs\<close> and \<^verbatim>\<open>activity.rs\<close> of
  \<^verbatim>\<open>crates/db/src\<close>. The activity log is the idempotency gate of the inbox: a row is inserted
  at most once per activity id. A follow relation is a small state machine keyed by the pair
  of actors.
\<close>

section \<open>Follows (\<^verbatim>\<open>follow.rs\<close>)\<close>

definition follow_pair :: "int \<Rightarrow> int \<Rightarrow> follow \<Rightarrow> bool" where
  "follow_pair a b f \<longleftrightarrow> fo_follower_actor_id f = a \<and> fo_target_actor_id f = b"

definition live_actor :: "actor \<Rightarrow> bool" where
  "live_actor a \<longleftrightarrow> ac_deleted_at a = None \<and> ac_suspended_at a = None"

definition follow_following_ids :: "int \<Rightarrow> int list stmt" where
  "follow_following_ids a = select (\<lambda>t d. map fo_target_actor_id
     (filter (\<lambda>f. fo_follower_actor_id f = a \<and> fo_state f = Accepted) (follows d)))"

text \<open>\<^verbatim>\<open>follows f JOIN actors a\<close> on one side of the relation.\<close>

definition follow_join :: "(follow \<Rightarrow> int) \<Rightarrow> db \<Rightarrow> (follow \<times> actor) list" where
  "follow_join side d =
     concat (map (\<lambda>f. map (\<lambda>a. (f, a)) (filter (\<lambda>a. ac_id a = side f) (actors d))) (follows d))"

definition follow_following_rows :: "int \<Rightarrow> (int \<times> string \<times> string option) list stmt" where
  "follow_following_rows i = select (\<lambda>t d.
     map (\<lambda>(f, a). (ac_id a, ac_username a, ac_domain a))
       (filter (\<lambda>(f, a). fo_follower_actor_id f = i \<and> fo_state f = Accepted \<and> live_actor a)
         (follow_join fo_target_actor_id d)))"

definition newest_follow_first :: "(follow \<times> actor) list \<Rightarrow> (follow \<times> actor) list" where
  "newest_follow_first = sort_key (\<lambda>(f, a). (- fo_created_at f, - ac_id a))"

definition follow_follower_rows :: "int \<Rightarrow> int \<Rightarrow> (int \<times> string) list stmt" where
  "follow_follower_rows i limit = (\<lambda>t d.
     case limit_rows limit (newest_follow_first (filter (\<lambda>(f, a). fo_target_actor_id f = i \<and>
         fo_state f = Accepted \<and> live_actor a \<and> ac_domain a = None) (follow_join fo_follower_actor_id d))) of
       Inl e \<Rightarrow> Inl e
     | Inr rs \<Rightarrow> Inr (map (\<lambda>(f, a). (ac_id a, ac_username a)) rs, d))"

definition follow_following_list :: "int \<Rightarrow> int \<Rightarrow> (int \<times> string) list stmt" where
  "follow_following_list i limit = (\<lambda>t d.
     case limit_rows limit (newest_follow_first (filter (\<lambda>(f, a). fo_follower_actor_id f = i \<and>
         fo_state f = Accepted \<and> live_actor a \<and> ac_domain a = None) (follow_join fo_target_actor_id d))) of
       Inl e \<Rightarrow> Inl e
     | Inr rs \<Rightarrow> Inr (map (\<lambda>(f, a). (ac_id a, ac_username a)) rs, d))"

definition follow_fetch_by_pair :: "int \<Rightarrow> int \<Rightarrow> follow option stmt" where
  "follow_fetch_by_pair a b = select (\<lambda>t d. fetch_optional (filter (follow_pair a b) (follows d)))"

definition new_follow :: "int \<Rightarrow> int \<Rightarrow> string option \<Rightarrow> follow_state \<Rightarrow> timestamp \<Rightarrow> follow" where
  "new_follow a b ap_activity_id state t =
     \<lparr>fo_follower_actor_id = a, fo_target_actor_id = b, fo_ap_activity_id = ap_activity_id,
      fo_state = state, fo_created_at = t, fo_updated_at = t\<rparr>"

definition insert_follow :: "follow \<Rightarrow> db \<Rightarrow> sql_error + (follow \<times> db)" where
  "insert_follow f d =
     (if \<not> has_actor (fo_follower_actor_id f) d \<or> \<not> has_actor (fo_target_actor_id f) d
      then Inl foreign_key_violation
      else Inr (f, d\<lparr>follows := follows d @ [f]\<rparr>))"

definition follow_create :: "int \<Rightarrow> int \<Rightarrow> string option \<Rightarrow> follow_state \<Rightarrow> follow stmt" where
  "follow_create a b ap_activity_id state = (\<lambda>t d.
     if list_ex (follow_pair a b) (follows d) then Inl unique_violation
     else insert_follow (new_follow a b ap_activity_id state t) d)"

text \<open>\<^verbatim>\<open>UPDATE follows ... WHERE\<close> the pair, with the trigger on \<^verbatim>\<open>updated_at\<close>.\<close>

definition update_follow :: "int \<Rightarrow> int \<Rightarrow> (follow \<Rightarrow> follow) \<Rightarrow> follow option stmt" where
  "update_follow a b f = (\<lambda>t d.
     let g = (\<lambda>x. (f x)\<lparr>fo_updated_at := t\<rparr>) in
     Inr (fetch_optional (returning (follow_pair a b) g (follows d)),
          d\<lparr>follows := update_where (follow_pair a b) g (follows d)\<rparr>))"

definition follow_upsert :: "int \<Rightarrow> int \<Rightarrow> string option \<Rightarrow> follow_state \<Rightarrow> follow stmt" where
  "follow_upsert a b ap_activity_id state = (\<lambda>t d.
     if list_ex (follow_pair a b) (follows d)
     then fetch_one (update_follow a b (\<lambda>x. x\<lparr>
            fo_ap_activity_id := coalesce ap_activity_id (fo_ap_activity_id x), fo_state := state\<rparr>)) t d
     else insert_follow (new_follow a b ap_activity_id state t) d)"

definition follow_set_state :: "int \<Rightarrow> int \<Rightarrow> follow_state \<Rightarrow> follow option stmt" where
  "follow_set_state a b state = update_follow a b (\<lambda>x. x\<lparr>fo_state := state\<rparr>)"

definition follow_fetch_by_activity_id :: "string \<Rightarrow> follow option stmt" where
  "follow_fetch_by_activity_id i = select (\<lambda>t d.
     fetch_optional (filter (\<lambda>f. sql_eq (fo_ap_activity_id f) (Some i)) (follows d)))"

definition follow_delete :: "int \<Rightarrow> int \<Rightarrow> bool stmt" where
  "follow_delete a b = (\<lambda>t d.
     Inr (list_ex (follow_pair a b) (follows d), d\<lparr>follows := delete_where (follow_pair a b) (follows d)\<rparr>))"

definition follow_follower_actor_ids :: "int \<Rightarrow> int list stmt" where
  "follow_follower_actor_ids b = select (\<lambda>t d. map fo_follower_actor_id
     (filter (\<lambda>f. fo_target_actor_id f = b \<and> fo_state f = Accepted) (follows d)))"

definition follow_following_actor_ids :: "int \<Rightarrow> int list stmt" where
  "follow_following_actor_ids a =
     select (\<lambda>t d. map fo_target_actor_id (filter (\<lambda>f. fo_follower_actor_id f = a) (follows d)))"

definition follow_remote_follower_actors :: "int \<Rightarrow> actor list stmt" where
  "follow_remote_follower_actors b = select (\<lambda>t d. sort_key ac_id
     (map snd (filter (\<lambda>(f, a). fo_target_actor_id f = b \<and> fo_state f = Accepted \<and> ac_domain a \<noteq> None)
       (follow_join fo_follower_actor_id d))))"

section \<open>The activity log (\<^verbatim>\<open>activity.rs\<close>)\<close>

definition known_activity :: "string \<Rightarrow> db \<Rightarrow> bool" where
  "known_activity i d = list_ex (\<lambda>a. av_activity_id a = i) (activities d)"

definition append_activity ::
  "string \<Rightarrow> direction \<Rightarrow> string \<Rightarrow> string option \<Rightarrow> json \<Rightarrow> timestamp \<Rightarrow> db \<Rightarrow> activity \<times> db" where
  "append_activity activity_id direction actor_ap_id object_ap_id raw t d =
     (let a = \<lparr>av_id = next_id d, av_activity_id = activity_id, av_direction = direction,
               av_actor_ap_id = actor_ap_id, av_object_ap_id = object_ap_id, av_raw = raw,
               av_received_at = t, av_processed_at = None\<rparr>
      in (a, d\<lparr>activities := activities d @ [a], next_id := next_id d + 1\<rparr>))"

definition activity_fetch_by_id :: "int \<Rightarrow> activity option stmt" where
  "activity_fetch_by_id i = select (\<lambda>t d. fetch_optional (filter (\<lambda>a. av_id a = i) (activities d)))"

definition activity_create_inbound :: "string \<Rightarrow> string \<Rightarrow> string option \<Rightarrow> json \<Rightarrow> activity stmt" where
  "activity_create_inbound activity_id actor_ap_id object_ap_id raw = (\<lambda>t d.
     if known_activity activity_id d then Inl unique_violation
     else Inr (append_activity activity_id Inbound actor_ap_id object_ap_id raw t d))"

definition activity_try_create_inbound :: "string \<Rightarrow> string \<Rightarrow> string option \<Rightarrow> json \<Rightarrow> activity option stmt" where
  "activity_try_create_inbound activity_id actor_ap_id object_ap_id raw = (\<lambda>t d.
     if known_activity activity_id d then Inr (None, d)
     else case append_activity activity_id Inbound actor_ap_id object_ap_id raw t d of
       (a, d') \<Rightarrow> Inr (Some a, d'))"

text \<open>\<^verbatim>\<open>create_outbound\<close> asks for one row of an insert that may insert none: a known id is
  \<^verbatim>\<open>RowNotFound\<close>.\<close>

definition activity_create_outbound :: "string \<Rightarrow> string \<Rightarrow> string option \<Rightarrow> json \<Rightarrow> activity stmt" where
  "activity_create_outbound activity_id actor_ap_id object_ap_id raw = (\<lambda>t d.
     if known_activity activity_id d then Inl RowNotFound
     else Inr (append_activity activity_id Outbound actor_ap_id object_ap_id raw t d))"

definition activity_stamp_processed :: "string \<Rightarrow> activity option stmt" where
  "activity_stamp_processed i = (\<lambda>t d.
     let P = (\<lambda>a. av_activity_id a = i \<and> av_processed_at a = None);
         f = (\<lambda>a. a\<lparr>av_processed_at := Some t\<rparr>)
     in Inr (fetch_optional (returning P f (activities d)),
             d\<lparr>activities := update_where P f (activities d)\<rparr>))"

section \<open>Facts on follows\<close>

definition follows_ok :: "db \<Rightarrow> bool" where
  "follows_ok d \<longleftrightarrow> unique_on follow_key (follows d)"

text \<open>The state of the relation between two actors, if there is one.\<close>

definition relation :: "db \<Rightarrow> int \<Rightarrow> int \<Rightarrow> follow_state option" where
  "relation d a b = map_option fo_state (fetch_optional (filter (follow_pair a b) (follows d)))"

interpretation follows_tab: keyed_table follows follows_update "\<lambda>f. (fo_follower_actor_id f, fo_target_actor_id f)"
  by unfold_locales simp

lemma follow_pair_key: "follow_pair a b = (\<lambda>f. (fo_follower_actor_id f, fo_target_actor_id f) = (a, b))"
  by (auto simp: fun_eq_iff follow_pair_def)

lemma follow_key_pair: "follow_key f = Some (a, b) \<longleftrightarrow> follow_pair a b f"
  by (auto simp: follow_key_def follow_pair_def)

lemma no_follow_filter: "\<not> list_ex (follow_pair a b) rs \<longleftrightarrow> filter (follow_pair a b) rs = []"
  by (auto simp: list_ex_iff filter_empty_conv)

lemma follows_ok_insert:
  assumes "follows_ok d" and "\<not> list_ex (follow_pair (fo_follower_actor_id f) (fo_target_actor_id f)) (follows d)"
  shows "follows_ok (d\<lparr>follows := follows d @ [f]\<rparr>)"
  using assms by (auto simp: follows_ok_def unique_on_snoc follow_key_def list_ex_iff follow_pair_def)

lemma follows_ok_upsert: "keeps follows_ok (follow_upsert a b i s)"
proof (rule keepsI)
  fix t d r d'
  assume ok: "follows_ok d" and u: "follow_upsert a b i s t d = Inr (r, d')"
  show "follows_ok d'"
  proof (cases "list_ex (follow_pair a b) (follows d)")
    case True
    with u ok show ?thesis
      by (auto simp: follow_upsert_def fetch_one_def update_follow_def follows_ok_def follow_key_def
          unique_on_update_where Let_def split: option.splits)
  next
    case False
    with u ok show ?thesis
      using follows_ok_insert [of d "new_follow a b i s t"]
      by (auto simp: follow_upsert_def insert_follow_def new_follow_def split: if_splits)
  qed
qed

lemma follows_ok_set_state: "keeps follows_ok (follow_set_state a b s)"
  by (rule keepsI) (auto simp: follow_set_state_def update_follow_def follows_ok_def follow_key_def
      unique_on_update_where Let_def)

lemma follows_ok_delete: "keeps follows_ok (follow_delete a b)"
  by (rule keepsI) (auto simp: follow_delete_def follows_ok_def unique_on_delete_where)

lemma follows_ok_create: "keeps follows_ok (follow_create a b i s)"
  by (rule keepsI) (auto simp: follow_create_def insert_follow_def new_follow_def
      intro: follows_ok_insert split: if_splits)

lemmas follows_ok_stmts = follows_ok_upsert follows_ok_set_state follows_ok_delete follows_ok_create

text \<open>After an upsert the relation is in the given state; other relations are as before.\<close>

lemma relation_upsert:
  assumes "follow_upsert a b i s t d = Inr (r, d')"
  shows "relation d' a b = Some s" and "(x, y) \<noteq> (a, b) \<Longrightarrow> relation d' x y = relation d x y"
proof -
  consider (upd) f rs g where "filter (follow_pair a b) (follows d) = f # rs"
      "g = (\<lambda>x. x\<lparr>fo_ap_activity_id := coalesce i (fo_ap_activity_id x), fo_state := s, fo_updated_at := t\<rparr>)"
      "d' = d\<lparr>follows := update_where (follow_pair a b) g (follows d)\<rparr>"
    | (ins) "filter (follow_pair a b) (follows d) = []" "d' = d\<lparr>follows := follows d @ [new_follow a b i s t]\<rparr>"
    using assms
    by (cases "filter (follow_pair a b) (follows d)")
       (auto simp: follow_upsert_def no_follow_filter [of a b] insert_follow_def fetch_one_def
         update_follow_def returning_def Let_def list_ex_iff filter_empty_conv
         split: if_splits option.splits)
  note cases = this
  have key: "follow_pair a b (x\<lparr>fo_ap_activity_id := i', fo_state := s', fo_updated_at := t'\<rparr>) = follow_pair a b x"
    for x :: follow and i' s' t'
    by (simp add: follow_pair_def)
  show "relation d' a b = Some s"
    using cases
  proof cases
    case upd
    have "filter (follow_pair a b) (follows d') = map g (filter (follow_pair a b) (follows d))"
      using follows_tab.lookup_after_update [of "(a, b)" g d] upd(2,3)
      by (simp add: follow_pair_key)
    with upd show ?thesis by (simp add: relation_def)
  next
    case ins
    then show ?thesis by (simp add: relation_def new_follow_def follow_pair_def)
  qed
  assume ne: "(x, y) \<noteq> (a, b)"
  show "relation d' x y = relation d x y"
    using cases
  proof cases
    case upd
    then show ?thesis
      using follows_tab.update_keeps_others [of "(a, b)" g "(x, y)" d] ne
      by (simp add: relation_def follow_pair_key)
  next
    case ins
    then show ?thesis
      using follows_tab.insert_keeps_others [of "new_follow a b i s t" "(x, y)" d] ne
      by (auto simp: relation_def follow_pair_key new_follow_def)
  qed
qed

lemma relation_set_state:
  assumes "follow_set_state a b s t d = Inr (r, d')"
  shows "relation d' x y = (if (x, y) = (a, b) then map_option (\<lambda>_. s) (relation d a b) else relation d x y)"
proof (cases "(x, y) = (a, b)")
  case True
  have "filter (follow_pair a b) (follows d') =
      map (\<lambda>x. x\<lparr>fo_state := s, fo_updated_at := t\<rparr>) (filter (follow_pair a b) (follows d))"
    using follows_tab.lookup_after_update [of "(a, b)" "\<lambda>x. x\<lparr>fo_state := s, fo_updated_at := t\<rparr>" d] assms
    by (auto simp: follow_set_state_def update_follow_def Let_def follow_pair_key)
  with True show ?thesis
    by (cases "filter (follow_pair a b) (follows d)") (auto simp: relation_def)
next
  case False
  then show ?thesis
    using follows_tab.update_keeps_others [of "(a, b)" "\<lambda>x. x\<lparr>fo_state := s, fo_updated_at := t\<rparr>" "(x, y)" d] assms
    by (auto simp: follow_set_state_def update_follow_def Let_def relation_def follow_pair_key)
qed

lemma relation_delete:
  assumes "follow_delete a b t d = Inr (r, d')"
  shows "relation d' x y = (if (x, y) = (a, b) then None else relation d x y)"
proof -
  have d': "follows d' = delete_where (follow_pair a b) (follows d)"
    using assms by (auto simp: follow_delete_def)
  show ?thesis
  proof (cases "(x, y) = (a, b)")
    case True
    then show ?thesis
      using follows_tab.lookup_after_delete [of "(a, b)" d] d' by (simp add: relation_def follow_pair_key)
  next
    case False
    then have "filter (follow_pair x y) (follows d') = filter (follow_pair x y) (follows d)"
      unfolding d' delete_where_def by (auto simp: filter_filter follow_pair_def intro: filter_cong)
    with False show ?thesis by (auto simp: relation_def)
  qed
qed

section \<open>Facts on the activity log\<close>

lemma known_after_append: "snd (append_activity i dir a ob raw t d) = d' \<Longrightarrow> known_activity i d'"
  by (auto simp: append_activity_def known_activity_def Let_def)

lemma try_create_inbound_known:
  "known_activity i d \<Longrightarrow> activity_try_create_inbound i a ob raw t d = Inr (None, d)"
  by (simp add: activity_try_create_inbound_def)

lemma try_create_inbound_new:
  assumes "\<not> known_activity i d"
  obtains r d' where "activity_try_create_inbound i a ob raw t d = Inr (Some r, d')"
    and "known_activity i d'" and "d' = d\<lparr>activities := activities d @ [r], next_id := next_id d + 1\<rparr>"
  using assms by (auto simp: activity_try_create_inbound_def append_activity_def known_activity_def Let_def)

lemma known_activity_stamp: "activity_stamp_processed i t d = Inr (r, d') \<Longrightarrow> known_activity j d' = known_activity j d"
  by (auto simp: activity_stamp_processed_def known_activity_def Let_def list_ex_update_where)

end
