(* ===== verification/Job_Queue.thy ===== *)
theory Job_Queue
  imports Db_Schema
begin

text \<open>
  The durable job queue: the statements of \<^verbatim>\<open>crates/db/src/job.rs\<close> and the job statements
  that \<^verbatim>\<open>crates/server/src/worker.rs\<close> issues itself (reaper, failure bump, delivery retry,
  hand-back). Workers claim, finish, fail and retry jobs concurrently; each statement is
  atomic, so the concurrent executions are the interleavings of statements. They are the
  step relation \<open>queue_step\<close> on the queue together with the job snapshots the workers hold.
\<close>

section \<open>Statements of \<^verbatim>\<open>job.rs\<close>\<close>

definition job_fetch_by_id :: "int \<Rightarrow> job option stmt" where
  "job_fetch_by_id i = select (\<lambda>t d. fetch_optional (filter (\<lambda>j. jb_id j = i) (jobs d)))"

definition job_create :: "string \<Rightarrow> json \<Rightarrow> timestamp option \<Rightarrow> job stmt" where
  "job_create kind payload run_after = (\<lambda>t d.
     let j = \<lparr>jb_id = next_id d, jb_kind = kind, jb_payload = payload,
              jb_run_after = unwrap_or t run_after, jb_attempts = 0, jb_max_attempts = 5,
              jb_last_error = None, jb_state = Queued, jb_locked_by = None,
              jb_locked_at = None, jb_created_at = t\<rparr>
     in Inr (j, d\<lparr>jobs := jobs d @ [j], next_id := next_id d + 1\<rparr>))"

text \<open>\<^verbatim>\<open>UPDATE jobs SET ... WHERE ... RETURNING *\<close>\<close>

definition update_jobs :: "(timestamp \<Rightarrow> job \<Rightarrow> bool) \<Rightarrow> (timestamp \<Rightarrow> job \<Rightarrow> job) \<Rightarrow> job list stmt" where
  "update_jobs P f = (\<lambda>t d. Inr (returning (P t) (f t) (jobs d), d\<lparr>jobs := update_where (P t) (f t) (jobs d)\<rparr>))"

definition update_job :: "(timestamp \<Rightarrow> job \<Rightarrow> bool) \<Rightarrow> (timestamp \<Rightarrow> job \<Rightarrow> job) \<Rightarrow> job option stmt" where
  "update_job P f = (\<lambda>t d. Inr (fetch_optional (returning (P t) (f t) (jobs d)),
     d\<lparr>jobs := update_where (P t) (f t) (jobs d)\<rparr>))"

text \<open>
  The sub-select of \<^verbatim>\<open>CLAIM_NEXT_DUE_SQL\<close>: the due queued job with the least
  \<^verbatim>\<open>run_after\<close>, leaving out the rows another transaction has locked (\<open>skip\<close>).
\<close>

definition next_due :: "(int \<Rightarrow> bool) \<Rightarrow> timestamp \<Rightarrow> db \<Rightarrow> int option" where
  "next_due skip t d = map_option jb_id (fetch_optional (sort_key jb_run_after
     (filter (\<lambda>j. jb_state j = Queued \<and> jb_run_after j \<le> t \<and> \<not> skip (jb_id j)) (jobs d))))"

definition claim_row :: "string \<Rightarrow> timestamp \<Rightarrow> job \<Rightarrow> job" where
  "claim_row worker t j = j\<lparr>jb_state := Running, jb_locked_by := Some worker, jb_locked_at := Some t\<rparr>"

definition done_row :: "string option \<Rightarrow> job \<Rightarrow> job" where
  "done_row last_error j =
     j\<lparr>jb_state := Done, jb_last_error := last_error, jb_locked_by := None, jb_locked_at := None\<rparr>"

definition dead_row :: "string \<Rightarrow> job \<Rightarrow> job" where
  "dead_row error j =
     j\<lparr>jb_state := Dead, jb_last_error := Some error, jb_locked_by := None, jb_locked_at := None\<rparr>"

definition job_claim_next_due :: "(int \<Rightarrow> bool) \<Rightarrow> string \<Rightarrow> job option stmt" where
  "job_claim_next_due skip worker = (\<lambda>t d.
     update_job (\<lambda>_ j. next_due skip t d = Some (jb_id j)) (claim_row worker) t d)"

definition job_mark_done :: "int \<Rightarrow> string option \<Rightarrow> job option stmt" where
  "job_mark_done i last_error = update_job (\<lambda>_ j. jb_id j = i) (\<lambda>_. done_row last_error)"

definition job_dead_letter :: "int \<Rightarrow> string \<Rightarrow> job option stmt" where
  "job_dead_letter i error = update_job (\<lambda>_ j. jb_id j = i) (\<lambda>_. dead_row error)"

section \<open>Job statements of the worker\<close>

definition attempts_exhausted :: "job \<Rightarrow> bool" where
  "attempts_exhausted j = (jb_attempts j + 1 \<ge> jb_max_attempts j)"

text \<open>The sweep of \<^verbatim>\<open>reap_stale_jobs\<close>.\<close>

definition reap_job :: "job \<Rightarrow> job" where
  "reap_job j = j\<lparr>
     jb_state := (if attempts_exhausted j then Dead else Queued),
     jb_last_error := (if attempts_exhausted j then Some ''reaper: max attempts'' else jb_last_error j),
     jb_attempts := jb_attempts j + 1, jb_locked_by := None, jb_locked_at := None\<rparr>"

definition reap_stmt :: "int \<Rightarrow> job list stmt" where
  "reap_stmt job_timeout_secs =
     update_jobs (\<lambda>t j. jb_state j = Running \<and> sql_lt (jb_locked_at j) (t - seconds job_timeout_secs))
       (\<lambda>_. reap_job)"

text \<open>The guarded update of \<^verbatim>\<open>bump_job_after_failure\<close>; its value is \<^verbatim>\<open>rows_affected() == 1\<close>.\<close>

definition bump_job :: "string \<Rightarrow> job \<Rightarrow> job" where
  "bump_job reason j = j\<lparr>
     jb_attempts := jb_attempts j + 1,
     jb_state := (if attempts_exhausted j then Dead else Queued),
     jb_last_error := (if attempts_exhausted j then Some reason else jb_last_error j),
     jb_locked_by := None, jb_locked_at := None\<rparr>"

definition holds_lock :: "job \<Rightarrow> job \<Rightarrow> bool" where
  "holds_lock snapshot j \<longleftrightarrow>
     jb_id j = jb_id snapshot \<and> sql_eq (jb_locked_by j) (jb_locked_by snapshot) \<and> jb_state j = Running"

definition bump_stmt :: "job \<Rightarrow> string \<Rightarrow> bool stmt" where
  "bump_stmt job reason = (\<lambda>t d.
     case update_jobs (\<lambda>_. holds_lock job) (\<lambda>_. bump_job reason) t d of
       Inl e \<Rightarrow> Inl e
     | Inr (rs, d') \<Rightarrow> Inr (length rs = 1, d'))"

text \<open>The update of \<^verbatim>\<open>schedule_deliver_retry\<close>.\<close>

definition retry_row :: "int \<Rightarrow> string \<Rightarrow> timestamp \<Rightarrow> job \<Rightarrow> job" where
  "retry_row backoff_secs reason t j =
     j\<lparr>jb_state := Queued, jb_attempts := jb_attempts j + 1, jb_last_error := Some reason,
       jb_run_after := t + seconds backoff_secs, jb_locked_by := None, jb_locked_at := None\<rparr>"

definition retry_stmt :: "int \<Rightarrow> int \<Rightarrow> string \<Rightarrow> job option stmt" where
  "retry_stmt i backoff_secs reason =
     update_job (\<lambda>_ j. jb_id j = i) (retry_row backoff_secs reason)"

text \<open>The delivery worker hands a job that is not a delivery back.\<close>

definition hand_back_row :: "job \<Rightarrow> job" where
  "hand_back_row j = j\<lparr>jb_state := Queued, jb_locked_by := None, jb_locked_at := None\<rparr>"

definition hand_back_stmt :: "int \<Rightarrow> job option stmt" where
  "hand_back_stmt i = update_job (\<lambda>_ j. jb_id j = i) (\<lambda>_. hand_back_row)"

definition deliver_backoff :: "int \<Rightarrow> int" where
  "deliver_backoff attempts = (if attempts = 0 then 30 else if attempts = 1 then 120 else 900)"

text \<open>\<^verbatim>\<open>schedule_deliver_retry\<close>: one statement, chosen by the attempts of the snapshot.\<close>

definition retry_or_bury :: "job \<Rightarrow> string \<Rightarrow> job option stmt" where
  "retry_or_bury job reason =
     (if attempts_exhausted job then job_dead_letter (jb_id job) reason
      else retry_stmt (jb_id job) (deliver_backoff (jb_attempts job)) reason)"

section \<open>Concurrent executions\<close>

text \<open>
  The queue and the snapshots (\<^verbatim>\<open>Job\<close> values returned by a claim) that the workers hold in
  memory. A worker that was overtaken by the reaper still holds its snapshot.
\<close>

record queue_sys =
  qdb :: db
  held :: "job list"

text \<open>How a worker ends the work on a snapshot.\<close>

datatype finish =
    Fin_Done "string option"
  | Fin_Dead string
  | Fin_Bump string
  | Fin_Retry string
  | Fin_Hand_Back

definition applied :: "sql_error + ('a \<times> db) \<Rightarrow> db option" where
  "applied r = (case r of Inl _ \<Rightarrow> None | Inr (_, d) \<Rightarrow> Some d)"

definition finish_stmt :: "finish \<Rightarrow> job \<Rightarrow> timestamp \<Rightarrow> db \<Rightarrow> db option" where
  "finish_stmt f j t d =
     (case f of
        Fin_Done e \<Rightarrow> applied (job_mark_done (jb_id j) e t d)
      | Fin_Dead e \<Rightarrow> applied (job_dead_letter (jb_id j) e t d)
      | Fin_Bump r \<Rightarrow> applied (bump_stmt j r t d)
      | Fin_Retry r \<Rightarrow> applied (retry_or_bury j r t d)
      | Fin_Hand_Back \<Rightarrow> applied (hand_back_stmt (jb_id j) t d))"

inductive queue_step :: "queue_sys \<Rightarrow> queue_sys \<Rightarrow> bool" where
  enqueue: "job_create k v ra t (qdb s) = Inr (j, d) \<Longrightarrow> queue_step s (s\<lparr>qdb := d\<rparr>)"
| claim: "job_claim_next_due skip w t (qdb s) = Inr (Some j, d) \<Longrightarrow>
     queue_step s (s\<lparr>qdb := d, held := j # held s\<rparr>)"
| finish: "j \<in> set (held s) \<Longrightarrow> finish_stmt f j t (qdb s) = Some d \<Longrightarrow>
     queue_step s (s\<lparr>qdb := d, held := remove1 j (held s)\<rparr>)"
| lose: "j \<in> set (held s) \<Longrightarrow> queue_step s (s\<lparr>held := remove1 j (held s)\<rparr>)"
| reap: "reap_stmt n t (qdb s) = Inr (js, d) \<Longrightarrow> queue_step s (s\<lparr>qdb := d\<rparr>)"

inductive queue_reachable :: "queue_sys \<Rightarrow> bool" where
  start: "queue_reachable \<lparr>qdb = empty_db, held = []\<rparr>"
| step: "queue_reachable s \<Longrightarrow> queue_step s s' \<Longrightarrow> queue_reachable s'"

inductive_cases queue_stepE: "queue_step s s'"

text \<open>
  Runs in which no live worker outlives its lock: whenever a step is taken, every snapshot
  still held is the row it was taken from.
\<close>

inductive fresh_reachable :: "queue_sys \<Rightarrow> bool" where
  fresh_start: "fresh_reachable \<lparr>qdb = empty_db, held = []\<rparr>"
| fresh_step: "fresh_reachable s \<Longrightarrow> set (held s) \<subseteq> set (jobs (qdb s)) \<Longrightarrow> queue_step s s' \<Longrightarrow>
     fresh_reachable s'"

section \<open>Well-formed queues\<close>

definition job_ok :: "job \<Rightarrow> bool" where
  "job_ok j \<longleftrightarrow> (jb_state j = Running \<longleftrightarrow> jb_locked_by j \<noteq> None) \<and>
     (jb_locked_by j = None \<longleftrightarrow> jb_locked_at j = None) \<and> 0 \<le> jb_attempts j"

definition jobs_ok :: "db \<Rightarrow> bool" where
  "jobs_ok d \<longleftrightarrow> (\<forall>j \<in> set (jobs d). job_ok j \<and> jb_id j < next_id d) \<and> distinct (map jb_id (jobs d))"

definition attempts_ok :: "job \<Rightarrow> bool" where
  "attempts_ok j \<longleftrightarrow> 0 \<le> jb_attempts j \<and> jb_attempts j \<le> jb_max_attempts j \<and>
     (jb_state j = Queued \<or> jb_state j = Running \<longrightarrow> jb_attempts j < jb_max_attempts j)"

lemmas job_row_defs = claim_row_def done_row_def dead_row_def retry_row_def hand_back_row_def
  reap_job_def bump_job_def

interpretation jobs_tab: keyed_table jobs jobs_update jb_id
  by unfold_locales simp

text \<open>
  What the statements on a job share: the row keeps its identity, and a consistent row
  stays consistent. Each job statement of the code is an instance.
\<close>

locale job_transition =
  fixes f :: "timestamp \<Rightarrow> job \<Rightarrow> job"
  assumes same_id: "jb_id (f t j) = jb_id j"
    and row_ok: "job_ok j \<Longrightarrow> job_ok (f t j)"
begin

lemma ids_kept: "map jb_id (update_where P (f t) rs) = map jb_id rs"
  by (rule map_update_where) (simp add: same_id)

lemma jobs_ok_update: "jobs_ok d \<Longrightarrow> jobs_ok (d\<lparr>jobs := update_where P (f t) (jobs d)\<rparr>)"
  by (auto simp: jobs_ok_def ids_kept mem_update_where same_id row_ok)

lemma keeps_jobs_ok: "keeps jobs_ok (update_job P f)"
  by (rule keepsI) (auto simp: update_job_def jobs_ok_update)

lemma keeps_jobs_ok_all: "keeps jobs_ok (update_jobs P f)"
  by (rule keepsI) (auto simp: update_jobs_def jobs_ok_update)

end

interpretation claim_t: job_transition "claim_row w" for w
  by unfold_locales (auto simp: claim_row_def job_ok_def)

interpretation done_t: job_transition "\<lambda>_. done_row e" for e
  by unfold_locales (auto simp: done_row_def job_ok_def)

interpretation dead_t: job_transition "\<lambda>_. dead_row e" for e
  by unfold_locales (auto simp: dead_row_def job_ok_def)

interpretation retry_t: job_transition "retry_row b r" for b r
  by unfold_locales (auto simp: retry_row_def job_ok_def)

interpretation hand_back_t: job_transition "\<lambda>_. hand_back_row"
  by unfold_locales (auto simp: hand_back_row_def job_ok_def)

interpretation reap_t: job_transition "\<lambda>_. reap_job"
  by unfold_locales (auto simp: reap_job_def job_ok_def)

interpretation bump_t: job_transition "\<lambda>_. bump_job r" for r
  by unfold_locales (auto simp: bump_job_def job_ok_def)

lemma jobs_ok_create: "keeps jobs_ok (job_create k v ra)"
  by (rule keepsI) (fastforce simp: jobs_ok_def job_create_def job_ok_def Let_def)

lemma jobs_ok_claim: "keeps jobs_ok (job_claim_next_due skip w)"
  by (rule keepsI) (auto simp: job_claim_next_due_def dest: keepsD [OF claim_t.keeps_jobs_ok])

lemma jobs_ok_mark_done: "keeps jobs_ok (job_mark_done i e)"
  unfolding job_mark_done_def by (rule done_t.keeps_jobs_ok)

lemma jobs_ok_dead_letter: "keeps jobs_ok (job_dead_letter i e)"
  unfolding job_dead_letter_def by (rule dead_t.keeps_jobs_ok)

lemma jobs_ok_retry: "keeps jobs_ok (retry_or_bury j r)"
  by (simp add: retry_or_bury_def jobs_ok_dead_letter retry_stmt_def retry_t.keeps_jobs_ok)

lemma jobs_ok_hand_back: "keeps jobs_ok (hand_back_stmt i)"
  unfolding hand_back_stmt_def by (rule hand_back_t.keeps_jobs_ok)

lemma jobs_ok_reap: "keeps jobs_ok (reap_stmt n)"
  unfolding reap_stmt_def by (rule reap_t.keeps_jobs_ok_all)

lemma jobs_ok_bump: "keeps jobs_ok (bump_stmt j r)"
  by (rule keepsI) (auto simp: bump_stmt_def split: sum.splits dest: keepsD [OF bump_t.keeps_jobs_ok_all])

lemmas jobs_ok_stmts = jobs_ok_create jobs_ok_claim jobs_ok_mark_done jobs_ok_dead_letter
  jobs_ok_retry jobs_ok_hand_back jobs_ok_reap jobs_ok_bump

lemma applied_keeps: "keeps I f \<Longrightarrow> I d \<Longrightarrow> applied (f t d) = Some d' \<Longrightarrow> I d'"
  by (auto simp: applied_def split: sum.splits prod.splits dest: keepsD)

lemma jobs_ok_finish: "jobs_ok d \<Longrightarrow> finish_stmt f j t d = Some d' \<Longrightarrow> jobs_ok d'"
  by (cases f) (auto simp: finish_stmt_def intro: applied_keeps [OF jobs_ok_mark_done]
      applied_keeps [OF jobs_ok_dead_letter] applied_keeps [OF jobs_ok_bump]
      applied_keeps [OF jobs_ok_retry] applied_keeps [OF jobs_ok_hand_back])

lemma jobs_ok_empty: "jobs_ok empty_db"
  by (simp add: jobs_ok_def empty_db_def)

lemma queue_step_jobs_ok: "queue_step s s' \<Longrightarrow> jobs_ok (qdb s) \<Longrightarrow> jobs_ok (qdb s')"
proof (induction rule: queue_step.induct)
  case (enqueue k v ra t s j d)
  then show ?case by (auto dest: keepsD [OF jobs_ok_create])
next
  case (claim skip w t s j d)
  then show ?case by (auto dest: keepsD [OF jobs_ok_claim])
next
  case (finish j s f t d)
  then show ?case by (auto dest: jobs_ok_finish)
next
  case (lose j s)
  then show ?case by simp
next
  case (reap n t s js d)
  then show ?case by (auto dest: keepsD [OF jobs_ok_reap])
qed

section \<open>Claiming\<close>

text \<open>The jobs a claim may take.\<close>

definition eligible :: "(int \<Rightarrow> bool) \<Rightarrow> timestamp \<Rightarrow> db \<Rightarrow> job list" where
  "eligible skip t d =
     filter (\<lambda>j. jb_state j = Queued \<and> jb_run_after j \<le> t \<and> \<not> skip (jb_id j)) (jobs d)"

lemma next_due_None: "next_due skip t d = None \<longleftrightarrow> eligible skip t d = []"
  using set_sort [of jb_run_after "eligible skip t d"]
  by (auto simp: next_due_def eligible_def simp del: set_sort)

lemma next_due_Some:
  assumes "next_due skip t d = Some i"
  obtains j where "j \<in> set (eligible skip t d)" and "jb_id j = i"
    and "\<forall>k \<in> set (eligible skip t d). jb_run_after j \<le> jb_run_after k"
proof -
  let ?es = "eligible skip t d"
  from assms obtain j where j: "fetch_optional (sort_key jb_run_after ?es) = Some j" and i: "jb_id j = i"
    by (auto simp: next_due_def eligible_def)
  then obtain js where srt: "sort_key jb_run_after ?es = j # js"
    by (auto simp: fetch_optional_def split: list.splits)
  have "sorted (map jb_run_after (j # js))"
    using sorted_sort_key [of jb_run_after ?es] by (simp add: srt)
  moreover have "set (j # js) = set ?es"
    using set_sort [of jb_run_after ?es] by (simp add: srt)
  ultimately have "\<forall>k \<in> set ?es. jb_run_after j \<le> jb_run_after k"
    by force
  moreover have "j \<in> set ?es"
    using \<open>set (j # js) = set ?es\<close> by auto
  ultimately show thesis using i that by blast
qed

lemma jobs_by_id:
  assumes "jobs_ok d" and "j \<in> set (jobs d)"
  shows "filter (\<lambda>k. jb_id k = jb_id j) (jobs d) = [j]"
proof -
  have "unique_on (\<lambda>k. Some (jb_id k)) (jobs d)"
    using assms(1) by (simp add: jobs_ok_def unique_on_def map_filter_def comp_def)
  from filter_unique_on [OF this assms(2)] show ?thesis by simp
qed

lemma jobs_id_inj: "jobs_ok d \<Longrightarrow> j \<in> set (jobs d) \<Longrightarrow> k \<in> set (jobs d) \<Longrightarrow> jb_id j = jb_id k \<Longrightarrow> j = k"
  by (auto simp: jobs_ok_def distinct_map dest: inj_onD)

lemma update_job_by_id:
  assumes "jobs_ok d" and "j \<in> set (jobs d)"
  shows "update_job (\<lambda>_ k. jb_id k = jb_id j) f t d =
    Inr (Some (f t j), d\<lparr>jobs := update_where (\<lambda>k. k = j) (f t) (jobs d)\<rparr>)"
proof -
  have "update_where (\<lambda>k. jb_id k = jb_id j) (f t) (jobs d) = update_where (\<lambda>k. k = j) (f t) (jobs d)"
    using jobs_id_inj [OF assms] by (force simp: update_where_def)
  then show ?thesis
    by (simp add: update_job_def returning_def jobs_by_id [OF assms])
qed

lemma claim_None:
  "eligible skip t d = [] \<Longrightarrow> job_claim_next_due skip w t d = Inr (None, d)"
  by (simp add: job_claim_next_due_def update_job_def next_due_None [symmetric] returning_def update_where_id)

lemma claim_Some:
  assumes ok: "jobs_ok d" and ne: "eligible skip t d \<noteq> []"
  obtains j where "j \<in> set (eligible skip t d)"
    and "\<forall>k \<in> set (eligible skip t d). jb_run_after j \<le> jb_run_after k"
    and "job_claim_next_due skip w t d =
      Inr (Some (claim_row w t j), d\<lparr>jobs := update_where (\<lambda>k. k = j) (claim_row w t) (jobs d)\<rparr>)"
proof -
  from ne obtain i where i: "next_due skip t d = Some i"
    using next_due_None by (metis not_None_eq)
  then obtain j where j: "j \<in> set (eligible skip t d)" "jb_id j = i"
      "\<forall>k \<in> set (eligible skip t d). jb_run_after j \<le> jb_run_after k"
    by (rule next_due_Some)
  have "j \<in> set (jobs d)" using j(1) by (simp add: eligible_def)
  have P: "(\<lambda>(_ :: timestamp) k. next_due skip t d = Some (jb_id k)) = (\<lambda>_ k. jb_id k = jb_id j)"
    using i j(2) by (auto simp: fun_eq_iff)
  from update_job_by_id [OF ok \<open>j \<in> set (jobs d)\<close>, of "claim_row w" t]
  have "job_claim_next_due skip w t d =
      Inr (Some (claim_row w t j), d\<lparr>jobs := update_where (\<lambda>k. k = j) (claim_row w t) (jobs d)\<rparr>)"
    unfolding job_claim_next_due_def P .
  with j show thesis using that by blast
qed

lemma claim_cases:
  assumes "jobs_ok d" and "job_claim_next_due skip w t d = Inr (r, d')"
  obtains (none) "r = None" and "d' = d" and "eligible skip t d = []"
    | (some) j where "r = Some (claim_row w t j)" and "j \<in> set (eligible skip t d)"
      and "\<forall>k \<in> set (eligible skip t d). jb_run_after j \<le> jb_run_after k"
      and "d' = d\<lparr>jobs := update_where (\<lambda>k. k = j) (claim_row w t) (jobs d)\<rparr>"
proof (cases "eligible skip t d = []")
  case True
  with assms(2) show thesis by (intro none) (simp_all add: claim_None)
next
  case False
  from claim_Some [OF assms(1) False] obtain j where
    "j \<in> set (eligible skip t d)"
    "\<forall>k \<in> set (eligible skip t d). jb_run_after j \<le> jb_run_after k"
    "job_claim_next_due skip w t d =
      Inr (Some (claim_row w t j), d\<lparr>jobs := update_where (\<lambda>k. k = j) (claim_row w t) (jobs d)\<rparr>)"
    by metis
  with assms(2) show thesis by (intro some [of j]) auto
qed

text \<open>A running job is not claimed: the id is not eligible until the row is queued again.\<close>

lemma claimed_not_eligible:
  assumes "jobs_ok d" and "j \<in> set (jobs d)"
    and "k \<in> set (eligible skip t (d\<lparr>jobs := update_where (\<lambda>k. k = j) (claim_row w u) (jobs d)\<rparr>))"
  shows "jb_id k \<noteq> jb_id j"
  using assms(3) jobs_id_inj [OF assms(1,2)]
  by (fastforce simp: eligible_def mem_update_where claim_row_def split: if_splits)

section \<open>Bounded attempts\<close>

lemma attempts_ok_rows:
  "attempts_ok j \<Longrightarrow> attempts_ok (claim_row w t j) \<longleftrightarrow> jb_attempts j < jb_max_attempts j"
  "attempts_ok j \<Longrightarrow> attempts_ok (done_row e j)"
  "attempts_ok j \<Longrightarrow> attempts_ok (dead_row r j)"
  "attempts_ok j \<Longrightarrow> jb_state j = Running \<Longrightarrow> attempts_ok (reap_job j)"
  "attempts_ok j \<Longrightarrow> jb_state j = Running \<Longrightarrow> attempts_ok (bump_job r j)"
  "attempts_ok j \<Longrightarrow> \<not> attempts_exhausted j \<Longrightarrow> attempts_ok (retry_row b r t j)"
  "attempts_ok j \<Longrightarrow> jb_attempts j < jb_max_attempts j \<Longrightarrow> attempts_ok (hand_back_row j)"
  by (auto simp: attempts_ok_def job_row_defs attempts_exhausted_def)

definition queue_bounded :: "db \<Rightarrow> bool" where
  "queue_bounded d \<longleftrightarrow> jobs_ok d \<and> (\<forall>j \<in> set (jobs d). attempts_ok j)"

lemma bounded_update_one:
  assumes "queue_bounded d" and "j \<in> set (jobs d)" and "attempts_ok (f t j)"
    and "applied (update_job (\<lambda>_ k. jb_id k = jb_id j) f t d) = Some d'"
  shows "\<forall>k \<in> set (jobs d'). attempts_ok k"
  using assms update_job_by_id [of d j f t]
  by (auto simp: queue_bounded_def applied_def mem_update_where)

lemma bounded_update_running:
  assumes "queue_bounded d" and "\<And>j. P t j \<Longrightarrow> jb_state j = Running"
    and "\<And>j. attempts_ok j \<Longrightarrow> jb_state j = Running \<Longrightarrow> attempts_ok (f t j)"
    and "applied (update_jobs P f t d) = Some d'"
  shows "\<forall>k \<in> set (jobs d'). attempts_ok k"
  using assms by (auto simp: queue_bounded_def applied_def update_jobs_def mem_update_where)

lemma bounded_bump:
  assumes "queue_bounded d" and "applied (bump_stmt j r t d) = Some d'"
  shows "\<forall>k \<in> set (jobs d'). attempts_ok k"
proof (rule bounded_update_running [where P = "\<lambda>_. holds_lock j" and f = "\<lambda>_. bump_job r"])
  show "applied (update_jobs (\<lambda>_. holds_lock j) (\<lambda>_. bump_job r) t d) = Some d'"
    using assms(2) by (simp add: bump_stmt_def applied_def split: sum.splits prod.splits)
qed (use assms in \<open>auto simp: holds_lock_def attempts_ok_rows\<close>)

lemma bounded_finish:
  assumes b: "queue_bounded d" and j: "j \<in> set (jobs d)" "jb_state j = Running"
    and f: "finish_stmt f j t d = Some d'"
  shows "\<forall>k \<in> set (jobs d'). attempts_ok k"
proof -
  from b j(1) have aj: "attempts_ok j" by (simp add: queue_bounded_def)
  with j(2) have lt: "jb_attempts j < jb_max_attempts j" by (simp add: attempts_ok_def)
  note one = bounded_update_one [OF b j(1)]
  show ?thesis
  proof (cases f)
    case (Fin_Done e)
    with f show ?thesis using one [of "\<lambda>_. done_row e" t d'] aj
      by (simp add: finish_stmt_def job_mark_done_def attempts_ok_rows)
  next
    case (Fin_Dead e)
    with f show ?thesis using one [of "\<lambda>_. dead_row e" t d'] aj
      by (simp add: finish_stmt_def job_dead_letter_def attempts_ok_rows)
  next
    case (Fin_Bump r)
    with f show ?thesis using bounded_bump [OF b] by (simp add: finish_stmt_def)
  next
    case (Fin_Retry r)
    show ?thesis
    proof (cases "attempts_exhausted j")
      case True
      with f Fin_Retry show ?thesis using one [of "\<lambda>_. dead_row r" t d'] aj
        by (simp add: finish_stmt_def retry_or_bury_def job_dead_letter_def attempts_ok_rows)
    next
      case False
      with f Fin_Retry show ?thesis
        using one [of "retry_row (deliver_backoff (jb_attempts j)) r" t d'] aj
        by (simp add: finish_stmt_def retry_or_bury_def retry_stmt_def attempts_ok_rows)
    qed
  next
    case Fin_Hand_Back
    with f show ?thesis using one [of "\<lambda>_. hand_back_row" t d'] aj lt
      by (simp add: finish_stmt_def hand_back_stmt_def attempts_ok_rows)
  qed
qed

lemma attempts_ok_create:
  "queue_bounded d \<Longrightarrow> job_create k v ra t d = Inr (j, d') \<Longrightarrow> queue_bounded d'"
  using keepsD [OF jobs_ok_create]
  by (auto simp: queue_bounded_def job_create_def Let_def attempts_ok_def)

lemma bounded_claim:
  assumes "queue_bounded d" and "job_claim_next_due skip w t d = Inr (r, d')"
  shows "queue_bounded d'"
proof -
  from assms have ok: "jobs_ok d" by (simp add: queue_bounded_def)
  from ok assms(2) show ?thesis
  proof (cases rule: claim_cases)
    case none
    with assms(1) show ?thesis by simp
  next
    case (some j)
    have "jobs_ok d'" using keepsD [OF jobs_ok_claim ok assms(2)] .
    with some assms(1) show ?thesis
      by (auto simp: queue_bounded_def mem_update_where eligible_def attempts_ok_rows(1) attempts_ok_def
          claim_row_def)
  qed
qed

lemma bounded_reap:
  assumes "queue_bounded d" and "reap_stmt n t d = Inr (js, d')"
  shows "queue_bounded d'"
proof -
  have "jobs_ok d'"
    using assms by (auto simp: queue_bounded_def intro: keepsD [OF jobs_ok_reap])
  moreover have "\<forall>k \<in> set (jobs d'). attempts_ok k"
    by (rule bounded_update_running [OF assms(1), where f = "\<lambda>_. reap_job" and t = t and
          P = "\<lambda>t j. jb_state j = Running \<and> sql_lt (jb_locked_at j) (t - seconds n)"])
       (use assms(2) in \<open>auto simp: reap_stmt_def applied_def attempts_ok_rows\<close>)
  ultimately show ?thesis by (simp add: queue_bounded_def)
qed

definition held_running :: "queue_sys \<Rightarrow> bool" where
  "held_running s \<longleftrightarrow> (\<forall>j \<in> set (held s). jb_state j = Running)"

lemma held_running_step: "queue_step s s' \<Longrightarrow> jobs_ok (qdb s) \<Longrightarrow> held_running s \<Longrightarrow> held_running s'"
proof (induction rule: queue_step.induct)
  case (claim skip w t s j d)
  from claim(2) claim(1) show ?case
    by (cases rule: claim_cases) (use claim in \<open>auto simp: held_running_def claim_row_def\<close>)
qed (auto simp: held_running_def dest: in_set_remove1 [THEN iffD1, rotated] set_remove1_subset [THEN subsetD])

lemma bounded_step:
  assumes "queue_step s s'" and "queue_bounded (qdb s)" and "held_running s"
    and "set (held s) \<subseteq> set (jobs (qdb s))"
  shows "queue_bounded (qdb s')"
  using assms
proof (induction rule: queue_step.induct)
  case (finish j s f t d)
  then have "\<forall>k \<in> set (jobs d). attempts_ok k"
    by (intro bounded_finish [of "qdb s" j f t d]) (auto simp: held_running_def)
  with finish show ?case using jobs_ok_finish by (auto simp: queue_bounded_def)
qed (auto dest: attempts_ok_create bounded_claim bounded_reap)

lemma fresh_invariant: "fresh_reachable s \<Longrightarrow> queue_bounded (qdb s) \<and> held_running s"
proof (induction rule: fresh_reachable.induct)
  case fresh_start
  show ?case using jobs_ok_empty by (simp add: queue_bounded_def held_running_def) (simp add: empty_db_def)
next
  case (fresh_step s s')
  then show ?case
    using bounded_step held_running_step by (auto simp: queue_bounded_def)
qed

text \<open>Small queues on which the properties are exercised.\<close>

definition demo_job :: job where
  "demo_job = \<lparr>jb_id = 1, jb_kind = ''probe'', jb_payload = JObj [(''clip_id'', JInt 7)],
     jb_run_after = 100, jb_attempts = 0, jb_max_attempts = 5, jb_last_error = None,
     jb_state = Queued, jb_locked_by = None, jb_locked_at = None, jb_created_at = 100\<rparr>"

definition demo_job2 :: job where
  "demo_job2 = demo_job\<lparr>jb_id := 2, jb_run_after := 200\<rparr>"

definition demo_db :: db where
  "demo_db = empty_db\<lparr>jobs := [demo_job], next_id := 2\<rparr>"

definition demo_db2 :: db where
  "demo_db2 = empty_db\<lparr>jobs := [demo_job, demo_job2], next_id := 3\<rparr>"

lemma demo_db_ok: "jobs_ok demo_db"
  by (simp add: demo_db_def jobs_ok_def demo_job_def job_ok_def)

lemma demo_db2_ok: "jobs_ok demo_db2"
  by (simp add: demo_db2_def jobs_ok_def demo_job_def demo_job2_def job_ok_def)

section \<open>Properties of the queue\<close>

text \<open>C1: in every interleaving of enqueues, claims, completions, failures, retries, crashes and
  reaper sweeps, job ids stay unique, a job is locked (worker and time) exactly while it is
  running, and attempts never go negative.\<close>

theorem queue_reachable_consistent: "queue_reachable s \<Longrightarrow> jobs_ok (qdb s)"
proof (induction rule: queue_reachable.induct)
  case start
  show ?case by (simp add: jobs_ok_empty)
next
  case (step s s')
  then show ?case by (blast intro: queue_step_jobs_ok)
qed

theorem queue_reachable_consistent_witness:
  "jobs demo_db \<noteq> [] \<and> jobs_ok demo_db"
proof -
  have "queue_reachable \<lparr>qdb = demo_db, held = []\<rparr>"
  proof (rule queue_reachable.step [OF queue_reachable.start])
    show "queue_step \<lparr>qdb = empty_db, held = []\<rparr> \<lparr>qdb = demo_db, held = []\<rparr>"
      using queue_step.enqueue [of "''probe''" "JObj [(''clip_id'', JInt 7)]" None 100
          "\<lparr>qdb = empty_db, held = []\<rparr>" demo_job demo_db]
      by (simp add: job_create_def Let_def demo_job_def demo_db_def empty_db_def unwrap_or_def)
  qed
  from queue_reachable_consistent [OF this] show ?thesis by (simp add: demo_db_def)
qed

text \<open>a claim returns nothing exactly when no queued, due, unlocked job exists; otherwise it
  returns such a job with the least \<^verbatim>\<open>run_after\<close>, marked running under the worker's name, and
  changes that row only.\<close>

theorem claim_takes_earliest_due:
  assumes "jobs_ok d"
  shows "\<exists>r d'. job_claim_next_due skip w t d = Inr (r, d') \<and>
    (case r of
       None \<Rightarrow> d' = d \<and> eligible skip t d = []
     | Some j \<Rightarrow> \<exists>j0 \<in> set (eligible skip t d). j = claim_row w t j0 \<and>
         (\<forall>k \<in> set (eligible skip t d). jb_run_after j0 \<le> jb_run_after k) \<and>
         d' = d\<lparr>jobs := update_where (\<lambda>k. k = j0) (claim_row w t) (jobs d)\<rparr>)"
proof -
  obtain r d' where c: "job_claim_next_due skip w t d = Inr (r, d')"
    by (auto simp: job_claim_next_due_def update_job_def)
  from assms c show ?thesis
    by (cases rule: claim_cases) (use c in auto)
qed

theorem claim_takes_earliest_due_witness:
  "\<exists>d'. job_claim_next_due (\<lambda>_. False) ''worker-0'' 200 demo_db = Inr (Some (claim_row ''worker-0'' 200 demo_job), d')"
  using claim_takes_earliest_due [OF demo_db_ok, of "\<lambda>_. False" "''worker-0''" 200]
  by (auto simp: eligible_def demo_db_def demo_job_def split: option.splits)



text \<open>C7: as long as no worker outlives its own lock, a job never uses more than its
  \<^verbatim>\<open>max_attempts\<close>: attempts stay at or below the maximum, strictly below while the job can
  still run (so the \<^verbatim>\<open>i32\<close> counter never overflows), whatever the mix of timeouts, crashes,
  delivery retries and reaper sweeps.\<close>

theorem fresh_runs_bound_attempts:
  assumes "fresh_reachable s" and "j \<in> set (jobs (qdb s))"
  shows "0 \<le> jb_attempts j \<and> jb_attempts j \<le> jb_max_attempts j \<and>
    (jb_state j = Queued \<or> jb_state j = Running \<longrightarrow> jb_attempts j < jb_max_attempts j)"
  using fresh_invariant [OF assms(1)] assms(2) by (auto simp: queue_bounded_def attempts_ok_def)

theorem fresh_runs_bound_attempts_witness:
  "0 \<le> jb_attempts demo_job \<and> jb_attempts demo_job < jb_max_attempts demo_job"
proof -
  have "fresh_reachable \<lparr>qdb = demo_db, held = []\<rparr>"
  proof (rule fresh_step [OF fresh_start])
    show "queue_step \<lparr>qdb = empty_db, held = []\<rparr> \<lparr>qdb = demo_db, held = []\<rparr>"
      using queue_step.enqueue [of "''probe''" "JObj [(''clip_id'', JInt 7)]" None 100
          "\<lparr>qdb = empty_db, held = []\<rparr>" demo_job demo_db]
      by (simp add: job_create_def Let_def demo_job_def demo_db_def empty_db_def unwrap_or_def)
  qed simp
  from fresh_runs_bound_attempts [OF this, of demo_job] show ?thesis
    by (simp add: demo_db_def demo_job_def)
qed

text \<open>the failure bump acts only for the worker that still holds the lock: if the row was
  requeued, reclaimed or finished meanwhile, nothing changes and the caller is told so;
  otherwise exactly the locked row is bumped, to \<^verbatim>\<open>dead\<close> when its attempts are used up and back
  to \<^verbatim>\<open>queued\<close> when not.\<close>

theorem bump_needs_the_lock:
  assumes "jobs_ok d"
  shows "bump_stmt j r t d =
    (if \<exists>k \<in> set (jobs d). holds_lock j k
     then Inr (True, d\<lparr>jobs := update_where (holds_lock j) (bump_job r) (jobs d)\<rparr>)
     else Inr (False, d))"
proof (cases "\<exists>k \<in> set (jobs d). holds_lock j k")
  case True
  then obtain k where k: "k \<in> set (jobs d)" "holds_lock j k" by blast
  have "filter (holds_lock j) (jobs d) = filter (holds_lock j) (filter (\<lambda>x. jb_id x = jb_id k) (jobs d))"
    using k(2) by (auto simp: holds_lock_def intro: filter_cong)
  also have "\<dots> = [k]"
    using k jobs_by_id [OF assms k(1)] by simp
  finally have "filter (holds_lock j) (jobs d) = [k]" .
  with True show ?thesis
    by (simp add: bump_stmt_def update_jobs_def returning_def)
next
  case False
  then have "filter (holds_lock j) (jobs d) = []" "update_where (holds_lock j) (bump_job r) (jobs d) = jobs d"
    by (auto simp: filter_empty_conv intro: update_where_id)
  with False show ?thesis
    by (simp add: bump_stmt_def update_jobs_def returning_def)
qed

theorem bump_needs_the_lock_witness:
  "bump_stmt (claim_row ''worker-0'' 300 demo_job) ''job timed out'' 400 demo_db = Inr (False, demo_db)"
  using bump_needs_the_lock [OF demo_db_ok, of "claim_row ''worker-0'' 300 demo_job" "''job timed out''" 400]
  by (simp add: demo_db_def holds_lock_def demo_job_def)

text \<open>a delivery that fails on every try is retried after 30 s, 2 min, 15 min and once more
  after 15 min, and is dead-lettered at the fifth failure (\<^verbatim>\<open>max_attempts\<close> = 5): the reason is
  recorded each time and the lock released.\<close>

theorem retry_schedule:
  assumes "jobs_ok d" and "j \<in> set (jobs d)" and "jb_max_attempts j = 5"
  shows "\<exists>j' d'. retry_or_bury j r t d = Inr (Some j', d') \<and> j' \<in> set (jobs d') \<and> jobs_ok d' \<and>
    jb_id j' = jb_id j \<and> jb_last_error j' = Some r \<and> jb_locked_by j' = None \<and>
    (jb_attempts j = 0 \<longrightarrow> jb_state j' = Queued \<and> jb_attempts j' = 1 \<and> jb_run_after j' = t + seconds 30) \<and>
    (jb_attempts j = 1 \<longrightarrow> jb_state j' = Queued \<and> jb_attempts j' = 2 \<and> jb_run_after j' = t + seconds 120) \<and>
    (jb_attempts j = 2 \<longrightarrow> jb_state j' = Queued \<and> jb_attempts j' = 3 \<and> jb_run_after j' = t + seconds 900) \<and>
    (jb_attempts j = 3 \<longrightarrow> jb_state j' = Queued \<and> jb_attempts j' = 4 \<and> jb_run_after j' = t + seconds 900) \<and>
    (jb_attempts j = 4 \<longrightarrow> jb_state j' = Dead)"
proof -
  let ?f = "if attempts_exhausted j then (\<lambda>_. dead_row r) else retry_row (deliver_backoff (jb_attempts j)) r"
  let ?d' = "d\<lparr>jobs := update_where (\<lambda>k. k = j) (?f t) (jobs d)\<rparr>"
  have u: "retry_or_bury j r t d = Inr (Some (?f t j), ?d')"
    using update_job_by_id [OF assms(1,2), of ?f t]
    by (auto simp: retry_or_bury_def job_dead_letter_def retry_stmt_def)
  moreover have "?f t j \<in> set (jobs ?d')"
    using assms(2) by (simp add: mem_update_where) blast
  moreover have "jobs_ok ?d'"
    using keepsD [OF jobs_ok_retry assms(1) u] .
  ultimately show ?thesis
    using assms(3)
    by (intro exI [of _ "?f t j"] exI [of _ ?d'])
       (simp add: attempts_exhausted_def dead_row_def retry_row_def deliver_backoff_def)
qed

theorem retry_schedule_witness:
  "\<exists>j' d'. retry_or_bury demo_job ''status 503'' 500 demo_db = Inr (Some j', d') \<and>
     jb_state j' = Queued \<and> jb_attempts j' = 1 \<and> jb_run_after j' = 500 + seconds 30"
  using retry_schedule [OF demo_db_ok, of demo_job "''status 503''" 500]
  by (auto simp: demo_db_def demo_job_def)

text \<open>the delivery retry is not guarded by the lock: a worker that was overtaken and acts on an
  old snapshot (with tries left) puts a job that was meanwhile finished or dead-lettered back
  into the queue.\<close>

theorem stale_retry_revives_finished_job:
  assumes "jobs_ok d" and "k \<in> set (jobs d)" and "jb_state k = Dead \<or> jb_state k = Done"
    and "jb_id snapshot = jb_id k" and "\<not> attempts_exhausted snapshot"
  shows "\<exists>k' d'. retry_or_bury snapshot r t d = Inr (Some k', d') \<and> k' \<in> set (jobs d') \<and>
    jb_id k' = jb_id k \<and> jb_state k' = Queued \<and> jb_attempts k' = jb_attempts k + 1"
proof -
  let ?f = "retry_row (deliver_backoff (jb_attempts snapshot)) r"
  let ?d' = "d\<lparr>jobs := update_where (\<lambda>x. x = k) (?f t) (jobs d)\<rparr>"
  have "retry_or_bury snapshot r t d = Inr (Some (?f t k), ?d')"
    using update_job_by_id [OF assms(1,2), of ?f t] assms(4,5)
    by (simp add: retry_or_bury_def retry_stmt_def)
  moreover have "?f t k \<in> set (jobs ?d')"
    using assms(2) by (simp add: mem_update_where) blast
  ultimately show ?thesis
    by (intro exI [of _ "?f t k"] exI [of _ ?d']) (simp add: retry_row_def)
qed

theorem stale_retry_revives_finished_job_witness:
  "\<exists>k' d'. retry_or_bury (claim_row ''delivery'' 100 demo_job) ''reset'' 900
      (empty_db\<lparr>jobs := [dead_row ''reaper: max attempts'' (demo_job\<lparr>jb_attempts := 5\<rparr>)], next_id := 2\<rparr>) =
      Inr (Some k', d') \<and> jb_state k' = Queued \<and> jb_attempts k' = 6"
proof -
  let ?k = "dead_row ''reaper: max attempts'' (demo_job\<lparr>jb_attempts := 5\<rparr>)"
  let ?d = "empty_db\<lparr>jobs := [?k], next_id := 2\<rparr>"
  have "jobs_ok ?d" by (simp add: jobs_ok_def job_ok_def dead_row_def demo_job_def)
  from stale_retry_revives_finished_job [OF this, of ?k "claim_row ''delivery'' 100 demo_job" "''reset''" 900]
  show ?thesis
    by (auto simp: dead_row_def claim_row_def demo_job_def attempts_exhausted_def)
qed

end
