(* ===== verification/Inbox.thy ===== *)
theory Inbox
  imports Note Db_Federation Db_Clips Job_Queue
begin

text \<open>
  The inbound ActivityPub pipeline (\<^verbatim>\<open>crates/federation/src/activity.rs\<close>): the activity types,
  their lenient deserialisation, and one handler per type, in the strict order idempotency gate,
  tombstone check, processing, stamp. Handlers run against a connection pool whose statements
  may fail. Parameters (record \<open>fed_env\<close>): URL parsing (crate \<^verbatim>\<open>url\<close>), random UUIDs, time
  stamps (\<^verbatim>\<open>chrono\<close>), tombstone objects and remote dereferencing (crate
  \<^verbatim>\<open>activitypub_federation\<close>: its cache policy and the network). HTTP signature checking happens in that crate before
  \<open>receive\<close> is called. Logging is left out.
\<close>

section \<open>Environment and errors\<close>

datatype fed_error = Fed_Db db_error | Fed_Not_Found | Fed_Panic | Fed_Other string

text \<open>The wire form of an actor (\<^verbatim>\<open>ApActor\<close> in \<^verbatim>\<open>object.rs\<close>), as parsed by the crate.\<close>

record ap_actor =
  aa_kind :: actor_type
  aa_id :: url
  aa_preferred_username :: string
  aa_name :: "string option"
  aa_summary :: "string option"
  aa_inbox :: url
  aa_outbox :: "url option"
  aa_followers :: "url option"
  aa_shared_inbox :: "url option"
  aa_public_key_pem :: string

text \<open>What the crate does to dereference an actor id, given the cached row: use the row, or fetch
  the document (and hand it to \<^verbatim>\<open>DbActor::from_json\<close>), or fail.\<close>

datatype fetch_plan = Use_Cached | Fetched ap_actor | Fetch_Failed

record fed_env =
  fe_domain :: string
  fe_base_url :: string
  fe_parse_url :: "string \<Rightarrow> url option"
  fe_uuid :: "nat \<Rightarrow> string"
  fe_parse_rfc3339 :: "string \<Rightarrow> timestamp option"
  fe_tombstone_id :: "json \<Rightarrow> string option"
  fe_fetch :: "string \<Rightarrow> actor option \<Rightarrow> fetch_plan"

text \<open>\<^verbatim>\<open>?\<close> on a database result inside a federation handler.\<close>

definition fed :: "(db_error + 'a) \<times> 'p \<Rightarrow> (fed_error + 'a) \<times> 'p" where
  "fed r = (case r of (Inl e, p) \<Rightarrow> (Inl (Fed_Db e), p) | (Inr a, p) \<Rightarrow> (Inr a, p))"

type_synonym 'z handler = "'z pool_scheme \<Rightarrow> (fed_error + unit) \<times> 'z pool_scheme"

section \<open>Activities\<close>

record follow_act =
  fa_id :: string
  fa_actor :: string
  fa_object :: string

datatype follow_object = FO_Follow follow_act | FO_Ref string | FO_Url string

fun follow_object_id :: "follow_object \<Rightarrow> string" where
  "follow_object_id (FO_Follow f) = fa_id f"
| "follow_object_id (FO_Ref i) = i"
| "follow_object_id (FO_Url u) = u"

datatype delete_object = DO_Tombstone string json | DO_Url string

fun delete_object_id :: "delete_object \<Rightarrow> string" where
  "delete_object_id (DO_Tombstone i _) = i"
| "delete_object_id (DO_Url u) = u"

datatype ap_activity =
    Act_Follow follow_act
  | Act_Accept string string follow_object
  | Act_Reject string string follow_object
  | Act_Undo string string json
  | Act_Delete string string delete_object
  | Act_Create string string json
  | Act_Update string string json
  | Act_Move string string string "string option"
  | Act_Passthrough string string json

fun act_id :: "ap_activity \<Rightarrow> string" where
  "act_id (Act_Follow f) = fa_id f"
| "act_id (Act_Accept i _ _) = i"
| "act_id (Act_Reject i _ _) = i"
| "act_id (Act_Undo i _ _) = i"
| "act_id (Act_Delete i _ _) = i"
| "act_id (Act_Create i _ _) = i"
| "act_id (Act_Update i _ _) = i"
| "act_id (Act_Move i _ _ _) = i"
| "act_id (Act_Passthrough i _ _) = i"

fun act_actor :: "ap_activity \<Rightarrow> string" where
  "act_actor (Act_Follow f) = fa_actor f"
| "act_actor (Act_Accept _ a _) = a"
| "act_actor (Act_Reject _ a _) = a"
| "act_actor (Act_Undo _ a _) = a"
| "act_actor (Act_Delete _ a _) = a"
| "act_actor (Act_Create _ a _) = a"
| "act_actor (Act_Update _ a _) = a"
| "act_actor (Act_Move _ a _ _) = a"
| "act_actor (Act_Passthrough _ a _) = a"

section \<open>Deserialisation\<close>

text \<open>A field of type \<^verbatim>\<open>Url\<close> or \<^verbatim>\<open>ObjectId\<close>: a string that parses as a URL.\<close>

definition get_url :: "fed_env \<Rightarrow> string \<Rightarrow> json \<Rightarrow> string option" where
  "get_url env k v = map_option u_str (Option.bind (get_str k v) (fe_parse_url env))"

definition has_type :: "string \<Rightarrow> json \<Rightarrow> bool" where
  "has_type ty v \<longleftrightarrow> get_str ''type'' v = Some ty"

definition de_follow :: "fed_env \<Rightarrow> json \<Rightarrow> follow_act option" where
  "de_follow env v =
     (if \<not> has_type ''Follow'' v then None
      else case (get_url env ''id'' v, get_url env ''actor'' v, get_url env ''object'' v) of
        (Some i, Some a, Some ob) \<Rightarrow> Some \<lparr>fa_id = i, fa_actor = a, fa_object = ob\<rparr>
      | _ \<Rightarrow> None)"

text \<open>The untagged enums try their variants in order.\<close>

definition de_follow_object :: "fed_env \<Rightarrow> json \<Rightarrow> follow_object option" where
  "de_follow_object env v =
     (case de_follow env v of
        Some f \<Rightarrow> Some (FO_Follow f)
      | None \<Rightarrow> (case (if has_type ''Follow'' v then get_url env ''id'' v else None) of
          Some i \<Rightarrow> Some (FO_Ref i)
        | None \<Rightarrow> map_option (\<lambda>u. FO_Url (u_str u)) (Option.bind (json_as_str v) (fe_parse_url env))))"

definition de_delete_object :: "fed_env \<Rightarrow> json \<Rightarrow> delete_object option" where
  "de_delete_object env v =
     (case fe_tombstone_id env v of
        Some i \<Rightarrow> Some (DO_Tombstone i v)
      | None \<Rightarrow> map_option (\<lambda>u. DO_Url (u_str u)) (Option.bind (json_as_str v) (fe_parse_url env)))"

definition de_passthrough :: "fed_env \<Rightarrow> json \<Rightarrow> ap_activity option" where
  "de_passthrough env v =
     (case (get_url env ''id'' v, get_url env ''actor'' v) of
        (Some i, Some a) \<Rightarrow> Some (Act_Passthrough i a v)
      | _ \<Rightarrow> None)"

text \<open>A struct with \<^verbatim>\<open>id\<close>, \<^verbatim>\<open>actor\<close> and \<^verbatim>\<open>object\<close>; \<open>de\<close> reads the object.\<close>

definition de_with_object ::
  "fed_env \<Rightarrow> (json \<Rightarrow> 'o option) \<Rightarrow> (string \<Rightarrow> string \<Rightarrow> 'o \<Rightarrow> ap_activity) \<Rightarrow> json \<Rightarrow> ap_activity option" where
  "de_with_object env de mk v =
     (case (get_url env ''id'' v, get_url env ''actor'' v, Option.bind (json_get ''object'' v) de) of
        (Some i, Some a, Some ob) \<Rightarrow> Some (mk i a ob)
      | _ \<Rightarrow> None)"

text \<open>\<^verbatim>\<open>target: Option<Url>\<close> with a default: absent or null is \<^verbatim>\<open>None\<close>, anything else must parse.\<close>

definition de_move :: "fed_env \<Rightarrow> json \<Rightarrow> ap_activity option" where
  "de_move env v =
     (case (get_url env ''id'' v, get_url env ''actor'' v, get_url env ''object'' v) of
        (Some i, Some a, Some ob) \<Rightarrow>
          (case json_get ''target'' v of
             None \<Rightarrow> Some (Act_Move i a ob None)
           | Some JNull \<Rightarrow> Some (Act_Move i a ob None)
           | Some _ \<Rightarrow> map_option (\<lambda>u. Act_Move i a ob (Some u)) (get_url env ''target'' v))
      | _ \<Rightarrow> None)"

definition de_activity :: "fed_env \<Rightarrow> json \<Rightarrow> ap_activity option" where
  "de_activity env v =
     (let kind = unwrap_or [] (get_str ''type'' v) in
      if kind = ''Follow'' then map_option Act_Follow (de_follow env v)
      else if kind = ''Accept'' then de_with_object env (de_follow_object env) Act_Accept v
      else if kind = ''Reject'' then de_with_object env (de_follow_object env) Act_Reject v
      else if kind = ''Undo'' then coalesce (de_with_object env Some Act_Undo v) (de_passthrough env v)
      else if kind = ''Delete'' then de_with_object env (de_delete_object env) Act_Delete v
      else if kind = ''Create'' then coalesce (de_with_object env Some Act_Create v) (de_passthrough env v)
      else if kind = ''Update'' then coalesce (de_with_object env Some Act_Update v) (de_passthrough env v)
      else if kind = ''Move'' then de_move env v
      else de_passthrough env v)"

section \<open>Serialisation into the activity log\<close>

definition follow_json :: "follow_act \<Rightarrow> json" where
  "follow_json f = JObj [(''type'', JStr ''Follow''), (''id'', JStr (fa_id f)),
     (''actor'', JStr (fa_actor f)), (''object'', JStr (fa_object f))]"

fun follow_object_json :: "follow_object \<Rightarrow> json" where
  "follow_object_json (FO_Follow f) = follow_json f"
| "follow_object_json (FO_Ref i) = JObj [(''type'', JStr ''Follow''), (''id'', JStr i)]"
| "follow_object_json (FO_Url u) = JStr u"

fun delete_object_json :: "delete_object \<Rightarrow> json" where
  "delete_object_json (DO_Tombstone _ v) = v"
| "delete_object_json (DO_Url u) = JStr u"

definition act_json :: "string \<Rightarrow> string \<Rightarrow> string \<Rightarrow> json \<Rightarrow> json" where
  "act_json ty i a ob = JObj [(''type'', JStr ty), (''id'', JStr i), (''actor'', JStr a), (''object'', ob)]"

section \<open>Pipeline primitives\<close>

definition inbound_begin ::
  "string \<Rightarrow> string \<Rightarrow> string option \<Rightarrow> json \<Rightarrow> 'z pool_scheme \<Rightarrow> (fed_error + bool) \<times> 'z pool_scheme" where
  "inbound_begin activity_id actor_ap_id object_ap_id raw p =
     try_then (fed (exec (activity_try_create_inbound activity_id actor_ap_id object_ap_id raw) p))
       (\<lambda>inserted p. (Inr (inserted \<noteq> None), p))"

definition inbound_finish :: "string \<Rightarrow> 'z handler" where
  "inbound_finish activity_id p =
     try_then (fed (exec (activity_stamp_processed activity_id) p)) (\<lambda>_ p. (Inr (), p))"

definition tombstoned :: "string \<Rightarrow> 'z pool_scheme \<Rightarrow> (fed_error + bool) \<times> 'z pool_scheme" where
  "tombstoned object_ap_id p = fed (exec (tombstone_exists object_ap_id) p)"

text \<open>Every handler opens with the gate: a known activity id ends the request.\<close>

definition gated :: "string \<Rightarrow> string \<Rightarrow> string option \<Rightarrow> json \<Rightarrow> 'z handler \<Rightarrow> 'z handler" where
  "gated i a ob raw body p =
     try_then (inbound_begin i a ob raw p) (\<lambda>new p. if \<not> new then (Inr (), p) else body p)"

definition raw_object_id :: "json \<Rightarrow> string option" where
  "raw_object_id raw = (case json_get ''object'' raw of
     Some (JStr s) \<Rightarrow> Some s
   | Some (JObj o') \<Rightarrow> get_str ''id'' (JObj o')
   | _ \<Rightarrow> None)"

definition embedded_object_id :: "json \<Rightarrow> string option" where
  "embedded_object_id ob = nonempty (get_str ''id'' ob)"

definition is_local_url :: "url \<Rightarrow> string \<Rightarrow> bool" where
  "is_local_url u domain = (case u_host u of
     None \<Rightarrow> False
   | Some host \<Rightarrow> (case u_port u of Some port \<Rightarrow> host @ '':'' @ show_int port | None \<Rightarrow> host) = domain)"

text \<open>\<^verbatim>\<open>undo_follow_target\<close>; arrays take the first entry that yields an id.\<close>

fun undo_follow_target :: "json \<Rightarrow> string option" and undo_first :: "json list \<Rightarrow> string option" where
  "undo_follow_target (JStr s) = Some s"
| "undo_follow_target (JObj ms) =
     (if unwrap_or [] (get_str ''type'' (JObj ms)) \<noteq> ''Follow'' then None
      else nonempty (get_str ''id'' (JObj ms)))"
| "undo_follow_target (JArr items) = undo_first items"
| "undo_follow_target _ = None"
| "undo_first [] = None"
| "undo_first (v # vs) = coalesce (undo_follow_target v) (undo_first vs)"

section \<open>Delivery jobs\<close>

definition enqueue_delivery :: "int \<Rightarrow> string \<Rightarrow> json \<Rightarrow> 'z handler" where
  "enqueue_delivery actor_id inbox_url activity p =
     try_then (fed (exec (job_create ''deliver'' (JObj [(''actor_id'', JInt actor_id),
       (''inbox_url'', JStr inbox_url), (''activity'', activity)]) None) p)) (\<lambda>_ p. (Inr (), p))"

definition enqueue_follow_delivery :: "int \<Rightarrow> int \<Rightarrow> json \<Rightarrow> 'z handler" where
  "enqueue_follow_delivery follower_actor_id target_actor_id activity p =
     try_then (fed (exec (job_create ''deliver_follow'' (JObj [(''follower_actor_id'', JInt follower_actor_id),
       (''target_actor_id'', JInt target_actor_id), (''activity'', activity)]) None) p)) (\<lambda>_ p. (Inr (), p))"

definition enqueue_backfill :: "int \<Rightarrow> int \<Rightarrow> 'z handler" where
  "enqueue_backfill actor_id mx p =
     try_then (fed (exec (job_create ''backfill_actor''
       (JObj [(''actor_id'', JInt actor_id), (''max'', JInt mx)]) None) p)) (\<lambda>_ p. (Inr (), p))"

section \<open>Outbound activities\<close>

definition context_member :: "string \<times> json" where
  "context_member = (''@context'', JStr ''https://www.w3.org/ns/activitystreams'')"

definition activity_id :: "string \<Rightarrow> string \<Rightarrow> string" where
  "activity_id base_url uuid = base_url @ ''/activities/'' @ uuid"

definition accept_activity :: "string \<Rightarrow> string \<Rightarrow> string \<Rightarrow> string \<Rightarrow> string \<Rightarrow> string \<Rightarrow> json" where
  "accept_activity uuid base_url actor follow_id follow_actor follow_object = JObj
     [context_member, (''id'', JStr (activity_id base_url uuid)), (''type'', JStr ''Accept''),
      (''actor'', JStr actor),
      (''object'', JObj [(''id'', JStr follow_id), (''type'', JStr ''Follow''),
         (''actor'', JStr follow_actor), (''object'', JStr follow_object)]),
      (''to'', JArr [JStr follow_actor])]"

definition follow_activity :: "string \<Rightarrow> string \<Rightarrow> string \<Rightarrow> string \<Rightarrow> json" where
  "follow_activity uuid base_url follower_ap_id target_ap_id = JObj
     [context_member, (''id'', JStr (activity_id base_url uuid)), (''type'', JStr ''Follow''),
      (''actor'', JStr follower_ap_id), (''object'', JStr target_ap_id),
      (''to'', JArr [JStr target_ap_id]), (''cc'', JArr [JStr (follower_ap_id @ ''/followers'')])]"

definition undo_activity :: "string \<Rightarrow> string \<Rightarrow> string \<Rightarrow> string \<Rightarrow> json" where
  "undo_activity uuid base_url actor_ap_id follow_id = JObj
     [context_member, (''id'', JStr (activity_id base_url uuid)), (''type'', JStr ''Undo''),
      (''actor'', JStr actor_ap_id), (''object'', JObj [(''id'', JStr follow_id), (''type'', JStr ''Follow'')]),
      (''to'', JArr [JStr (actor_ap_id @ ''/followers'')])]"

definition activity_id_from_json :: "json \<Rightarrow> string" where
  "activity_id_from_json activity = unwrap_or [] (get_str ''id'' activity)"

section \<open>Actors as federation objects\<close>

text \<open>\<^verbatim>\<open>DbActor::from_row\<close>: the stored id must parse.\<close>

definition from_row :: "fed_env \<Rightarrow> actor \<Rightarrow> url option" where
  "from_row env a = fe_parse_url env (ac_ap_id a)"

text \<open>\<^verbatim>\<open>dereference_local\<close>: \<^verbatim>\<open>DbActor::read_from_id\<close>, an error when there is no row.\<close>

definition dereference_local ::
  "fed_env \<Rightarrow> string \<Rightarrow> 'z pool_scheme \<Rightarrow> (fed_error + (actor \<times> url)) \<times> 'z pool_scheme" where
  "dereference_local env i p =
     try_then (fed (exec (actor_fetch_by_ap_id i) p))
       (\<lambda>row p. case row of
          None \<Rightarrow> (Inl Fed_Not_Found, p)
        | Some a \<Rightarrow> (case from_row env a of None \<Rightarrow> (Inl Fed_Panic, p) | Some u \<Rightarrow> (Inr (a, u), p)))"

text \<open>\<^verbatim>\<open>shared_inbox_or_inbox\<close> of the actor trait: the shared inbox if it parses, else the inbox.\<close>

definition actor_delivery_inbox :: "fed_env \<Rightarrow> actor \<Rightarrow> string option" where
  "actor_delivery_inbox env a =
     coalesce (map_option u_str (Option.bind (ac_shared_inbox_url a) (fe_parse_url env)))
       (map_option u_str (fe_parse_url env (ac_inbox_url a)))"

section \<open>Handlers\<close>

text \<open>\<^verbatim>\<open>Follow::receive_inbound\<close>, after the gate.\<close>

definition auto_accept :: "fed_env \<Rightarrow> follow_act \<Rightarrow> actor \<Rightarrow> actor \<Rightarrow> 'z handler" where
  "auto_accept env f follower target p =
     try_then (fed (exec (follow_set_state (ac_id follower) (ac_id target) Accepted) p)) (\<lambda>_ p.
       let accept_json = accept_activity (fe_uuid env (ticks p)) (fe_base_url env) (ac_ap_id target)
             (fa_id f) (fa_actor f) (fa_object f);
           p1 = snd (exec (activity_create_outbound (activity_id_from_json accept_json) (ac_ap_id target)
             (Some (fa_id f)) accept_json) p)
       in case actor_delivery_inbox env follower of
            None \<Rightarrow> (Inl Fed_Panic, p1)
          | Some inbox \<Rightarrow> enqueue_delivery (ac_id target) inbox accept_json p1)"

definition follow_process :: "fed_env \<Rightarrow> follow_act \<Rightarrow> 'z handler" where
  "follow_process env f p =
     try_then (tombstoned (fa_object f) p) (\<lambda>gone p.
       if gone then inbound_finish (fa_id f) p
       else try_then (dereference_local env (fa_object f) p) (\<lambda>(target, target_url) p.
         if \<not> is_local_url target_url (fe_domain env) then inbound_finish (fa_id f) p
         else try_then (dereference_local env (fa_actor f) p) (\<lambda>(follower, _) p.
           try_then (fed (exec (follow_upsert (ac_id follower) (ac_id target) (Some (fa_id f)) Requested) p))
             (\<lambda>_ p. try_then
                (if \<not> ac_is_locked target then auto_accept env f follower target p else (Inr (), p))
                (\<lambda>_ p. inbound_finish (fa_id f) p)))))"

definition accept_process :: "string \<Rightarrow> string \<Rightarrow> 'z handler" where
  "accept_process i follow_id p =
     try_then (fed (exec (follow_fetch_by_activity_id follow_id) p)) (\<lambda>row p.
       case row of
         None \<Rightarrow> inbound_finish i p
       | Some f \<Rightarrow> try_then (fed (exec (follow_set_state (fo_follower_actor_id f) (fo_target_actor_id f) Accepted) p))
           (\<lambda>_ p. inbound_finish i (snd (enqueue_backfill (fo_target_actor_id f) 20 p))))"

definition reject_process :: "string \<Rightarrow> string \<Rightarrow> 'z handler" where
  "reject_process i follow_id p =
     try_then (fed (exec (follow_fetch_by_activity_id follow_id) p)) (\<lambda>row p.
       case row of
         None \<Rightarrow> inbound_finish i p
       | Some f \<Rightarrow> try_then (fed (exec (follow_set_state (fo_follower_actor_id f) (fo_target_actor_id f) Rejected) p))
           (\<lambda>_ p. inbound_finish i p))"

definition undo_process :: "string \<Rightarrow> string \<Rightarrow> 'z handler" where
  "undo_process i follow_id p =
     try_then (fed (exec (follow_fetch_by_activity_id follow_id) p)) (\<lambda>row p.
       case row of
         None \<Rightarrow> inbound_finish i p
       | Some f \<Rightarrow> try_then (fed (exec (follow_delete (fo_follower_actor_id f) (fo_target_actor_id f)) p))
           (\<lambda>_ p. inbound_finish i p))"

text \<open>The owner test of \<^verbatim>\<open>Delete\<close> and \<^verbatim>\<open>Update\<close>.\<close>

definition is_owner :: "string \<Rightarrow> actor option \<Rightarrow> bool" where
  "is_owner actor_ap_id row = (case row of None \<Rightarrow> False | Some a \<Rightarrow> ac_ap_id a = actor_ap_id)"

definition delete_process :: "string \<Rightarrow> string \<Rightarrow> string \<Rightarrow> 'z handler" where
  "delete_process i actor_ap_id object_id p =
     try_then (fed (exec (clip_fetch_by_ap_id object_id) p)) (\<lambda>row p.
       case row of
         Some c \<Rightarrow>
           try_then (fed (exec (actor_fetch_by_id (cl_actor_id c)) p)) (\<lambda>author p.
             if is_owner actor_ap_id author
             then try_then (fed (exec (tombstone_upsert object_id ''Note'') p)) (\<lambda>_ p.
                    try_then (fed (exec (clip_mark_deleted (cl_id c)) p)) (\<lambda>_ p. inbound_finish i p))
             else inbound_finish i p)
       | None \<Rightarrow>
           try_then (fed (exec (tombstone_upsert object_id ''Person'') p)) (\<lambda>_ p.
             inbound_finish i (snd (exec (actor_mark_remote_deleted_by_ap_id object_id) p))))"

text \<open>\<^verbatim>\<open>DbActor::from_json\<close>: refresh or create the cached row.\<close>

definition remote_of_json :: "ap_actor \<Rightarrow> string \<Rightarrow> remote_actor" where
  "remote_of_json j domain = \<lparr>rm_username = aa_preferred_username j, rm_domain = domain,
     rm_actor_type = aa_kind j, rm_public_key_pem = aa_public_key_pem j,
     rm_inbox_url = u_str (aa_inbox j), rm_shared_inbox_url = map_option u_str (aa_shared_inbox j),
     rm_outbox_url = unwrap_or (u_str (aa_id j)) (map_option u_str (aa_outbox j)),
     rm_followers_url = unwrap_or (u_str (aa_id j)) (map_option u_str (aa_followers j)),
     rm_ap_id = u_str (aa_id j), rm_display_name = nonempty (map_option trim (aa_name j)),
     rm_summary = map_option strip_html_tags (aa_summary j), rm_avatar_url = None\<rparr>"

definition from_json :: "ap_actor \<Rightarrow> 'z pool_scheme \<Rightarrow> (fed_error + actor) \<times> 'z pool_scheme" where
  "from_json j p = (case u_host (aa_id j) of
     None \<Rightarrow> (Inl (Fed_Other ''actor id has no host''), p)
   | Some domain \<Rightarrow> fed (exec (actor_upsert_remote (remote_of_json j domain)) p))"

text \<open>\<^verbatim>\<open>self.actor.dereference(data)\<close>.\<close>

definition dereference :: "fed_env \<Rightarrow> string \<Rightarrow> 'z pool_scheme \<Rightarrow> (fed_error + actor) \<times> 'z pool_scheme" where
  "dereference env i p =
     try_then (fed (exec (actor_fetch_by_ap_id i) p)) (\<lambda>cached p.
       case fe_fetch env i cached of
         Use_Cached \<Rightarrow> (case cached of None \<Rightarrow> (Inl Fed_Not_Found, p) | Some a \<Rightarrow> (Inr a, p))
       | Fetched j \<Rightarrow> from_json j p
       | Fetch_Failed \<Rightarrow> (Inl Fed_Not_Found, p))"

definition store_remote_clip :: "parsed_note \<Rightarrow> actor \<Rightarrow> 'z pool_scheme \<Rightarrow> (db_error + clip) \<times> 'z pool_scheme" where
  "store_remote_clip n author p = exec (clip_create_remote (ac_id author) (pn_id n)
     (nonempty (map_option strip_html_tags (pn_content_html n)))
     (pa_duration_s (pn_attachment n)) (pa_width (pn_attachment n)) (pa_height (pn_attachment n))
     (pa_media_url (pn_attachment n)) (pn_sensitive n) (pn_summary n) (pn_published n)) p"

definition create_process :: "fed_env \<Rightarrow> string \<Rightarrow> string \<Rightarrow> json \<Rightarrow> string option \<Rightarrow> 'z handler" where
  "create_process env i actor_ap_id ob object_id p =
     (case object_id of
        None \<Rightarrow> inbound_finish i p
      | Some oid \<Rightarrow>
          try_then (tombstoned oid p) (\<lambda>gone p.
            if gone then inbound_finish i p
            else case parse_inbound_note (fe_parse_rfc3339 env) ob of
              Inl reason \<Rightarrow> inbound_finish i p
            | Inr n \<Rightarrow> (case fe_parse_url env (pn_attributed_to n) of
                None \<Rightarrow> inbound_finish i p
              | Some attributed \<Rightarrow>
                  if is_local_url attributed (fe_domain env) \<or> u_str attributed \<noteq> actor_ap_id
                  then inbound_finish i p
                  else case dereference env actor_ap_id p of
                    (Inl e, p) \<Rightarrow> inbound_finish i p
                  | (Inr author, p) \<Rightarrow> (case store_remote_clip n author p of
                      (Inr c, p) \<Rightarrow> inbound_finish i p
                    | (Inl e, p) \<Rightarrow> if is_unique_violation e then inbound_finish i p
                                    else (Inl (Fed_Db e), p)))))"

definition update_process :: "string \<Rightarrow> string \<Rightarrow> json \<Rightarrow> string option \<Rightarrow> 'z handler" where
  "update_process i actor_ap_id ob object_id p =
     (case object_id of
        None \<Rightarrow> inbound_finish i p
      | Some oid \<Rightarrow>
          try_then (fed (exec (clip_fetch_by_ap_id oid) p)) (\<lambda>row p.
            case row of
              None \<Rightarrow> inbound_finish i p
            | Some c \<Rightarrow>
                try_then (fed (exec (actor_fetch_by_id (cl_actor_id c)) p)) (\<lambda>author p.
                  let fields = extract_note_fields ob in
                  if is_owner actor_ap_id author \<and> cl_deleted_at c = None
                  then try_then (fed (exec (clip_update_note_fields (cl_id c)
                           (nonempty (map_option strip_html_tags (nf_content_html fields)))
                           (nf_sensitive fields) (nf_summary fields)) p)) (\<lambda>_ p. inbound_finish i p)
                  else inbound_finish i p)))"

section \<open>Receiving\<close>

definition undo_receive :: "string \<Rightarrow> string \<Rightarrow> json \<Rightarrow> 'z handler" where
  "undo_receive i a ob p =
     (let raw = act_json ''Undo'' i a ob in
      case undo_follow_target ob of
        None \<Rightarrow> gated i a (raw_object_id raw) raw (inbound_finish i) p
      | Some follow_id \<Rightarrow> gated i a (Some follow_id) raw (undo_process i follow_id) p)"

fun receive :: "fed_env \<Rightarrow> ap_activity \<Rightarrow> 'z handler" where
  "receive env (Act_Follow f) p =
     gated (fa_id f) (fa_actor f) (Some (fa_object f)) (follow_json f) (follow_process env f) p"
| "receive env (Act_Accept i a ob) p =
     gated i a (Some (follow_object_id ob)) (act_json ''Accept'' i a (follow_object_json ob))
       (accept_process i (follow_object_id ob)) p"
| "receive env (Act_Reject i a ob) p =
     gated i a (Some (follow_object_id ob)) (act_json ''Reject'' i a (follow_object_json ob))
       (reject_process i (follow_object_id ob)) p"
| "receive env (Act_Undo i a ob) p = undo_receive i a ob p"
| "receive env (Act_Delete i a ob) p =
     gated i a (Some (delete_object_id ob)) (act_json ''Delete'' i a (delete_object_json ob))
       (delete_process i a (delete_object_id ob)) p"
| "receive env (Act_Create i a ob) p =
     gated i a (embedded_object_id ob) (act_json ''Create'' i a ob)
       (create_process env i a ob (embedded_object_id ob)) p"
| "receive env (Act_Update i a ob) p =
     gated i a (embedded_object_id ob) (act_json ''Update'' i a ob)
       (update_process i a ob (embedded_object_id ob)) p"
| "receive env (Act_Move i a ob target) p =
     gated i a (Some ob) (JObj ([(''type'', JStr ''Move''), (''id'', JStr i), (''actor'', JStr a), (''object'', JStr ob),
         (''target'', case target of None \<Rightarrow> JNull | Some u \<Rightarrow> JStr u)]))
       (inbound_finish i) p"
| "receive env (Act_Passthrough i a raw) p = gated i a (raw_object_id raw) raw (inbound_finish i) p"

text \<open>A sequence of deliveries, each ending in success or an error response.\<close>

fun receive_all :: "fed_env \<Rightarrow> ap_activity list \<Rightarrow> 'z pool_scheme \<Rightarrow> 'z pool_scheme" where
  "receive_all env [] p = p"
| "receive_all env (a # as) p = receive_all env as (snd (receive env a p))"

section \<open>Invariants of the inbox\<close>

lemma snd_fed [simp]: "snd (fed r) = snd r"
  by (auto simp: fed_def split: prod.splits sum.splits)

lemma fed_Inr: "fed r = (Inr a, q) \<longleftrightarrow> r = (Inr a, q)"
  and fed_Inl: "fed r = (Inl e, q) \<longleftrightarrow> (\<exists>e'. e = Fed_Db e' \<and> r = (Inl e', q))"
  by (auto simp: fed_def split: prod.splits sum.splits)

definition has_tombstone :: "string \<Rightarrow> db \<Rightarrow> bool" where
  "has_tombstone x d = list_ex (\<lambda>y. tb_ap_id y = x) (tombstones d)"

text \<open>Which tables a statement of the inbox may change.\<close>

lemma footprints:
  "follow_upsert a b i s t d = Inr (r1, d') \<Longrightarrow> d' = d\<lparr>follows := follows d'\<rparr>"
  "follow_set_state a b s t d = Inr (r2, d') \<Longrightarrow> d' = d\<lparr>follows := follows d'\<rparr>"
  "follow_delete a b t d = Inr (r3, d') \<Longrightarrow> d' = d\<lparr>follows := follows d'\<rparr>"
  by (auto simp: follow_upsert_def insert_follow_def fetch_one_def update_follow_def follow_set_state_def
      follow_delete_def Let_def split: if_splits option.splits)

lemma footprints_clips:
  "update_clip i f t d = Inr (r1, d') \<Longrightarrow> d' = d\<lparr>clips := clips d'\<rparr>"
  "clip_create_remote ac x cap du w h u sn cw pub t d = Inr (r2, d') \<Longrightarrow>
     d' = d\<lparr>clips := clips d @ [r2], next_id := next_id d + 1\<rparr>"
  by (auto simp: update_clip_def put_clips_def clip_create_remote_def insert_clip_def Let_def split: if_splits)

lemma footprints_other:
  "update_actor P f t d = Inr (r1, d') \<Longrightarrow> d' = d\<lparr>actors := actors d'\<rparr>"
  "actor_upsert_remote r t d = Inr (r2, d') \<Longrightarrow> d' = d\<lparr>actors := actors d', next_id := next_id d'\<rparr>"
  "tombstone_upsert x ty t d = Inr (r3, d') \<Longrightarrow> d' = d\<lparr>tombstones := tombstones d'\<rparr>"
  "job_create k v ra t d = Inr (j, d') \<Longrightarrow> d' = d\<lparr>jobs := jobs d @ [j], next_id := next_id d + 1\<rparr>"
  "activity_stamp_processed i t d = Inr (r4, d') \<Longrightarrow> d' = d\<lparr>activities := activities d'\<rparr>"
  "activity_try_create_inbound i a ob raw t d = Inr (r5, d') \<Longrightarrow>
     d' = d\<lparr>activities := activities d', next_id := next_id d'\<rparr>"
  "activity_create_outbound i a ob raw t d = Inr (r6, d') \<Longrightarrow>
     d' = d\<lparr>activities := activities d', next_id := next_id d'\<rparr>"
  by (auto simp: update_actor_def put_actors_def actor_upsert_remote_def insert_actor_def fetch_one_def
      tombstone_upsert_def job_create_def activity_stamp_processed_def activity_try_create_inbound_def
      activity_create_outbound_def append_activity_def Let_def split: if_splits option.splits sum.splits)

text \<open>What the reads before storing a clip leave as it was.\<close>

lemma upsert_remote_tombstones: "actor_upsert_remote r t d = Inr (a, d') \<Longrightarrow> tombstones d' = tombstones d"
proof -
  assume "actor_upsert_remote r t d = Inr (a, d')"
  then have "tombstones d' = tombstones (d\<lparr>actors := actors d', next_id := next_id d'\<rparr>)"
    by (rule footprints_other(2) [THEN arg_cong])
  then show ?thesis by simp
qed

lemma tombstoned_InrD:
  "tombstoned x p = (Inr gone, p') \<Longrightarrow> gone = has_tombstone x (db p) \<and> db p' = db p"
  unfolding tombstoned_def fed_def tombstone_exists_def
  by (cases rule: exec_cases [of "tombstone_exists x" p])
     (auto simp: tombstone_exists_def select_def has_tombstone_def list_ex_iff filter_empty_conv)

lemma dereference_keeps:
  assumes "\<And>r. keeps J (actor_upsert_remote r)" and "J (db p)"
  shows "J (db (snd (dereference env i p)))"
  unfolding dereference_def actor_fetch_by_ap_id_def actor_by_def from_json_def
  by (rule try_then_keeps [of J])
     (auto simp: assms(2) keeps_exec [OF assms(1)] split: fetch_plan.splits option.splits)

lemma gate_never_fails: "\<exists>r d'. activity_try_create_inbound i a ob raw t d = Inr (r, d')"
  by (cases "known_activity i d") (simp_all add: activity_try_create_inbound_def append_activity_def Let_def)

lemma parsed_note_id:
  "parse_inbound_note rf ob = Inr n \<Longrightarrow> embedded_object_id ob = Some (pn_id n)"
  by (auto simp: parse_inbound_note_def embedded_object_id_def split: if_splits option.splits)

text \<open>
  A property of the tables that the single statements of the handlers keep, where a remote clip
  is stored only under an id without a tombstone. The inbox keeps every such property, whatever
  is delivered, in whatever order, and however the connection fails.
\<close>

locale inbox_invariant =
  fixes I :: "db \<Rightarrow> bool"
  assumes keep_gate: "keeps I (activity_try_create_inbound i a ob raw)"
    and keep_stamp: "keeps I (activity_stamp_processed i)"
    and keep_outbound: "keeps I (activity_create_outbound i a ob raw)"
    and keep_upsert: "keeps I (follow_upsert x y fi Requested)"
    and keep_set_state: "keeps I (follow_set_state x y s)"
    and keep_delete: "keeps I (follow_delete x y)"
    and keep_tombstone: "keeps I (tombstone_upsert ap ty)"
    and keep_mark_deleted: "keeps I (clip_mark_deleted c)"
    and keep_note_fields: "keeps I (clip_update_note_fields c cap sn cw)"
    and keep_actor_deleted: "keeps I (actor_mark_remote_deleted_by_ap_id ap)"
    and keep_actor_upsert: "keeps I (actor_upsert_remote r)"
    and keep_job: "keeps I (job_create k v None)"
    and keep_create: "\<And>d d'. I d \<Longrightarrow> \<not> has_tombstone ap d \<Longrightarrow>
      clip_create_remote ac ap cap du w h u sn cw pub t d = Inr (cl, d') \<Longrightarrow> I d'"
begin

lemma exec_inv: "keeps I f \<Longrightarrow> I (db p) \<Longrightarrow> I (db (snd (fed (exec f p))))"
  by (simp add: keeps_exec)

lemma bare_exec_inv: "keeps I f \<Longrightarrow> I (db p) \<Longrightarrow> I (db (snd (exec f p)))"
  by (rule keeps_exec)

lemma try_then_inv:
  "I (db (snd r)) \<Longrightarrow> (\<And>a p. I (db p) \<Longrightarrow> I (db (snd (k a p)))) \<Longrightarrow> I (db (snd (try_then r k)))"
  by (rule try_then_keeps [of I])

lemma read_inv: "I (db p) \<Longrightarrow> I (db (snd (fed (exec (select f) p))))"
  by simp

lemma finish_inv: "I (db p) \<Longrightarrow> I (db (snd (inbound_finish i p)))"
  unfolding inbound_finish_def by (intro try_then_inv exec_inv keep_stamp) simp_all

lemma gated_inv:
  "(\<And>p. I (db p) \<Longrightarrow> I (db (snd (body p)))) \<Longrightarrow> I (db p) \<Longrightarrow> I (db (snd (gated i a ob raw body p)))"
  unfolding gated_def inbound_begin_def
  by (intro try_then_inv exec_inv keep_gate) (simp_all split: if_splits)

lemma tombstoned_inv: "I (db p) \<Longrightarrow> I (db (snd (tombstoned x p)))"
  by (simp add: tombstoned_def tombstone_exists_def)

lemma dereference_local_inv: "I (db p) \<Longrightarrow> I (db (snd (dereference_local env x p)))"
  unfolding dereference_local_def actor_fetch_by_ap_id_def actor_by_def
  by (intro try_then_inv read_inv) (auto split: option.splits)

lemma enqueue_inv:
  "I (db p) \<Longrightarrow> I (db (snd (enqueue_delivery x u v p)))"
  "I (db p) \<Longrightarrow> I (db (snd (enqueue_backfill x m p)))"
  unfolding enqueue_delivery_def enqueue_backfill_def
  by (intro try_then_inv exec_inv keep_job; simp)+

lemma auto_accept_inv: "I (db p) \<Longrightarrow> I (db (snd (auto_accept env f x y p)))"
  unfolding auto_accept_def
  by (intro try_then_inv exec_inv keep_set_state)
     (auto simp: Let_def split: option.splits intro!: enqueue_inv bare_exec_inv keep_outbound)

lemma follow_process_inv: "I (db p) \<Longrightarrow> I (db (snd (follow_process env f p)))"
  unfolding follow_process_def
  by (auto intro!: try_then_inv tombstoned_inv dereference_local_inv finish_inv exec_inv keep_upsert
      auto_accept_inv bare_exec_inv simp: case_prod_beta)

lemma follow_row_inv:
  assumes "\<And>f p. I (db p) \<Longrightarrow> I (db (snd (k f p)))" and "I (db p)"
  shows "I (db (snd (try_then (fed (exec (follow_fetch_by_activity_id x) p))
    (\<lambda>row p. case row of None \<Rightarrow> inbound_finish i p | Some f \<Rightarrow> k f p))))"
  unfolding follow_fetch_by_activity_id_def
  using assms by (intro try_then_inv read_inv) (auto intro: finish_inv split: option.splits)

lemma accept_process_inv: "I (db p) \<Longrightarrow> I (db (snd (accept_process i x p)))"
  unfolding accept_process_def
  by (rule follow_row_inv) (auto intro!: try_then_inv bare_exec_inv keep_set_state finish_inv enqueue_inv)

lemma reject_process_inv: "I (db p) \<Longrightarrow> I (db (snd (reject_process i x p)))"
  unfolding reject_process_def
  by (rule follow_row_inv) (auto intro!: try_then_inv bare_exec_inv keep_set_state finish_inv)

lemma undo_process_inv: "I (db p) \<Longrightarrow> I (db (snd (undo_process i x p)))"
  unfolding undo_process_def
  by (rule follow_row_inv) (auto intro!: try_then_inv bare_exec_inv keep_delete finish_inv)

lemma delete_process_inv: "I (db p) \<Longrightarrow> I (db (snd (delete_process i a x p)))"
  unfolding delete_process_def clip_fetch_by_ap_id_def actor_fetch_by_id_def actor_by_def
  by (auto intro!: try_then_inv bare_exec_inv keep_tombstone keep_mark_deleted keep_actor_deleted finish_inv
      split: option.splits)

lemma update_process_inv: "I (db p) \<Longrightarrow> I (db (snd (update_process i a ob x p)))"
  unfolding update_process_def clip_fetch_by_ap_id_def actor_fetch_by_id_def actor_by_def
  by (auto intro!: try_then_inv bare_exec_inv keep_note_fields finish_inv simp: Let_def split: option.splits)

text \<open>The tombstone check of \<^verbatim>\<open>Create\<close> still holds when the clip is stored: dereferencing the author
  in between adds no tombstone.\<close>

lemma store_remote_clip_inv:
  assumes "I (db p)" and "\<not> has_tombstone (pn_id n) (db p)"
  shows "I (db (snd (store_remote_clip n author p)))"
proof -
  obtain st where st: "store_remote_clip n author p = exec st p"
    and keep: "\<And>t c d'. st t (db p) = Inr (c, d') \<Longrightarrow> I d'"
    unfolding store_remote_clip_def using assms keep_create by blast
  show ?thesis
    unfolding st by (cases rule: exec_cases [of st p]) (auto simp: assms keep)
qed

lemma create_process_inv:
  assumes "I (db p)"
  shows "I (db (snd (create_process env i a ob (embedded_object_id ob) p)))"
proof (cases "embedded_object_id ob")
  case None
  with assms show ?thesis by (simp add: create_process_def finish_inv)
next
  case (Some oid)
  define J where "J d \<longleftrightarrow> I d \<and> \<not> has_tombstone oid d" for d
  have upsert: "keeps J (actor_upsert_remote r)" for r
    using keepsD [OF keep_actor_upsert] upsert_remote_tombstones
    by (intro keepsI) (auto simp: J_def has_tombstone_def)
  show ?thesis
  proof (cases "tombstoned oid p")
    case (Pair res q)
    show ?thesis
    proof (cases res)
      case (Inl e)
      with Pair Some show ?thesis using tombstoned_inv [OF assms, of oid] by (simp add: create_process_def)
    next
      case (Inr gone)
      with Pair have q: "gone = has_tombstone oid (db p)" "db q = db p" by (auto dest: tombstoned_InrD)
      show ?thesis
      proof (cases gone)
        case True
        with Some Pair Inr q assms show ?thesis by (simp add: create_process_def finish_inv)
      next
        case False
        with q assms have Jq: "J (db q)" by (simp add: J_def)
        have deref: "J (db (snd (dereference env a q)))" by (rule dereference_keeps [of J, OF upsert Jq])
        have store: "I (db q'')"
          if "store_remote_clip n author q' = (r, q'')" and "J (db q')" and "parse_inbound_note rf ob = Inr n"
          for n author rf q' r q''
          using that(1,2) parsed_note_id [OF that(3)] Some store_remote_clip_inv [of q' n author] by (simp add: J_def)
        show ?thesis
          using False Some Pair Inr Jq deref store
          by (auto simp: create_process_def J_def Let_def dest: store intro!: finish_inv
              split: sum.splits option.splits prod.splits)
      qed
    qed
  qed
qed

lemma receive_gated:
  obtains ob raw body where "receive env act p = gated (act_id act) (act_actor act) ob raw body p"
    and "\<forall>q. I (db q) \<longrightarrow> I (db (snd (body q)))"
proof (cases act)
  case (Act_Undo i a ob)
  then show ?thesis
    using that [of "raw_object_id (act_json ''Undo'' i a ob)" "act_json ''Undo'' i a ob" "inbound_finish i"]
      that [of "undo_follow_target ob" "act_json ''Undo'' i a ob" "undo_process i (the (undo_follow_target ob))"]
    by (cases "undo_follow_target ob") (auto simp: undo_receive_def Let_def finish_inv undo_process_inv)
qed (rule that, simp only: receive.simps act_id.simps act_actor.simps, intro allI impI,
    erule follow_process_inv accept_process_inv reject_process_inv delete_process_inv
      create_process_inv update_process_inv finish_inv)+

lemma receive_inv: "I (db p) \<Longrightarrow> I (db (snd (receive env act p)))"
  by (rule receive_gated [of env act p]) (auto intro: gated_inv)

text \<open>What the gate establishes holds after the delivery, unless the gate was never reached.\<close>

lemma receive_establishes:
  assumes "\<And>ob raw t d r d'. activity_try_create_inbound (act_id act) (act_actor act) ob raw t d = Inr (r, d') \<Longrightarrow> I d'"
    and "link p (ticks p) \<noteq> Down"
  shows "I (db (snd (receive env act p)))"
proof -
  obtain ob raw body where eq: "receive env act p = gated (act_id act) (act_actor act) ob raw body p"
    and body: "\<And>q. I (db q) \<Longrightarrow> I (db (snd (body q)))"
    using receive_gated [of env act p] by blast
  let ?g = "activity_try_create_inbound (act_id act) (act_actor act) ob raw"
  obtain r d' where g: "?g (now p) (db p) = Inr (r, d')"
    using gate_never_fails by blast
  then have "I d'" by (rule assms(1))
  with g body show ?thesis
    using assms(2) unfolding eq gated_def inbound_begin_def
    by (cases "link p (ticks p)") (auto simp: exec_def fed_def Let_def)
qed

lemma receive_all_inv: "I (db p) \<Longrightarrow> I (db (receive_all env as p))"
  by (induction as arbitrary: p) (auto intro: receive_inv)

end

section \<open>What the inbox keeps\<close>

text \<open>The tables each statement leaves alone.\<close>

lemma only_follows: "d' = d\<lparr>follows := F\<rparr> \<Longrightarrow> activities d' = activities d \<and> tombstones d' = tombstones d \<and>
    clips d' = clips d \<and> jobs d' = jobs d \<and> next_id d' = next_id d \<and> actors d' = actors d"
  by simp

lemma only_clips: "d' = d\<lparr>clips := F\<rparr> \<Longrightarrow> activities d' = activities d \<and> tombstones d' = tombstones d \<and>
    follows d' = follows d \<and> jobs d' = jobs d \<and> next_id d' = next_id d \<and> actors d' = actors d"
  by simp

lemma only_actors: "d' = d\<lparr>actors := F, next_id := n\<rparr> \<Longrightarrow> activities d' = activities d \<and>
    tombstones d' = tombstones d \<and> follows d' = follows d \<and> jobs d' = jobs d \<and> clips d' = clips d"
  by simp

lemma only_actor_rows: "d' = d\<lparr>actors := F\<rparr> \<Longrightarrow> activities d' = activities d \<and>
    tombstones d' = tombstones d \<and> follows d' = follows d \<and> jobs d' = jobs d \<and> clips d' = clips d \<and>
    next_id d' = next_id d"
  by simp

lemma only_tombstones: "d' = d\<lparr>tombstones := F\<rparr> \<Longrightarrow> activities d' = activities d \<and> clips d' = clips d \<and>
    follows d' = follows d \<and> jobs d' = jobs d \<and> next_id d' = next_id d \<and> actors d' = actors d"
  by simp

lemma only_activities: "d' = d\<lparr>activities := F, next_id := n\<rparr> \<Longrightarrow> tombstones d' = tombstones d \<and>
    clips d' = clips d \<and> follows d' = follows d \<and> jobs d' = jobs d \<and> actors d' = actors d"
  by simp

lemma only_activity_rows: "d' = d\<lparr>activities := F\<rparr> \<Longrightarrow> tombstones d' = tombstones d \<and>
    clips d' = clips d \<and> follows d' = follows d \<and> jobs d' = jobs d \<and> actors d' = actors d \<and> next_id d' = next_id d"
  by simp

lemmas frames = footprints [THEN only_follows] footprints_clips(1) [THEN only_clips]
  footprints_other(1) [THEN only_actor_rows] footprints_other(2) [THEN only_actors]
  footprints_other(3) [THEN only_tombstones] footprints_other(5) [THEN only_activity_rows]
  footprints_other(6,7) [THEN only_activities]

lemma next_id_grows:
  "actor_upsert_remote r t d = Inr (r2, d') \<Longrightarrow> next_id d \<le> next_id d'"
  "activity_try_create_inbound i a ob raw t d = Inr (r5, d') \<Longrightarrow> next_id d \<le> next_id d'"
  "activity_create_outbound i a ob raw t d = Inr (r6, d') \<Longrightarrow> next_id d \<le> next_id d'"
  by (auto simp: update_actor_def put_actors_def actor_upsert_remote_def insert_actor_def fetch_one_def
      activity_try_create_inbound_def activity_create_outbound_def append_activity_def Let_def
      split: if_splits option.splits sum.splits)

lemma known_gate:
  "activity_try_create_inbound i a ob raw t d = Inr (r, d') \<Longrightarrow> known_activity j d' \<longleftrightarrow> j = i \<or> known_activity j d"
  "activity_create_outbound i a ob raw t d = Inr (r', d') \<Longrightarrow> known_activity j d' \<longleftrightarrow> j = i \<or> known_activity j d"
  by (auto simp: activity_try_create_inbound_def activity_create_outbound_def append_activity_def
      known_activity_def Let_def split: if_splits)

interpretation known: inbox_invariant "known_activity i" for i
proof unfold_locales
  show "keeps (known_activity i) (activity_stamp_processed j)" for j
    by (rule keepsI) (simp add: known_activity_stamp)
  show "keeps (known_activity i) (activity_try_create_inbound j a ob raw)" for j a ob raw
    by (rule keepsI) (simp add: known_gate)
  show "keeps (known_activity i) (activity_create_outbound j a ob raw)" for j a ob raw
    by (rule keepsI) (simp add: known_gate)
qed (auto simp: keeps_def known_activity_def clip_mark_deleted_def clip_update_note_fields_def
    actor_mark_remote_deleted_by_ap_id_def dest: frames footprints_clips(2) footprints_other(4))

text \<open>An object is buried when it has a tombstone and no live clip.\<close>

definition buried :: "string \<Rightarrow> db \<Rightarrow> bool" where
  "buried x d \<longleftrightarrow> has_tombstone x d \<and>
     list_all (\<lambda>c. cl_ap_id c = x \<longrightarrow> cl_status c = Deleted \<and> cl_deleted_at c \<noteq> None) (clips d)"

lemma update_clip_rows:
  "update_clip i f t d = Inr (r, d') \<Longrightarrow>
     clips d' = update_where (\<lambda>c. cl_id c = i) (\<lambda>c. (f t c)\<lparr>cl_updated_at := t\<rparr>) (clips d) \<and>
     tombstones d' = tombstones d"
  by (auto simp: update_clip_def put_clips_def Let_def split: if_splits)

lemma buried_update_clip:
  assumes "\<And>t c. cl_ap_id (f t c) = cl_ap_id c"
    and "\<And>t c. cl_status c = Deleted \<Longrightarrow> cl_status (f t c) = Deleted"
    and "\<And>t c. \<exists>u. cl_deleted_at c = Some u \<Longrightarrow> \<exists>v. cl_deleted_at (f t c) = Some v"
  shows "keeps (buried x) (update_clip i f)"
  by (rule keepsI)
     (auto simp: buried_def has_tombstone_def list_all_iff mem_update_where assms
       dest!: update_clip_rows)

lemma buried_tombstone: "keeps (buried x) (tombstone_upsert y ty)"
  by (rule keepsI) (auto simp: buried_def has_tombstone_def tombstone_upsert_def list_ex_update_where)

interpretation burial: inbox_invariant "buried x" for x
proof unfold_locales
  show "keeps (buried x) (clip_mark_deleted c)" for c
    unfolding clip_mark_deleted_def by (rule buried_update_clip) auto
  show "keeps (buried x) (clip_update_note_fields c cap sn cw)" for c cap sn cw
    unfolding clip_update_note_fields_def by (rule buried_update_clip) auto
  show "keeps (buried x) (tombstone_upsert ap ty)" for ap ty by (rule buried_tombstone)
  show "buried x d'" if "buried x d" "\<not> has_tombstone ap d"
    "clip_create_remote ac ap cap du w h u sn cw pub t d = Inr (cl, d')" for d d' ap ac cap du w h u sn cw pub t cl
    using that by (auto simp: buried_def has_tombstone_def clip_create_remote_def insert_clip_def put_clips_def
        new_clip_def Let_def split: if_splits)
qed (auto simp: keeps_def buried_def has_tombstone_def actor_mark_remote_deleted_by_ap_id_def
    dest!: frames footprints_other(4))

interpretation relations: inbox_invariant follows_ok
proof unfold_locales
qed (auto simp: keeps_def follows_ok_def clip_mark_deleted_def clip_update_note_fields_def
    actor_mark_remote_deleted_by_ap_id_def dest: frames footprints_clips(2) footprints_other(4)
      keepsD [OF follows_ok_upsert, unfolded follows_ok_def] keepsD [OF follows_ok_set_state, unfolded follows_ok_def]
      keepsD [OF follows_ok_delete, unfolded follows_ok_def])

lemma jobs_ok_frame: "jobs_ok d \<Longrightarrow> jobs d' = jobs d \<Longrightarrow> next_id d \<le> next_id d' \<Longrightarrow> jobs_ok d'"
  by (fastforce simp: jobs_ok_def)

lemma jobs_ok_cong: "jobs_ok d \<Longrightarrow> jobs d' = jobs d \<Longrightarrow> next_id d' = next_id d \<Longrightarrow> jobs_ok d'"
  by (simp add: jobs_ok_def)

interpretation queue: inbox_invariant jobs_ok
proof unfold_locales
  show "keeps jobs_ok (job_create k v None)" for k v by (rule jobs_ok_create)
  show "keeps jobs_ok (actor_upsert_remote r)" for r
    by (rule keepsI) (auto intro: jobs_ok_frame dest: frames next_id_grows)
  show "keeps jobs_ok (activity_try_create_inbound i a ob raw)" for i a ob raw
    by (rule keepsI) (auto intro: jobs_ok_frame dest: frames next_id_grows)
  show "keeps jobs_ok (activity_create_outbound i a ob raw)" for i a ob raw
    by (rule keepsI) (auto intro: jobs_ok_frame dest: frames next_id_grows)
  show "jobs_ok d'" if "jobs_ok d" "clip_create_remote ac ap cap du w h u sn cw pub t d = Inr (cl, d')"
    for d d' ap ac cap du w h u sn cw pub t cl
    using that(1) footprints_clips(2) [OF that(2)] by (intro jobs_ok_frame [of d d']) simp_all
qed (auto simp: keeps_def clip_mark_deleted_def clip_update_note_fields_def
    actor_mark_remote_deleted_by_ap_id_def intro: jobs_ok_cong dest!: frames)

section \<open>Properties of the inbox\<close>

text \<open>C3: a delivery whose gate reached the database is final. Whatever arrives in between and
  whatever errors the first attempt met, delivering the activity again changes no table, and it is
  answered with success when the connection is up.\<close>

theorem redelivery_is_idempotent:
  assumes "link p (ticks p) \<noteq> Down" and q_def: "q = receive_all env later (snd (receive env act p))"
  shows "db (snd (receive env act q)) = db q \<and>
    (link q (ticks q) = Up \<longrightarrow> fst (receive env act q) = Inr ())"
proof -
  have "known_activity (act_id act) (db (snd (receive env act p)))"
    by (rule known.receive_establishes) (use assms(1) in \<open>auto simp: known_gate\<close>)
  then have known: "known_activity (act_id act) (db q)"
    unfolding q_def by (rule known.receive_all_inv)
  obtain ob raw body where eq: "receive env act q = gated (act_id act) (act_actor act) ob raw body q"
    using known.receive_gated [of env act q] by metis
  show ?thesis
    using known unfolding eq gated_def inbound_begin_def
    by (cases "link q (ticks q)") (auto simp: exec_def fed_def activity_try_create_inbound_def)
qed

text \<open>C4: deletes win. Once an object is buried no sequence of deliveries, whoever signs them, in
  whatever order and however the connection fails, brings it back: the tombstone stays and no live
  clip with that id appears.\<close>

theorem deletes_win: "buried x (db p) \<Longrightarrow> buried x (db (receive_all env acts p))"
  by (rule burial.receive_all_inv)

text \<open>a \<^verbatim>\<open>Delete\<close> by the owner buries the clip.\<close>

theorem owner_delete_buries:
  assumes up: "\<forall>n. link p n = Up" and new: "\<not> known_activity i (db p)"
    and clip: "c \<in> set (clips (db p))" "cl_ap_id c = x"
    and keys: "clips_unique (clips (db p))"
    and owner: "filter (\<lambda>r. ac_id r = cl_actor_id c) (actors (db p)) = [r]" "ac_ap_id r = a"
  shows "fst (receive env (Act_Delete i a (DO_Url x)) p) = Inr () \<and>
    buried x (db (snd (receive env (Act_Delete i a (DO_Url x)) p)))"
proof -
  have one: "filter (\<lambda>c. cl_ap_id c = x) (clips (db p)) = [c]"
    using filter_unique_on [of "\<lambda>c. Some (cl_ap_id c)" "clips (db p)" c x] keys clip
    by (simp add: clips_unique_def)
  define g where "g t c = c\<lparr>cl_deleted_at := Some t, cl_status := Deleted, cl_updated_at := t\<rparr>"
    for t and c :: clip
  have un: "clips_unique (update_where (\<lambda>s. cl_id s = cl_id c) (g t) (clips (db p)))" for t
    using keys unfolding clips_unique_def
    by (auto intro!: unique_on_weaken simp: g_def active_sha_key_def)
  have others: "s = c" if "s \<in> set (clips (db p))" "cl_ap_id s = x" for s
    using unique_onD [of "\<lambda>c. Some (cl_ap_id c)" "clips (db p)" s c x] keys clip that
    by (simp add: clips_unique_def)
  then have gone: "list_all (\<lambda>c. cl_ap_id c = x \<longrightarrow> cl_status c = Deleted \<and> (\<exists>y. cl_deleted_at c = Some y))
      (update_where (\<lambda>s. cl_id s = cl_id c) (g t) (clips (db p)))" for t
    by (auto simp: list_all_iff mem_update_where g_def)
  show ?thesis
    using un owner
    by (simp add: gone list_ex_update_where gated_def inbound_begin_def delete_process_def inbound_finish_def fed_def exec_up up
        activity_try_create_inbound_def append_activity_def new clip_fetch_by_ap_id_def select_def one
        actor_fetch_by_id_def actor_by_def is_owner_def tombstone_upsert_def clip_mark_deleted_def
        update_clip_def put_clips_def activity_stamp_processed_def Let_def g_def [symmetric] buried_def
        has_tombstone_def)
qed

text \<open>Statements of the pipeline that touch no clip.\<close>

definition clips_are :: "clip list \<Rightarrow> db \<Rightarrow> bool" where
  "clips_are cs d \<longleftrightarrow> clips d = cs"

lemma clips_are_frames:
  "keeps (clips_are cs) (activity_stamp_processed i)" "keeps (clips_are cs) (tombstone_upsert x ty)"
  "keeps (clips_are cs) (actor_mark_remote_deleted_by_ap_id x)"
  by (rule keepsI, auto simp: clips_are_def actor_mark_remote_deleted_by_ap_id_def dest: frames)+

lemma finish_clips: "clips_are cs (db p) \<Longrightarrow> clips_are cs (db (snd (inbound_finish i p)))"
  unfolding inbound_finish_def
  by (rule try_then_keeps [of "clips_are cs"]) (auto intro: keeps_exec [of "clips_are cs"] clips_are_frames)

lemma gated_clips:
  assumes "\<And>q. clips (db q) = clips (db p) \<Longrightarrow> actors (db q) = actors (db p) \<Longrightarrow>
    clips_are (clips (db p)) (db (snd (body q)))"
  shows "clips (db (snd (gated i a ob raw body p))) = clips (db p)"
proof -
  define J where "J d \<longleftrightarrow> clips d = clips (db p) \<and> actors d = actors (db p)" for d :: db
  let ?g = "activity_try_create_inbound i a ob raw"
  have "keeps J ?g" by (rule keepsI) (auto simp: J_def dest: frames)
  then have J: "J (db (snd (exec ?g p)))" by (rule keeps_exec) (simp add: J_def)
  show ?thesis
    unfolding gated_def inbound_begin_def
    using J assms by (cases "exec ?g p"; cases "fst (exec ?g p)")
      (auto simp: fed_def J_def clips_are_def)
qed

text \<open>A handler that looks the clip up and stops where the sender is not the owner.\<close>

lemma owner_check_clips:
  assumes "\<forall>c \<in> set (clips (db p)). cl_ap_id c = x \<longrightarrow>
      (\<forall>r \<in> set (actors (db p)). ac_id r = cl_actor_id c \<longrightarrow> ac_ap_id r \<noteq> a)"
    and none: "\<And>q. clips_are cs (db q) \<Longrightarrow> clips_are cs (db (snd (absent q)))"
    and foreign: "\<And>c author q. \<not> is_owner a author \<Longrightarrow> clips_are cs (db q) \<Longrightarrow>
      clips_are cs (db (snd (found c author q)))"
    and "clips_are cs (db p)"
  shows "clips_are cs (db (snd (try_then (fed (exec (clip_fetch_by_ap_id x) p)) (\<lambda>row p.
    case row of None \<Rightarrow> absent p
    | Some c \<Rightarrow> try_then (fed (exec (actor_fetch_by_id (cl_actor_id c)) p)) (found c)))))"
proof (rule try_then_cases [of _ "\<lambda>p. clips_are cs (db p)"])
  fix row q
  assume "fed (exec (clip_fetch_by_ap_id x) p) = (Inr row, q)"
  then have row: "row = fetch_optional (filter (\<lambda>c. cl_ap_id c = x) (clips (db p)))" "db q = db p"
    by (auto simp: fed_Inr clip_fetch_by_ap_id_def dest: exec_selectD)
  show "clips_are cs (db (snd (case row of None \<Rightarrow> absent q
    | Some c \<Rightarrow> try_then (fed (exec (actor_fetch_by_id (cl_actor_id c)) q)) (found c))))"
  proof (cases row)
    case None
    with row assms(4) show ?thesis by (simp add: none)
  next
    case (Some c)
    with row have c: "c \<in> set (clips (db p))" "cl_ap_id c = x" by (auto dest!: sym [of "Some c"])
    show ?thesis
      unfolding Some option.case
    proof (rule try_then_cases [of _ "\<lambda>p. clips_are cs (db p)"])
      fix author q'
      assume "fed (exec (actor_fetch_by_id (cl_actor_id c)) q) = (Inr author, q')"
      then have au: "author = fetch_optional (filter (\<lambda>r. ac_id r = cl_actor_id c) (actors (db p)))" "db q' = db p"
        using row by (auto simp: fed_Inr actor_fetch_by_id_def actor_by_def dest: exec_selectD)
      then have "\<not> is_owner a author"
        using assms(1) c by (fastforce simp: is_owner_def split: option.splits dest: fetch_optional_Some_mem)
      with au assms(4) show "clips_are cs (db (snd (found c author q')))" by (simp add: foreign)
    qed (use row assms(4) in \<open>auto simp: fed_Inl actor_fetch_by_id_def actor_by_def dest!: exec_selectD\<close>)
  qed
qed (use assms(4) in \<open>auto simp: fed_Inl clip_fetch_by_ap_id_def dest!: exec_selectD\<close>)

lemma forged_delete_clips:
  assumes "\<forall>c \<in> set (clips (db p)). cl_ap_id c = x \<longrightarrow>
      (\<forall>r \<in> set (actors (db p)). ac_id r = cl_actor_id c \<longrightarrow> ac_ap_id r \<noteq> a)"
    and "clips_are cs (db p)"
  shows "clips_are cs (db (snd (delete_process i a x p)))"
  unfolding delete_process_def
  by (intro owner_check_clips [where found = "\<lambda>c author p. if is_owner a author then _ c p else inbound_finish i p",
        OF assms(1) _ _ assms(2)])
     (auto intro!: finish_clips try_then_keeps [of "clips_are cs"] keeps_exec [of "clips_are cs"] clips_are_frames)

lemma forged_update_clips:
  assumes "\<forall>c \<in> set (clips (db p)). cl_ap_id c = x \<longrightarrow>
      (\<forall>r \<in> set (actors (db p)). ac_id r = cl_actor_id c \<longrightarrow> ac_ap_id r \<noteq> a)"
    and "clips_are cs (db p)"
  shows "clips_are cs (db (snd (update_process i a ob (Some x) p)))"
  unfolding update_process_def option.case
  by (rule owner_check_clips [OF assms(1) _ _ assms(2)]) (auto intro: finish_clips simp: Let_def)

text \<open>C5: only its author edits a clip. A \<^verbatim>\<open>Delete\<close> or \<^verbatim>\<open>Update\<close> signed by an actor that is not the
  author of the clip it names leaves every clip as it is.\<close>

theorem forged_edit_changes_no_clip:
  assumes act: "act = Act_Delete i a ob \<and> x = Some (delete_object_id ob) \<or>
      act = Act_Update i a note \<and> x = embedded_object_id note"
    and foreign: "\<forall>c \<in> set (clips (db p)). Some (cl_ap_id c) = x \<longrightarrow>
      (\<forall>r \<in> set (actors (db p)). ac_id r = cl_actor_id c \<longrightarrow> ac_ap_id r \<noteq> a)"
  shows "clips (db (snd (receive env act p))) = clips (db p)"
  using act
proof
  assume d: "act = Act_Delete i a ob \<and> x = Some (delete_object_id ob)"
  show ?thesis
    unfolding conjunct1 [OF d] receive.simps
    using foreign d by (intro gated_clips forged_delete_clips) (simp_all add: clips_are_def)
next
  assume u: "act = Act_Update i a note \<and> x = embedded_object_id note"
  show ?thesis
  proof (cases x)
    case None
    have "clips_are cs (db (snd (update_process i a note None q)))" if "clips_are cs (db q)" for cs and q :: "'a pool_scheme"
      using that by (simp add: update_process_def finish_clips)
    with None u show ?thesis
      unfolding conjunct1 [OF u] receive.simps by (intro gated_clips) (auto simp: clips_are_def)
  next
    case (Some y)
    with u have y: "embedded_object_id note = Some y" by simp
    show ?thesis
      unfolding conjunct1 [OF u] receive.simps y
      using foreign Some by (intro gated_clips forged_update_clips) (simp_all add: clips_are_def)
  qed
qed

text \<open>what is delivered keeps the relations and the job queue consistent: one row per pair of
  actors, and every job in an admissible state under a fresh id.\<close>

theorem inbox_keeps_tables_consistent:
  "follows_ok (db p) \<Longrightarrow> jobs_ok (db p) \<Longrightarrow>
     follows_ok (db (receive_all env acts p)) \<and> jobs_ok (db (receive_all env acts p))"
  by (simp add: relations.receive_all_inv queue.receive_all_inv)

lemmas pipeline_defs = gated_def inbound_begin_def inbound_finish_def fed_def
  activity_try_create_inbound_def append_activity_def activity_stamp_processed_def select_def Let_def

lemma relation_cong: "follows d' = follows d \<Longrightarrow> relation d' x y = relation d x y"
  by (simp add: relation_def)

lemma answer_follows:
  assumes up: "\<forall>n. link p n = Up" and new: "\<not> known_activity i (db p)"
    and row: "fetch_optional (filter (\<lambda>f. sql_eq (fo_ap_activity_id f) (Some fid)) (follows (db p))) = Some f"
  shows "\<exists>t r d. follow_set_state (fo_follower_actor_id f) (fo_target_actor_id f) Accepted t (db p) = Inr (r, d) \<and>
      follows (db (snd (receive env (Act_Accept i anyone (FO_Url fid)) p))) = follows d" (is ?accept)
    and "\<exists>t r d. follow_set_state (fo_follower_actor_id f) (fo_target_actor_id f) Rejected t (db p) = Inr (r, d) \<and>
      follows (db (snd (receive env (Act_Reject i anyone (FO_Url fid)) p))) = follows d" (is ?reject)
    and "\<exists>t r d. follow_delete (fo_follower_actor_id f) (fo_target_actor_id f) t (db p) = Inr (r, d) \<and>
      follows (db (snd (receive env (Act_Undo i anyone (JStr fid)) p))) = follows d" (is ?undo)
proof -
  note defs = pipeline_defs follow_fetch_by_activity_id_def follow_set_state_def update_follow_def follow_delete_def
  show ?accept
    by (rule exI [of _ "clock p (Suc (Suc (ticks p)))"])
       (simp add: defs exec_up up new row accept_process_def enqueue_backfill_def job_create_def now_def)
  show ?reject
    by (rule exI [of _ "clock p (Suc (Suc (ticks p)))"])
       (simp add: defs exec_up up new row reject_process_def now_def)
  show ?undo
    by (rule exI [of _ "clock p (Suc (Suc (ticks p)))"])
       (simp add: defs exec_up up new row undo_receive_def undo_process_def now_def)
qed


text \<open>C10: a \<^verbatim>\<open>Delete\<close> whose object is no stored clip buries the id and marks every actor row with that
  id as deleted, whoever signed it and also when the row is a local account.\<close>

theorem delete_of_actor_ignores_sender:
  assumes up: "\<forall>n. link p n = Up" and new: "\<not> known_activity i (db p)"
    and no_clip: "\<forall>c \<in> set (clips (db p)). cl_ap_id c \<noteq> x"
    and keys: "actors_unique (actors (db p))" and row: "r \<in> set (actors (db p))" "ac_ap_id r = x"
  shows "buried x (db (snd (receive env (Act_Delete i anyone (DO_Url x)) p))) \<and>
    (\<exists>r' \<in> set (actors (db (snd (receive env (Act_Delete i anyone (DO_Url x)) p)))).
       ac_id r' = ac_id r \<and> ac_domain r' = ac_domain r \<and> ac_deleted_at r' \<noteq> None)"
proof -
  have none: "filter (\<lambda>c. cl_ap_id c = x) (clips (db p)) = []"
    using no_clip by (simp add: filter_empty_conv)
  have un: "actors_unique (update_where (\<lambda>a. ac_ap_id a = x)
      (\<lambda>a. a\<lparr>ac_deleted_at := Some t, ac_updated_at := t\<rparr>) (actors (db p)))" for t
    using keys by (simp add: actors_unique_def unique_on_update_where local_username_key_def)
  have dead: "list_all (\<lambda>c. cl_ap_id c = x \<longrightarrow> cl_status c = Deleted \<and> (\<exists>y. cl_deleted_at c = Some y)) (clips (db p))"
    using no_clip by (simp add: list_all_iff)
  show ?thesis
    by (auto simp: pipeline_defs exec_up up new none un dead delete_process_def clip_fetch_by_ap_id_def
        tombstone_upsert_def actor_mark_remote_deleted_by_ap_id_def update_actor_def put_actors_def buried_def
        has_tombstone_def list_ex_update_where bex_update_where intro!: bexI [of _ r] row)
qed

text \<open>The rows after an upsert of a relation between two known actors.\<close>

definition upsert_rows :: "int \<Rightarrow> int \<Rightarrow> string option \<Rightarrow> follow_state \<Rightarrow> timestamp \<Rightarrow> follow list \<Rightarrow> follow list" where
  "upsert_rows u v i s t rs = (if list_ex (follow_pair u v) rs
     then update_where (follow_pair u v) (\<lambda>x. x\<lparr>fo_ap_activity_id := coalesce i (fo_ap_activity_id x),
       fo_state := s, fo_updated_at := t\<rparr>) rs
     else rs @ [new_follow u v i s t])"

lemma follow_upsert_known:
  assumes "has_actor u d" and "has_actor v d"
  shows "\<exists>r. follow_upsert u v i s t d = Inr (r, d\<lparr>follows := upsert_rows u v i s t (follows d)\<rparr>)"
  using assms
  by (cases "filter (follow_pair u v) (follows d)")
     (auto simp: follow_upsert_def upsert_rows_def insert_follow_def new_follow_def fetch_one_def update_follow_def
       returning_def Let_def no_follow_filter [symmetric] list_ex_iff filter_empty_conv dest: filter_eq_ConsD)

lemma relation_upsert_rows:
  assumes "has_actor u d" and "has_actor v d" and "follows d' = upsert_rows u v i s t (follows d)"
  shows "relation d' x y = (if (x, y) = (u, v) then Some s else relation d x y)"
proof -
  obtain r where "follow_upsert u v i s t d = Inr (r, d\<lparr>follows := upsert_rows u v i s t (follows d)\<rparr>)"
    using follow_upsert_known [OF assms(1,2)] by blast
  from relation_upsert [OF this] show ?thesis
    using relation_cong [of d' "d\<lparr>follows := upsert_rows u v i s t (follows d)\<rparr>" x y] assms(3) by auto
qed

lemma has_actor_filter: "filter P (actors d) = [a] \<Longrightarrow> has_actor (ac_id a) d"
  by (auto simp: has_actor_def list_ex_iff dest!: filter_eq_ConsD)

lemma relation_set_state_rows:
  assumes "follows d' = update_where (follow_pair u v) (\<lambda>x. x\<lparr>fo_state := s, fo_updated_at := t\<rparr>) (follows d)"
  shows "relation d' x y = (if (x, y) = (u, v) then map_option (\<lambda>_. s) (relation d u v) else relation d x y)"
proof -
  let ?g = "\<lambda>x. x\<lparr>fo_state := s, fo_updated_at := t\<rparr>"
  have "follow_set_state u v s t d = Inr (fetch_optional (returning (follow_pair u v) ?g (follows d)),
      d\<lparr>follows := update_where (follow_pair u v) ?g (follows d)\<rparr>)"
    by (simp add: follow_set_state_def update_follow_def Let_def)
  from relation_set_state [OF this, of x y] show ?thesis
    using relation_cong [of d' "d\<lparr>follows := update_where (follow_pair u v) ?g (follows d)\<rparr>" x y] assms by simp
qed

lemma follow_received:
  assumes up: "\<forall>n. link p n = Up" and new: "\<not> known_activity (fa_id f) (db p)"
    and alive: "\<not> has_tombstone (fa_object f) (db p)"
    and target: "filter (\<lambda>a. ac_ap_id a = fa_object f) (actors (db p)) = [target]"
      "fe_parse_url env (ac_ap_id target) = Some tu" "is_local_url tu (fe_domain env)"
    and follower: "filter (\<lambda>a. ac_ap_id a = fa_actor f) (actors (db p)) = [follower]"
      "fe_parse_url env (ac_ap_id follower) = Some fu" "actor_delivery_inbox env follower = Some inbox"
    and F: "F = upsert_rows (ac_id follower) (ac_id target) (Some (fa_id f)) Requested
      (clock p (ticks p + 4)) (follows (db p))"
  shows "fst (receive env (Act_Follow f) p) = Inr ()"
    and "follows (db (snd (receive env (Act_Follow f) p))) = (if ac_is_locked target then F
      else update_where (follow_pair (ac_id follower) (ac_id target))
        (\<lambda>x. x\<lparr>fo_state := Accepted, fo_updated_at := clock p (ticks p + 5)\<rparr>) F)"
    and "ac_is_locked target \<Longrightarrow> jobs (db (snd (receive env (Act_Follow f) p))) = jobs (db p)"
    and "\<not> ac_is_locked target \<Longrightarrow> \<exists>j v. jobs (db (snd (receive env (Act_Follow f) p))) = jobs (db p) @ [j] \<and>
      jb_kind j = ''deliver'' \<and> jb_state j = Queued \<and> jb_payload j = JObj [(''actor_id'', JInt (ac_id target)),
        (''inbox_url'', JStr inbox), (''activity'', v)] \<and> get_str ''type'' v = Some ''Accept''"
proof -
  have ex: "\<exists>r. follow_upsert (ac_id follower) (ac_id target) (Some (fa_id f)) Requested (clock p (ticks p + 4)) d =
      Inr (r, d\<lparr>follows := F\<rparr>)" if "actors d = actors (db p)" "follows d = follows (db p)" for d
    using follow_upsert_known [of "ac_id follower" d "ac_id target" "Some (fa_id f)" Requested "clock p (ticks p + 4)"]
      has_actor_filter [OF target(1)] has_actor_filter [OF follower(1)] that F
    by (simp add: has_actor_def)
  note defs = pipeline_defs exec_up up new follow_process_def tombstoned_def tombstone_exists_def
    dereference_local_def actor_fetch_by_ap_id_def actor_by_def from_row_def target follower auto_accept_def
    enqueue_delivery_def job_create_def now_def follow_set_state_def update_follow_def
    activity_create_outbound_def
  let ?d = "(db p)\<lparr>activities := activities (db p) @ [\<lparr>av_id = next_id (db p), av_activity_id = fa_id f,
      av_direction = Inbound, av_actor_ap_id = fa_actor f, av_object_ap_id = Some (fa_object f),
      av_raw = follow_json f, av_received_at = now p, av_processed_at = None\<rparr>], next_id := next_id (db p) + 1\<rparr>"
  obtain r where up1: "follow_upsert (ac_id follower) (ac_id target) (Some (fa_id f)) Requested
      (clock p (Suc (Suc (Suc (Suc (ticks p)))))) ?d = Inr (r, ?d\<lparr>follows := F\<rparr>)"
    using ex [of ?d] by (auto simp: numeral_eq_Suc)
  have gone: "\<not> list_ex (\<lambda>x. tb_ap_id x = fa_object f) (tombstones (db p))"
    using alive by (simp add: has_tombstone_def)
  show "fst (receive env (Act_Follow f) p) = Inr ()"
    using up1 gone by (simp add: defs split: if_splits)
  show "follows (db (snd (receive env (Act_Follow f) p))) = (if ac_is_locked target then F
      else update_where (follow_pair (ac_id follower) (ac_id target))
        (\<lambda>x. x\<lparr>fo_state := Accepted, fo_updated_at := clock p (ticks p + 5)\<rparr>) F)"
    using up1 gone by (simp add: defs numeral_eq_Suc split: if_splits)
  show "ac_is_locked target \<Longrightarrow> jobs (db (snd (receive env (Act_Follow f) p))) = jobs (db p)"
    using up1 gone by (simp add: defs)
  show "\<not> ac_is_locked target \<Longrightarrow> \<exists>j v. jobs (db (snd (receive env (Act_Follow f) p))) = jobs (db p) @ [j] \<and>
      jb_kind j = ''deliver'' \<and> jb_state j = Queued \<and> jb_payload j = JObj [(''actor_id'', JInt (ac_id target)),
        (''inbox_url'', JStr inbox), (''activity'', v)] \<and> get_str ''type'' v = Some ''Accept''"
    using up1 gone
    by (simp add: defs accept_activity_def context_member_def get_str_def split: if_splits)
qed

text \<open>the follow handshake. A \<^verbatim>\<open>Follow\<close> of a local actor by a known remote actor records the
  relation and no other: requested when the target is locked, and otherwise accepted, with one
  \<^verbatim>\<open>Accept\<close> queued for delivery to the follower's inbox.\<close>

theorem follow_handshake:
  assumes up: "\<forall>n. link p n = Up" and new: "\<not> known_activity (fa_id f) (db p)"
    and alive: "\<not> has_tombstone (fa_object f) (db p)"
    and target: "filter (\<lambda>a. ac_ap_id a = fa_object f) (actors (db p)) = [target]"
      "fe_parse_url env (ac_ap_id target) = Some tu" "is_local_url tu (fe_domain env)"
    and follower: "filter (\<lambda>a. ac_ap_id a = fa_actor f) (actors (db p)) = [follower]"
      "fe_parse_url env (ac_ap_id follower) = Some fu" "actor_delivery_inbox env follower = Some inbox"
    and q: "q = snd (receive env (Act_Follow f) p)"
  shows "fst (receive env (Act_Follow f) p) = Inr () \<and>
    relation (db q) x y = (if (x, y) = (ac_id follower, ac_id target)
      then Some (if ac_is_locked target then Requested else Accepted) else relation (db p) x y) \<and>
    (if ac_is_locked target then jobs (db q) = jobs (db p)
     else \<exists>j v. jobs (db q) = jobs (db p) @ [j] \<and> jb_kind j = ''deliver'' \<and> jb_state j = Queued \<and>
       jb_payload j = JObj [(''actor_id'', JInt (ac_id target)), (''inbox_url'', JStr inbox), (''activity'', v)] \<and>
       get_str ''type'' v = Some ''Accept'')"
proof -
  define F where "F = upsert_rows (ac_id follower) (ac_id target) (Some (fa_id f)) Requested
      (clock p (ticks p + 4)) (follows (db p))"
  note got = follow_received [OF up new alive target follower F_def, folded q]
  note known = has_actor_filter [OF follower(1)] has_actor_filter [OF target(1)]
  have F: "relation ((db p)\<lparr>follows := F\<rparr>) x y = (if (x, y) = (ac_id follower, ac_id target)
      then Some Requested else relation (db p) x y)" for x y
    by (rule relation_upsert_rows [OF known]) (simp add: F_def)
  have "relation (db q) x y = (if (x, y) = (ac_id follower, ac_id target)
      then Some (if ac_is_locked target then Requested else Accepted) else relation (db p) x y)"
  proof (cases "ac_is_locked target")
    case True
    then show ?thesis using got(2) F relation_cong [of "db q" "(db p)\<lparr>follows := F\<rparr>" x y] by simp
  next
    case False
    then show ?thesis
      using relation_set_state_rows [of "db q" "ac_id follower" "ac_id target" _ Accepted "(db p)\<lparr>follows := F\<rparr>" x y]
        got(2) F by simp
  qed
  then show ?thesis using got(1,3,4) by simp
qed

text \<open>What a stored remote clip looks like.\<close>

definition remote_clip_of :: "parsed_note \<Rightarrow> clip \<Rightarrow> bool" where
  "remote_clip_of n c \<longleftrightarrow> cl_ap_id c = pn_id n \<and> cl_origin c = Remote \<and> cl_status c = Ready \<and>
     cl_caption_html c = nonempty (map_option strip_html_tags (pn_content_html n)) \<and>
     cl_remote_media_url c = Some (pa_media_url (pn_attachment n))"

lemma created_remote_clip:
  assumes "clip_create_remote ac (pn_id n) (nonempty (map_option strip_html_tags (pn_content_html n))) du w h
    (pa_media_url (pn_attachment n)) sn cw pub t d = Inr (c, d')"
  shows "clips d' = clips d @ [c] \<and> remote_clip_of n c"
  using assms
  by (auto simp: clip_create_remote_def insert_clip_def put_clips_def new_clip_def remote_clip_of_def Let_def
      split: if_splits)

lemma store_remote_clip_rows:
  "store_remote_clip n author p = (r, q) \<Longrightarrow> clips (db q) = clips (db p) \<or>
     (\<exists>c. remote_clip_of n c \<and> clips (db q) = clips (db p) @ [c])"
  unfolding store_remote_clip_def by (drule exec_post) (auto dest: created_remote_clip)

lemma remote_clip_caption:
  assumes "remote_clip_of n c" and "cl_caption_html c = Some s"
  shows "set s \<inter> markup_chars = {}"
  using assms escape_html_inert
  by (auto simp: remote_clip_of_def nonempty_def opt_filter_def strip_html_tags_def split: option.splits if_splits)

text \<open>A table of clips that is unchanged, or extended by the clip of the note.\<close>

definition clips_grow :: "clip list \<Rightarrow> parsed_note \<Rightarrow> db \<Rightarrow> bool" where
  "clips_grow cs n d \<longleftrightarrow> clips d = cs \<or> (\<exists>c. remote_clip_of n c \<and> clips d = cs @ [c])"

lemma finish_grow: "clips_grow cs n (db p) \<Longrightarrow> clips_grow cs n (db (snd (inbound_finish i p)))"
  unfolding clips_grow_def using finish_clips [of _ p i] unfolding clips_are_def by metis

lemma dereference_clips: "clips (db (snd (dereference env i p))) = clips (db p)"
proof -
  have "keeps (clips_are (clips (db p))) (actor_upsert_remote r)" for r
    by (rule keepsI) (auto simp: clips_are_def dest: frames)
  then show ?thesis
    using dereference_keeps [of "clips_are (clips (db p))" p env i] by (simp add: clips_are_def)
qed

lemma create_process_clips:
  assumes "create_process env i a ob (embedded_object_id ob) p = (r, q)" and "clips (db q) \<noteq> clips (db p)"
  shows "\<exists>n u. parse_inbound_note (fe_parse_rfc3339 env) ob = Inr n \<and> clips_grow (clips (db p)) n (db q) \<and>
    \<not> has_tombstone (pn_id n) (db p) \<and> fe_parse_url env (pn_attributed_to n) = Some u \<and> u_str u = a \<and>
    \<not> is_local_url u (fe_domain env)"
proof -
  let ?cs = "clips (db p)"
  have fin: "clips (db (snd (inbound_finish i q'))) = ?cs" if "clips (db q') = ?cs" for q'
    using finish_clips [of ?cs q' i] that by (simp add: clips_are_def)
  have quiet: "clips (db q') = ?cs" if "inbound_finish i p' = (r', q')" "clips (db p') = ?cs" for p' r' q'
    using fin [of p'] that by simp
  obtain oid where oid: "embedded_object_id ob = Some oid"
    using assms quiet [of p] by (cases "embedded_object_id ob") (auto simp: create_process_def)
  obtain res p1 where t: "tombstoned oid p = (res, p1)" by fastforce
  have p1: "db p1 = db p" using t unfolding tombstoned_def tombstone_exists_def
    by (cases res) (auto simp: fed_Inr fed_Inl dest!: exec_selectD)
  obtain gone where gone: "res = Inr gone" "\<not> gone"
    using assms oid t p1 quiet [of p1] by (cases res) (auto simp: create_process_def split: if_splits)
  have alive: "\<not> has_tombstone oid (db p)" using tombstoned_InrD t gone by blast
  obtain n where n: "parse_inbound_note (fe_parse_rfc3339 env) ob = Inr n"
    using assms oid t p1 gone quiet [of p1] by (cases "parse_inbound_note (fe_parse_rfc3339 env) ob") (auto simp: create_process_def)
  have id: "oid = pn_id n" using parsed_note_id [OF n] oid by simp
  obtain u where u: "fe_parse_url env (pn_attributed_to n) = Some u" "u_str u = a" "\<not> is_local_url u (fe_domain env)"
    using assms oid t p1 gone n quiet [of p1]
    by (cases "fe_parse_url env (pn_attributed_to n)") (auto simp: create_process_def split: if_splits)
  obtain dr p2 where d: "dereference env a p1 = (dr, p2)" by fastforce
  have p2: "clips (db p2) = ?cs" using dereference_clips [of env a p1] d p1 by simp
  have "clips_grow ?cs n (db q)"
  proof (cases dr)
    case (Inl e)
    with assms oid t p1 gone n u d p2 quiet [of p2] show ?thesis by (auto simp: create_process_def)
  next
    case (Inr author)
    obtain sr p3 where st: "store_remote_clip n author p2 = (sr, p3)" by fastforce
    have p3: "clips_grow ?cs n (db p3)"
      using store_remote_clip_rows [OF st] p2 by (simp add: clips_grow_def)
    then have "clips_grow ?cs n (db (snd (inbound_finish i p3)))" by (rule finish_grow)
    with p3 assms(1) oid t gone n u d Inr st show ?thesis
      by (auto simp: create_process_def split: sum.splits if_splits)
  qed
  with n u alive id show ?thesis by blast
qed


section \<open>A small instance\<close>

text \<open>The server \<^verbatim>\<open>a.test\<close> with its user alice, a cached remote actor bob with one clip, and a pending
  follow of bob by alice. URLs are split at the third slash; documents are never fetched.\<close>

definition demo_parse_url :: "string \<Rightarrow> url option" where
  "demo_parse_url s = (if starts_with ''https://'' s
     then Some \<lparr>u_str = s, u_scheme = ''https'',
       u_host = Some (takeWhile (\<lambda>c. c \<noteq> CHR ''/'') (drop 8 s)), u_port = None\<rparr>
     else None)"

definition demo_env :: fed_env where
  "demo_env = \<lparr>fe_domain = ''a.test'', fe_base_url = ''https://a.test'', fe_parse_url = demo_parse_url,
     fe_uuid = show_nat, fe_parse_rfc3339 = demo_parse_rfc3339, fe_tombstone_id = (\<lambda>_. None),
     fe_fetch = (\<lambda>_ _. Use_Cached)\<rparr>"

definition demo_bob :: actor where
  "demo_bob = demo_author\<lparr>ac_id := 2, ac_username := ''bob'', ac_domain := Some ''b.test'',
     ac_private_key_pem := None, ac_ap_id := ''https://b.test/bob'', ac_inbox_url := ''https://b.test/bob/inbox'',
     ac_shared_inbox_url := None\<rparr>"

definition demo_bob_clip :: clip where
  "demo_bob_clip = demo_clip\<lparr>cl_id := 8, cl_actor_id := 2, cl_ap_id := ''https://b.test/8'',
     cl_origin := Remote, cl_sha256_hash := None\<rparr>"

definition demo_inbox_db :: db where
  "demo_inbox_db = empty_db\<lparr>actors := [demo_author, demo_bob], clips := [demo_bob_clip],
     follows := [new_follow 1 2 (Some ''https://a.test/f'') Requested 3], next_id := 20\<rparr>"

definition demo_inbox :: pool where
  "demo_inbox = \<lparr>db = demo_inbox_db, clock = int, link = (\<lambda>_. Up), ticks = 0\<rparr>"

definition demo_note :: json where
  "demo_note = JObj [(''type'', JStr ''Note''), (''id'', JStr ''https://b.test/9''),
     (''attributedTo'', JStr ''https://b.test/bob''), (''content'', JStr ''<b>hi</b>''),
     (''attachment'', JArr [JObj [(''type'', JStr ''Video''), (''mediaType'', JStr ''video/mp4''),
       (''url'', JStr ''https://b.test/9.mp4'')]])]"

definition demo_bob_delete :: ap_activity where
  "demo_bob_delete = Act_Delete ''https://b.test/d'' ''https://b.test/bob'' (DO_Url ''https://b.test/8'')"

definition demo_bob_create :: ap_activity where
  "demo_bob_create = Act_Create ''https://b.test/c'' ''https://b.test/bob'' demo_note"

theorem redelivery_is_idempotent_witness:
  "db (snd (receive demo_env demo_bob_delete
      (receive_all demo_env [demo_bob_create] (snd (receive demo_env demo_bob_delete demo_inbox))))) =
   db (receive_all demo_env [demo_bob_create] (snd (receive demo_env demo_bob_delete demo_inbox)))"
  using redelivery_is_idempotent [OF _ refl, of demo_inbox demo_env demo_bob_delete "[demo_bob_create]"]
  by (simp add: demo_inbox_def)

theorem deletes_win_witness:
  "buried ''https://b.test/9'' (db (receive_all demo_env [demo_bob_create] (demo_inbox\<lparr>db := demo_inbox_db
     \<lparr>tombstones := [\<lparr>tb_ap_id = ''https://b.test/9'', tb_type = ''Note'', tb_deleted_at = 1\<rparr>]\<rparr>\<rparr>)))"
  by (rule deletes_win) code_simp

theorem owner_delete_buries_witness:
  "buried ''https://b.test/8'' (db (snd (receive demo_env demo_bob_delete demo_inbox)))"
proof -
  have "clips_unique (clips (db demo_inbox))" "\<not> known_activity ''https://b.test/d'' (db demo_inbox)"
    "cl_ap_id demo_bob_clip = ''https://b.test/8''" "ac_ap_id demo_bob = ''https://b.test/bob''"
    by code_simp+
  moreover have "demo_bob_clip \<in> set (clips (db demo_inbox))" "\<forall>n. link demo_inbox n = Up"
    "filter (\<lambda>r. ac_id r = cl_actor_id demo_bob_clip) (actors (db demo_inbox)) = [demo_bob]"
    by (simp_all add: demo_inbox_def demo_inbox_db_def demo_bob_clip_def demo_bob_def demo_author_def)
  ultimately show ?thesis
    unfolding demo_bob_delete_def
    using owner_delete_buries [of demo_inbox "''https://b.test/d''" demo_bob_clip "''https://b.test/8''" demo_bob
      "''https://b.test/bob''" demo_env] by blast
qed

theorem forged_edit_changes_no_clip_witness:
  "clips (db (snd (receive demo_env (Act_Delete ''https://m.test/d'' ''https://m.test/mallory''
     (DO_Url ''https://b.test/8'')) demo_inbox))) = clips (db demo_inbox)"
  by (rule forged_edit_changes_no_clip [where x = "Some ''https://b.test/8''" and a = "''https://m.test/mallory''"
        and i = "''https://m.test/d''" and ob = "DO_Url ''https://b.test/8''"])
     (simp_all add: demo_inbox_def demo_inbox_db_def demo_bob_clip_def demo_bob_def demo_author_def)

theorem inbox_keeps_tables_consistent_witness:
  "follows_ok (db (receive_all demo_env [demo_bob_create, demo_bob_delete] demo_inbox)) \<and>
   jobs_ok (db (receive_all demo_env [demo_bob_create, demo_bob_delete] demo_inbox))"
  by (rule inbox_keeps_tables_consistent) code_simp+


theorem delete_of_actor_ignores_sender_witness:
  "\<exists>r' \<in> set (actors (db (snd (receive demo_env (Act_Delete ''https://m.test/d'' ''https://m.test/mallory''
     (DO_Url ''https://a.test/users/alice'')) demo_inbox)))). ac_id r' = 1 \<and> ac_domain r' = None \<and> ac_deleted_at r' \<noteq> None"
proof -
  have "\<not> known_activity ''https://m.test/d'' (db demo_inbox)" "actors_unique (actors (db demo_inbox))"
    "ac_ap_id demo_author = ''https://a.test/users/alice''" "ac_id demo_author = 1" "ac_domain demo_author = None"
    by code_simp+
  moreover have "\<forall>c \<in> set (clips (db demo_inbox)). cl_ap_id c \<noteq> ''https://a.test/users/alice''"
    "demo_author \<in> set (actors (db demo_inbox))" "\<forall>n. link demo_inbox n = Up"
    by (simp_all add: demo_inbox_def demo_inbox_db_def demo_bob_clip_def)
  ultimately show ?thesis
    using delete_of_actor_ignores_sender [of demo_inbox "''https://m.test/d''" "''https://a.test/users/alice''"
      demo_author demo_env "''https://m.test/mallory''"] by simp
qed

theorem follow_handshake_witness:
  "relation (db (snd (receive demo_env (Act_Follow \<lparr>fa_id = ''https://b.test/f'', fa_actor = ''https://b.test/bob'',
     fa_object = ''https://a.test/users/alice''\<rparr>) demo_inbox))) 2 1 = Some Accepted"
proof -
  let ?f = "\<lparr>fa_id = ''https://b.test/f'', fa_actor = ''https://b.test/bob'', fa_object = ''https://a.test/users/alice''\<rparr>"
  obtain tu fu where urls: "fe_parse_url demo_env (ac_ap_id demo_author) = Some tu"
    "fe_parse_url demo_env (ac_ap_id demo_bob) = Some fu" "is_local_url tu (fe_domain demo_env)"
    by (simp add: demo_env_def demo_parse_url_def demo_author_def demo_bob_def starts_with_def is_local_url_def)
  have "\<not> known_activity ''https://b.test/f'' (db demo_inbox)" "\<not> has_tombstone ''https://a.test/users/alice'' (db demo_inbox)"
    "actor_delivery_inbox demo_env demo_bob = Some ''https://b.test/bob/inbox''"
    "ac_id demo_author = 1" "ac_id demo_bob = 2" "\<not> ac_is_locked demo_author"
    by code_simp+
  moreover have "filter (\<lambda>a. ac_ap_id a = ''https://a.test/users/alice'') (actors (db demo_inbox)) = [demo_author]"
    "filter (\<lambda>a. ac_ap_id a = ''https://b.test/bob'') (actors (db demo_inbox)) = [demo_bob]" "\<forall>n. link demo_inbox n = Up"
    by (simp_all add: demo_inbox_def demo_inbox_db_def demo_bob_def demo_author_def)
  ultimately show ?thesis
    using follow_handshake [of demo_inbox ?f demo_author demo_env tu demo_bob fu "''https://b.test/bob/inbox''" _ 2 1] urls
    by simp
qed


end
