(* ===== verification/Egress.thy ===== *)
theory Egress
  imports Prelude
begin

unbundle bit_operations_syntax

text \<open>
  The egress guard (\<^verbatim>\<open>crates/federation/src/egress.rs\<close> and \<^verbatim>\<open>resolver.rs\<close>): which addresses the
  server may connect to, pinning a host to the address that was validated, the clients built on
  the pins, the validation of media URLs and the guarded DNS resolver. Addresses are octets and
  segments at their width. DNS answers, the recognition of IP literals by the crate \<^verbatim>\<open>url\<close> and by
  \<^verbatim>\<open>IpAddr::from_str\<close> are parameters. The mutexes are never poisoned, since no code that holds
  them can panic; timeouts and the user agent of the clients are left out.
\<close>

section \<open>Addresses\<close>

datatype v4 = V4 "8 word" "8 word" "8 word" "8 word"

datatype v6 = V6 "16 word" "16 word" "16 word" "16 word" "16 word" "16 word" "16 word" "16 word"

datatype ip = IP4 v4 | IP6 v6

text \<open>The predicates of \<^verbatim>\<open>std::net\<close> that the policy uses.\<close>

fun v4_is_unspecified :: "v4 \<Rightarrow> bool" where
  "v4_is_unspecified (V4 a b c d) \<longleftrightarrow> a = 0 \<and> b = 0 \<and> c = 0 \<and> d = 0"

fun v4_is_loopback :: "v4 \<Rightarrow> bool" where
  "v4_is_loopback (V4 a b c d) \<longleftrightarrow> a = 127"

fun v4_is_private :: "v4 \<Rightarrow> bool" where
  "v4_is_private (V4 a b c d) \<longleftrightarrow>
     a = 10 \<or> (a = 172 \<and> 16 \<le> b \<and> b \<le> 31) \<or> (a = 192 \<and> b = 168)"

fun v4_is_link_local :: "v4 \<Rightarrow> bool" where
  "v4_is_link_local (V4 a b c d) \<longleftrightarrow> a = 169 \<and> b = 254"

fun v4_is_broadcast :: "v4 \<Rightarrow> bool" where
  "v4_is_broadcast (V4 a b c d) \<longleftrightarrow> a = 255 \<and> b = 255 \<and> c = 255 \<and> d = 255"

fun v4_is_documentation :: "v4 \<Rightarrow> bool" where
  "v4_is_documentation (V4 a b c d) \<longleftrightarrow>
     (a = 192 \<and> b = 0 \<and> c = 2) \<or> (a = 198 \<and> b = 51 \<and> c = 100) \<or> (a = 203 \<and> b = 0 \<and> c = 113)"

fun v4_is_multicast :: "v4 \<Rightarrow> bool" where
  "v4_is_multicast (V4 a b c d) \<longleftrightarrow> 224 \<le> a \<and> a \<le> 239"

fun v6_is_unspecified :: "v6 \<Rightarrow> bool" where
  "v6_is_unspecified (V6 a b c d e f g h) \<longleftrightarrow>
     a = 0 \<and> b = 0 \<and> c = 0 \<and> d = 0 \<and> e = 0 \<and> f = 0 \<and> g = 0 \<and> h = 0"

fun v6_is_loopback :: "v6 \<Rightarrow> bool" where
  "v6_is_loopback (V6 a b c d e f g h) \<longleftrightarrow>
     a = 0 \<and> b = 0 \<and> c = 0 \<and> d = 0 \<and> e = 0 \<and> f = 0 \<and> g = 0 \<and> h = 1"

fun v6_is_unique_local :: "v6 \<Rightarrow> bool" where
  "v6_is_unique_local (V6 a b c d e f g h) \<longleftrightarrow> a AND 0xfe00 = 0xfc00"

fun v6_is_unicast_link_local :: "v6 \<Rightarrow> bool" where
  "v6_is_unicast_link_local (V6 a b c d e f g h) \<longleftrightarrow> a AND 0xffc0 = 0xfe80"

fun v6_is_multicast :: "v6 \<Rightarrow> bool" where
  "v6_is_multicast (V6 a b c d e f g h) \<longleftrightarrow> a AND 0xff00 = 0xff00"

text \<open>\<^verbatim>\<open>to_ipv4_mapped\<close>: \<^verbatim>\<open>::ffff:a.b.c.d\<close>.\<close>

fun to_ipv4_mapped :: "v6 \<Rightarrow> v4 option" where
  "to_ipv4_mapped (V6 a b c d e f g h) =
     (if a = 0 \<and> b = 0 \<and> c = 0 \<and> d = 0 \<and> e = 0 \<and> f = 0xffff
      then Some (V4 (ucast (drop_bit 8 g)) (ucast g) (ucast (drop_bit 8 h)) (ucast h))
      else None)"

section \<open>The policy\<close>

fun v4_is_cgnat :: "v4 \<Rightarrow> bool" where
  "v4_is_cgnat (V4 a b c d) \<longleftrightarrow> a = 100 \<and> b AND 0xC0 = 0x40"

fun v4_is_special :: "v4 \<Rightarrow> bool" where
  "v4_is_special (V4 a b c d) \<longleftrightarrow>
     (a = 192 \<and> b = 0 \<and> c = 0) \<or> (a = 198 \<and> (b = 18 \<or> b = 19)) \<or> 240 \<le> a"

definition v4_is_blocked :: "v4 \<Rightarrow> bool \<Rightarrow> bool" where
  "v4_is_blocked x allow_loopback =
     (if allow_loopback \<and> v4_is_loopback x then False
      else if v4_is_cgnat x then True
      else v4_is_unspecified x \<or> v4_is_loopback x \<or> v4_is_private x \<or> v4_is_link_local x \<or>
        v4_is_broadcast x \<or> v4_is_documentation x \<or> v4_is_multicast x \<or> v4_is_special x)"

fun v6_is_documentation :: "v6 \<Rightarrow> bool" where
  "v6_is_documentation (V6 a b c d e f g h) \<longleftrightarrow>
     (a = 0x2001 \<and> b = 0xdb8) \<or> (a = 0x3fff \<and> b \<le> 0x0fff)"

definition v6_is_blocked :: "v6 \<Rightarrow> bool \<Rightarrow> bool" where
  "v6_is_blocked x allow_loopback =
     (if allow_loopback \<and> v6_is_loopback x then False
      else case to_ipv4_mapped x of
        Some mapped \<Rightarrow> v4_is_blocked mapped allow_loopback
      | None \<Rightarrow> v6_is_unspecified x \<or> v6_is_loopback x \<or> v6_is_unique_local x \<or>
          v6_is_unicast_link_local x \<or> v6_is_multicast x \<or> v6_is_documentation x)"

fun ip_is_blocked :: "ip \<Rightarrow> bool \<Rightarrow> bool" where
  "ip_is_blocked (IP4 x) allow_loopback = v4_is_blocked x allow_loopback"
| "ip_is_blocked (IP6 x) allow_loopback = v6_is_blocked x allow_loopback"

fun is_global :: "ip \<Rightarrow> bool" where
  "is_global (IP4 (V4 a b c d)) \<longleftrightarrow>
     \<not> (v4_is_unspecified (V4 a b c d) \<or> v4_is_loopback (V4 a b c d) \<or> v4_is_private (V4 a b c d) \<or>
        v4_is_link_local (V4 a b c d) \<or> v4_is_multicast (V4 a b c d) \<or> v4_is_broadcast (V4 a b c d) \<or>
        v4_is_cgnat (V4 a b c d) \<or> 224 \<le> a)"
| "is_global (IP6 (V6 a b c d e f g h)) \<longleftrightarrow>
     a AND 0xe000 = 0x2000 \<and> \<not> v6_is_unicast_link_local (V6 a b c d e f g h) \<and>
       \<not> v6_is_unique_local (V6 a b c d e f g h)"

fun is_ipv4 :: "ip \<Rightarrow> bool" where
  "is_ipv4 (IP4 x) = True"
| "is_ipv4 (IP6 x) = False"

section \<open>The guard\<close>

datatype egress_error = No_Host string | Resolution_Failed string | Blocked_Address ip string
  | Scheme_Not_Allowed string | Client_Build | Lookup_Error

text \<open>A client resolves its host to the pinned address and follows no redirect.\<close>

record client =
  ct_host :: string
  ct_addr :: "ip \<times> int"
  ct_redirects :: bool

record egress_guard =
  eg_allow_loopback :: bool
  eg_allow_http :: bool
  eg_pinned :: "string \<times> int \<Rightarrow> (ip \<times> int) option"
  eg_clients :: "string \<times> int \<Rightarrow> client option"

definition egress_new :: "bool \<Rightarrow> egress_guard" where
  "egress_new allow_loopback = \<lparr>eg_allow_loopback = allow_loopback, eg_allow_http = allow_loopback,
     eg_pinned = (\<lambda>_. None), eg_clients = (\<lambda>_. None)\<rparr>"

text \<open>What a call meets outside: the IP literal in the host, if it is one, the answer of the
  resolver (\<open>None\<close> for an I/O error), and whether the TLS backend can build a client.\<close>

record net =
  nt_literal :: "url \<Rightarrow> ip option"
  nt_lookup :: "string \<Rightarrow> int \<Rightarrow> ip list option"
  nt_builds :: bool

definition url_port :: "url \<Rightarrow> int" where
  "url_port u = unwrap_or (if u_scheme u = ''https'' then 443 else 80) (u_port u)"

definition candidates :: "net \<Rightarrow> url \<Rightarrow> string \<Rightarrow> ip list option" where
  "candidates n u host = (case nt_literal n u of
     Some ip \<Rightarrow> Some [ip]
   | None \<Rightarrow> nt_lookup n host (url_port u))"

definition by_preference :: "ip list \<Rightarrow> ip list" where
  "by_preference = sort_key (\<lambda>ip. (\<not> is_global ip, \<not> is_ipv4 ip))"

definition scheme_ok :: "egress_guard \<Rightarrow> url \<Rightarrow> bool" where
  "scheme_ok g u \<longleftrightarrow> u_scheme u = ''https'' \<or> (u_scheme u = ''http'' \<and> eg_allow_http g)"

definition validate_and_pin ::
  "net \<Rightarrow> url \<Rightarrow> egress_guard \<Rightarrow> (egress_error + (ip \<times> int)) \<times> egress_guard" where
  "validate_and_pin n u g =
     (if \<not> scheme_ok g u then (Inl (Scheme_Not_Allowed (u_scheme u)), g)
      else case u_host u of
        None \<Rightarrow> (Inl (No_Host (u_str u)), g)
      | Some host \<Rightarrow>
          (let port = url_port u in
           case eg_pinned g (host, port) of
             Some pinned \<Rightarrow> (Inr pinned, g)
           | None \<Rightarrow> (case candidates n u host of
               None \<Rightarrow> (Inl Lookup_Error, g)
             | Some resolved \<Rightarrow>
                 if resolved = [] then (Inl (Resolution_Failed host), g)
                 else let sorted = by_preference resolved in
                   case List.find (\<lambda>ip. \<not> ip_is_blocked ip (eg_allow_loopback g)) sorted of
                     Some ip \<Rightarrow> (Inr (ip, port), g\<lparr>eg_pinned := (eg_pinned g)((host, port) \<mapsto> (ip, port))\<rparr>)
                   | None \<Rightarrow> (Inl (Blocked_Address (hd sorted) host), g))))"

definition client_for ::
  "net \<Rightarrow> url \<Rightarrow> egress_guard \<Rightarrow> (egress_error + client) \<times> egress_guard" where
  "client_for n u g =
     (case validate_and_pin n u g of
        (Inl e, g) \<Rightarrow> (Inl e, g)
      | (Inr addr, g) \<Rightarrow> (case u_host u of
          None \<Rightarrow> (Inl (No_Host (u_str u)), g)
        | Some host \<Rightarrow>
            (let key = (host, url_port u) in
             case eg_clients g key of
               Some c \<Rightarrow> (Inr c, g)
             | None \<Rightarrow>
                 if \<not> nt_builds n then (Inl Client_Build, g)
                 else let c = \<lparr>ct_host = host, ct_addr = addr, ct_redirects = False\<rparr>
                      in (Inr c, g\<lparr>eg_clients := (eg_clients g)(key \<mapsto> c)\<rparr>))))"

text \<open>\<^verbatim>\<open>validate_media_ingest_url\<close>; \<open>parse_url\<close> and \<open>parse_ip\<close> read the text and the host without brackets.\<close>

definition trim_brackets :: "string \<Rightarrow> string" where
  "trim_brackets s = (let br = (\<lambda>c. c = CHR ''['' \<or> c = CHR '']'') in
     rev (dropWhile br (rev (dropWhile br s))))"

definition validate_media_ingest_url ::
  "(string \<Rightarrow> url option) \<Rightarrow> (string \<Rightarrow> ip option) \<Rightarrow> net \<Rightarrow> string \<Rightarrow> bool \<Rightarrow> string + unit" where
  "validate_media_ingest_url parse_url parse_ip n raw allow_loopback =
     (case parse_url raw of
        None \<Rightarrow> Inl ''unparseable media url''
      | Some u \<Rightarrow>
          if u_scheme u \<noteq> ''https'' \<and> \<not> (u_scheme u = ''http'' \<and> allow_loopback)
          then Inl ''media url scheme not allowed''
          else case opt_filter (\<lambda>h. h \<noteq> []) (u_host u) of
            None \<Rightarrow> Inl ''media url has no host''
          | Some host \<Rightarrow> (case parse_ip (trim_brackets host) of
              Some ip \<Rightarrow> if ip_is_blocked ip allow_loopback then Inl ''media host is in a blocked range'' else Inr ()
            | None \<Rightarrow> (case nt_lookup n host (url_port u) of
                None \<Rightarrow> Inl ''media host did not resolve''
              | Some addrs \<Rightarrow>
                  if addrs = [] then Inl ''media host did not resolve''
                  else if list_ex (\<lambda>ip. ip_is_blocked ip allow_loopback) addrs
                  then Inl ''media host resolves to blocked address''
                  else Inr ())))"

section \<open>The guarded resolver\<close>

record guarded_resolve =
  gr_allow_loopback :: bool
  gr_allow_hosts :: "string list"

definition guarded_check :: "guarded_resolve \<Rightarrow> string \<Rightarrow> ip \<Rightarrow> bool" where
  "guarded_check r host ip =
     (if host \<in> set (gr_allow_hosts r) then True else \<not> ip_is_blocked ip (gr_allow_loopback r))"

text \<open>\<^verbatim>\<open>resolve\<close>: the system resolver's answer, filtered; every address with port 0.\<close>

definition guarded_resolve_host :: "guarded_resolve \<Rightarrow> string \<Rightarrow> ip list option \<Rightarrow> string + (ip \<times> int) list" where
  "guarded_resolve_host r host answer = (case answer of
     None \<Rightarrow> Inl ''dns''
   | Some addrs \<Rightarrow>
       (let allowed = map (\<lambda>ip. (ip, 0)) (filter (guarded_check r host) addrs) in
        if allowed = [] \<and> host \<notin> set (gr_allow_hosts r)
        then Inl ''egress guard: all candidates blocked''
        else Inr allowed))"

section \<open>The policy as address blocks\<close>

text \<open>The address as a 32-bit number, and membership in a block of addresses \<open>base/len\<close>.\<close>

fun v4_value :: "v4 \<Rightarrow> nat" where
  "v4_value (V4 a b c d) = unat a * 2 ^ 24 + unat b * 2 ^ 16 + unat c * 2 ^ 8 + unat d"

definition in_cidr :: "nat \<Rightarrow> nat \<times> nat \<Rightarrow> bool" where
  "in_cidr n r \<longleftrightarrow> n div 2 ^ (32 - snd r) = fst r div 2 ^ (32 - snd r)"

definition cidr :: "nat \<Rightarrow> nat \<Rightarrow> nat \<Rightarrow> nat \<Rightarrow> nat \<Rightarrow> nat \<times> nat" where
  "cidr a b c d len = (a * 2 ^ 24 + b * 2 ^ 16 + c * 2 ^ 8 + d, len)"

text \<open>The blocks the policy closes, loopback aside.\<close>

definition v4_blocked_ranges :: "(nat \<times> nat) list" where
  "v4_blocked_ranges = [cidr 0 0 0 0 32, cidr 10 0 0 0 8, cidr 100 64 0 0 10, cidr 169 254 0 0 16,
     cidr 172 16 0 0 12, cidr 192 0 0 0 24, cidr 192 0 2 0 24, cidr 192 168 0 0 16, cidr 198 18 0 0 15,
     cidr 198 51 100 0 24, cidr 203 0 113 0 24, cidr 224 0 0 0 4, cidr 240 0 0 0 4]"

lemma octet_bound: "unat (b :: 8 word) < 256"
  using unsigned_less [of b] by simp

lemma cgnat_octet: "(b :: 8 word) AND 0xC0 = 0x40 \<longleftrightarrow> unat b div 64 = 1"
proof -
  have "list_all (\<lambda>n. ((word_of_nat n :: 8 word) AND 0xC0 = 0x40) = (n div 64 = 1)) [0..<256]"
    by code_simp
  then have "\<forall>n \<in> {0..<256}. ((word_of_nat n :: 8 word) AND 0xC0 = 0x40) = (n div 64 = 1)"
    by (simp only: list_all_iff set_upt)
  from bspec [OF this, of "unat b"] octet_bound [of b] show ?thesis by simp
qed

lemma quotients:
  fixes a b c d :: nat
  assumes "b < 256" "c < 256" "d < 256"
  shows "(a * 2 ^ 24 + b * 2 ^ 16 + c * 2 ^ 8 + d) div 2 ^ 24 = a"
    "(a * 2 ^ 24 + b * 2 ^ 16 + c * 2 ^ 8 + d) div 2 ^ 28 = a div 16"
    "(a * 2 ^ 24 + b * 2 ^ 16 + c * 2 ^ 8 + d) div 2 ^ 22 = a * 4 + b div 64"
    "(a * 2 ^ 24 + b * 2 ^ 16 + c * 2 ^ 8 + d) div 2 ^ 20 = a * 16 + b div 16"
    "(a * 2 ^ 24 + b * 2 ^ 16 + c * 2 ^ 8 + d) div 2 ^ 17 = a * 128 + b div 2"
    "(a * 2 ^ 24 + b * 2 ^ 16 + c * 2 ^ 8 + d) div 2 ^ 16 = a * 256 + b"
    "(a * 2 ^ 24 + b * 2 ^ 16 + c * 2 ^ 8 + d) div 2 ^ 8 = a * 65536 + b * 256 + c"
  using assms by simp_all


text \<open>Digits in base 256.\<close>

lemma digits:
  fixes a b c p q r :: nat
  assumes "b < 256" "c < 256" "q < 256" "r < 256"
  shows "a * 256 + b = p * 256 + q \<longleftrightarrow> a = p \<and> b = q"
    and "a * 65536 + b * 256 + c = p * 65536 + q * 256 + r \<longleftrightarrow> a = p \<and> b = q \<and> c = r"
proof -
  have two: "x * 256 + y = u * 256 + v \<longleftrightarrow> x = u \<and> y = v" if "y < 256" "v < 256" for x y u v :: nat
    using that by (cases x u rule: linorder_cases) auto
  show "a * 256 + b = p * 256 + q \<longleftrightarrow> a = p \<and> b = q" using two assms by simp
  have "a * 65536 + b * 256 + c = p * 65536 + q * 256 + r \<longleftrightarrow>
      (a * 256 + b) * 256 + c = (p * 256 + q) * 256 + r" by (simp add: algebra_simps)
  then show "a * 65536 + b * 256 + c = p * 65536 + q * 256 + r \<longleftrightarrow> a = p \<and> b = q \<and> c = r"
    unfolding two [OF assms(2,4)] two [OF assms(1,3)] by simp
qed

lemma in_cidr_octets:
  fixes a b c d :: nat
  assumes lt: "b < 256" "c < 256" "d < 256"
  defines "n \<equiv> a * 2 ^ 24 + b * 2 ^ 16 + c * 2 ^ 8 + d"
  shows "in_cidr n (cidr p 0 0 0 8) \<longleftrightarrow> a = p" (is ?g8)
    "in_cidr n (cidr 224 0 0 0 4) \<longleftrightarrow> a div 16 = 14" (is ?g224)
    "in_cidr n (cidr 240 0 0 0 4) \<longleftrightarrow> a div 16 = 15" (is ?g240)
    "in_cidr n (cidr 100 64 0 0 10) \<longleftrightarrow> a * 4 + b div 64 = 401" (is ?g10)
    "in_cidr n (cidr 172 16 0 0 12) \<longleftrightarrow> a * 16 + b div 16 = 2753" (is ?g12)
    "in_cidr n (cidr 198 18 0 0 15) \<longleftrightarrow> a * 128 + b div 2 = 25353" (is ?g15)
    "q < 256 \<Longrightarrow> in_cidr n (cidr p q 0 0 16) \<longleftrightarrow> a = p \<and> b = q"
    "q < 256 \<Longrightarrow> r < 256 \<Longrightarrow> in_cidr n (cidr p q r 0 24) \<longleftrightarrow> a = p \<and> b = q \<and> c = r"
    "in_cidr n (cidr 0 0 0 0 32) \<longleftrightarrow> a = 0 \<and> b = 0 \<and> c = 0 \<and> d = 0" (is ?g32)
proof -
  note n = quotients [OF lt, of a, folded n_def]
  show ?g8 using n(1) quotients(1) [of 0 0 0 p] by (simp add: in_cidr_def cidr_def)
  show ?g224 ?g240 using n(2) by (simp_all add: in_cidr_def cidr_def)
  show ?g10 using n(3) by (simp add: in_cidr_def cidr_def)
  show ?g12 using n(4) by (simp add: in_cidr_def cidr_def)
  show ?g15 using n(5) by (simp add: in_cidr_def cidr_def)
  show "in_cidr n (cidr p q 0 0 16) \<longleftrightarrow> a = p \<and> b = q" if "q < 256"
    using n(6) quotients(6) [of q 0 0 p] digits(1) [of b 0 q 0 a p] lt that
    by (simp add: in_cidr_def cidr_def mult.commute)
  show "in_cidr n (cidr p q r 0 24) \<longleftrightarrow> a = p \<and> b = q \<and> c = r" if "q < 256" "r < 256"
    using n(7) quotients(7) [of q r 0 p] digits(2) [of b c q r a p] lt that
    by (simp add: in_cidr_def cidr_def mult.commute)
  show ?g32 by (auto simp: in_cidr_def cidr_def n_def)
qed

lemma high_digit: "k < m \<Longrightarrow> l < m \<Longrightarrow> a * m + k = p * m + l \<longleftrightarrow> a = p \<and> k = (l :: nat)"
  by (metis add.commute div_mult_self1 div_less less_nat_zero_code add_right_cancel add_0)

lemma digit_ranges:
  fixes a b :: nat
  assumes "a < 256" "b < 256"
  shows "a div 16 = 14 \<longleftrightarrow> 224 \<le> a \<and> a \<le> 239" and "a div 16 = 15 \<longleftrightarrow> 240 \<le> a"
    and "a * 4 + b div 64 = 401 \<longleftrightarrow> a = 100 \<and> b div 64 = 1"
    and "a * 16 + b div 16 = 2753 \<longleftrightarrow> a = 172 \<and> 16 \<le> b \<and> b \<le> 31"
    and "a * 128 + b div 2 = 25353 \<longleftrightarrow> a = 198 \<and> (b = 18 \<or> b = 19)"
proof -
  show "a div 16 = 14 \<longleftrightarrow> 224 \<le> a \<and> a \<le> 239" "a div 16 = 15 \<longleftrightarrow> 240 \<le> a" using assms by auto
  show "a * 4 + b div 64 = 401 \<longleftrightarrow> a = 100 \<and> b div 64 = 1"
    using high_digit [of "b div 64" 4 1 a 100] assms by simp
  have "b div 16 = 1 \<longleftrightarrow> 16 \<le> b \<and> b \<le> 31" by auto
  then show "a * 16 + b div 16 = 2753 \<longleftrightarrow> a = 172 \<and> 16 \<le> b \<and> b \<le> 31"
    using high_digit [of "b div 16" 16 1 a 172] assms by simp
  have "b div 2 = 9 \<longleftrightarrow> b = 18 \<or> b = 19" by auto
  then show "a * 128 + b div 2 = 25353 \<longleftrightarrow> a = 198 \<and> (b = 18 \<or> b = 19)"
    using high_digit [of "b div 2" 128 9 a 198] assms by simp
qed

section \<open>The guard over a sequence of requests\<close>

text \<open>Pins are admissible and carry the port they are pinned for; a cached client uses the pin of its
  key and follows no redirect.\<close>

definition guard_ok :: "egress_guard \<Rightarrow> bool" where
  "guard_ok g \<longleftrightarrow>
     (\<forall>k ip port. eg_pinned g k = Some (ip, port) \<longrightarrow> \<not> ip_is_blocked ip (eg_allow_loopback g) \<and> port = snd k) \<and>
     (\<forall>k c. eg_clients g k = Some c \<longrightarrow>
        ct_host c = fst k \<and> eg_pinned g k = Some (ct_addr c) \<and> \<not> ct_redirects c)"

text \<open>Requests one after the other, each meeting its own resolver.\<close>

fun run_requests :: "(net \<times> url) list \<Rightarrow> egress_guard \<Rightarrow> egress_guard" where
  "run_requests [] g = g"
| "run_requests ((n, u) # rs) g = run_requests rs (snd (client_for n u g))"

text \<open>How pinning ends: with the state as it was, or with one new admissible pin for the key.\<close>

lemma validate_and_pin_cases:
  assumes "validate_and_pin n u g = (r, g')"
  obtains (same) "g' = g" "case r of Inl _ \<Rightarrow> True | Inr a \<Rightarrow>
      \<exists>host. u_host u = Some host \<and> eg_pinned g (host, url_port u) = Some a"
  | (pin) host ip where "u_host u = Some host" "eg_pinned g (host, url_port u) = None"
      "r = Inr (ip, url_port u)" "\<not> ip_is_blocked ip (eg_allow_loopback g)"
      "g' = g\<lparr>eg_pinned := (eg_pinned g)((host, url_port u) \<mapsto> (ip, url_port u))\<rparr>"
proof (cases "scheme_ok g u \<and> u_host u \<noteq> None")
  case False
  then show thesis
    using assms same by (auto simp: validate_and_pin_def split: if_splits option.splits)
next
  case True
  then obtain host where host: "scheme_ok g u" "u_host u = Some host" by auto
  show thesis
  proof (cases "eg_pinned g (host, url_port u)")
    case (Some a)
    with host assms have "g' = g" "r = Inr a" by (simp_all add: validate_and_pin_def)
    with same host Some show thesis by simp
  next
    case None
    let ?find = "List.find (\<lambda>ip. \<not> ip_is_blocked ip (eg_allow_loopback g)) (by_preference (the (candidates n u host)))"
    show thesis
    proof (cases "candidates n u host = None \<or> candidates n u host = Some [] \<or> ?find = None")
      case True
      with host None assms have "g' = g" "isl r" 
        by (auto simp: validate_and_pin_def Let_def split: option.splits if_splits)
      with same show thesis by (cases r) auto
    next
      case False
      then obtain ip where ip: "?find = Some ip" by auto
      with False host None assms have "r = Inr (ip, url_port u)"
        "g' = g\<lparr>eg_pinned := (eg_pinned g)((host, url_port u) \<mapsto> (ip, url_port u))\<rparr>"
        by (auto simp: validate_and_pin_def Let_def)
      moreover from ip have "\<not> ip_is_blocked ip (eg_allow_loopback g)" by (auto simp: find_Some_iff)
      ultimately show thesis using host(2) None pin by blast
    qed
  qed
qed

lemma validate_and_pin_ok: "guard_ok g \<Longrightarrow> validate_and_pin n u g = (r, g') \<Longrightarrow> guard_ok g'"
  by (erule validate_and_pin_cases) (fastforce simp: guard_ok_def)+

lemma validate_and_pin_result:
  "validate_and_pin n u g = (Inr a, g') \<Longrightarrow>
     \<exists>host. u_host u = Some host \<and> eg_pinned g' (host, url_port u) = Some a"
  by (erule validate_and_pin_cases) auto

lemma client_for_ok: "guard_ok g \<Longrightarrow> guard_ok (snd (client_for n u g))"
proof -
  assume ok: "guard_ok g"
  obtain r g' where v: "validate_and_pin n u g = (r, g')" by fastforce
  have ok': "guard_ok g'" by (rule validate_and_pin_ok [OF ok v])
  show ?thesis
  proof (cases r)
    case (Inl e)
    with v ok' show ?thesis by (simp add: client_for_def)
  next
    case (Inr a)
    with v obtain host where "u_host u = Some host" "eg_pinned g' (host, url_port u) = Some a"
      using validate_and_pin_result by blast
    with ok' v Inr show ?thesis
      by (auto simp: client_for_def guard_ok_def Let_def split: option.splits)
  qed
qed

lemma client_for_result:
  assumes "guard_ok g" and "client_for n u g = (Inr c, g')"
  shows "\<exists>host. u_host u = Some host \<and> eg_clients g' (host, url_port u) = Some c"
  using assms by (auto simp: client_for_def Let_def split: prod.splits sum.splits option.splits if_splits)

text \<open>Nothing is ever taken out of the two caches.\<close>

definition guard_le :: "egress_guard \<Rightarrow> egress_guard \<Rightarrow> bool" where
  "guard_le g g' \<longleftrightarrow> eg_pinned g \<subseteq>\<^sub>m eg_pinned g' \<and> eg_clients g \<subseteq>\<^sub>m eg_clients g' \<and>
     eg_allow_loopback g' = eg_allow_loopback g \<and> eg_allow_http g' = eg_allow_http g"

lemma guard_le_refl [simp]: "guard_le g g"
  by (simp add: guard_le_def)

lemma guard_le_trans: "guard_le a b \<Longrightarrow> guard_le b c \<Longrightarrow> guard_le a c"
  by (auto simp: guard_le_def intro: map_le_trans)

lemma map_le_new: "m k = None \<Longrightarrow> m \<subseteq>\<^sub>m m(k \<mapsto> v)"
  by (auto simp: map_le_def)

lemma validate_and_pin_le: "validate_and_pin n u g = (r, g') \<Longrightarrow> guard_le g g'"
  by (erule validate_and_pin_cases) (auto simp: guard_le_def intro: map_le_new)

lemma client_for_le: "guard_le g (snd (client_for n u g))"
proof -
  obtain r g' where v: "validate_and_pin n u g = (r, g')" by fastforce
  have "guard_le g' (snd (client_for n u g))"
    using v by (auto simp: client_for_def Let_def guard_le_def intro: map_le_new split: sum.splits option.splits)
  with validate_and_pin_le [OF v] show ?thesis by (rule guard_le_trans)
qed

lemma run_requests_le: "guard_le g (run_requests rs g)"
  by (induction rs g rule: run_requests.induct) (auto intro: guard_le_trans client_for_le)

lemma run_requests_ok: "guard_ok g \<Longrightarrow> guard_ok (run_requests rs g)"
  by (induction rs g rule: run_requests.induct) (auto intro: client_for_ok)

lemma guard_ok_new: "guard_ok (egress_new al)"
  by (simp add: guard_ok_def egress_new_def)

text \<open>A request whose client is cached and whose scheme is admissible gets that client.\<close>

lemma client_for_cached:
  assumes "guard_ok g" and "u_host u = Some host" and "scheme_ok g u"
    and "eg_clients g (host, url_port u) = Some c"
  shows "client_for n' u g = (Inr c, g)"
  using assms by (auto simp: client_for_def validate_and_pin_def guard_ok_def Let_def)

section \<open>Properties of the egress guard\<close>


text \<open>C12: whatever URLs are requested in whatever order and whatever the resolver answers each
  time, a client the guard hands out connects to an address outside the blocked ranges and follows
  no redirect.\<close>

theorem guard_never_connects_to_blocked:
  assumes "client_for n u (run_requests rs (egress_new allow_loopback)) = (Inr c, g')"
  shows "\<not> ip_is_blocked (fst (ct_addr c)) allow_loopback \<and> snd (ct_addr c) = url_port u \<and>
    u_host u = Some (ct_host c) \<and> \<not> ct_redirects c"
proof -
  let ?g = "run_requests rs (egress_new allow_loopback)"
  have ok: "guard_ok ?g" by (intro run_requests_ok guard_ok_new)
  have ok': "guard_ok g'" using client_for_ok [OF ok, of n u] assms by simp
  have "guard_le (egress_new allow_loopback) g'"
    using guard_le_trans [OF run_requests_le [of _ rs] client_for_le [of _ n u]] assms by (metis snd_conv)
  then have al: "eg_allow_loopback g' = allow_loopback" by (simp add: guard_le_def egress_new_def)
  obtain host where "u_host u = Some host" "eg_clients g' (host, url_port u) = Some c"
    using client_for_result [OF ok assms] by blast
  with ok' al show ?thesis by (cases "ct_addr c") (fastforce simp: guard_ok_def)
qed

text \<open>DNS rebinding has no effect. Once a URL got a client, every later request for it gets the
  same client, connected to the same address, whatever other requests came between and whatever
  the resolver answers by then.\<close>

theorem pin_is_stable:
  assumes "client_for n u (run_requests rs (egress_new allow_loopback)) = (Inr c, g')"
  shows "client_for n' u (run_requests later g') = (Inr c, run_requests later g')"
proof -
  let ?g = "run_requests rs (egress_new allow_loopback)"
  have ok: "guard_ok ?g" by (intro run_requests_ok guard_ok_new)
  have ok': "guard_ok g'" using client_for_ok [OF ok, of n u] assms by simp
  obtain host where host: "u_host u = Some host" "eg_clients g' (host, url_port u) = Some c"
    using client_for_result [OF ok assms] by blast
  have "scheme_ok ?g u" using assms by (auto simp: client_for_def validate_and_pin_def split: if_splits)
  moreover have le: "guard_le ?g g'" using client_for_le [of ?g n u] assms by simp
  moreover have le2: "guard_le g' (run_requests later g')" by (rule run_requests_le)
  ultimately have "scheme_ok (run_requests later g') u" by (simp add: scheme_ok_def guard_le_def)
  moreover have "eg_clients (run_requests later g') (host, url_port u) = Some c"
    using host(2) le2 by (auto simp: guard_le_def map_le_def dom_def)
  ultimately show ?thesis
    using client_for_cached [OF run_requests_ok [OF ok'] host(1)] by blast
qed

text \<open>which address is pinned for a new host: among the admissible answers one that no other
  admissible answer precedes in the preference order (globally routable first, then IPv4), and a
  refusal exactly when no answer is admissible.\<close>

theorem pin_choice:
  assumes "scheme_ok g u" and "u_host u = Some host" and "eg_pinned g (host, url_port u) = None"
    and "candidates n u host = Some ips" and "ips \<noteq> []"
  shows "(case fst (validate_and_pin n u g) of
      Inr (ip, port) \<Rightarrow> ip \<in> set ips \<and> port = url_port u \<and> \<not> ip_is_blocked ip (eg_allow_loopback g) \<and>
        (\<forall>x \<in> set ips. \<not> ip_is_blocked x (eg_allow_loopback g) \<longrightarrow>
           (\<not> is_global ip, \<not> is_ipv4 ip) \<le> (\<not> is_global x, \<not> is_ipv4 x))
    | Inl e \<Rightarrow> (\<forall>x \<in> set ips. ip_is_blocked x (eg_allow_loopback g)) \<and> (\<exists>x \<in> set ips. e = Blocked_Address x host))"
proof -
  let ?key = "\<lambda>ip. (\<not> is_global ip, \<not> is_ipv4 ip)" and ?ok = "\<lambda>ip. \<not> ip_is_blocked ip (eg_allow_loopback g)"
  have sorted: "sorted (map ?key (by_preference ips))" by (simp add: by_preference_def)
  have set: "set (by_preference ips) = set ips" by (simp add: by_preference_def)
  show ?thesis
  proof (cases "List.find ?ok (by_preference ips)")
    case None
    then have "\<forall>x \<in> set ips. \<not> ?ok x" using set by (auto simp: find_None_iff)
    moreover have "hd (by_preference ips) \<in> set ips"
      using assms(5) set by (metis list.set_sel(1) set_empty)
    ultimately show ?thesis
      using None assms by (auto simp: validate_and_pin_def)
  next
    case (Some ip)
    then obtain i where i: "i < length (by_preference ips)" "?ok ip" "ip = by_preference ips ! i"
      and before: "\<And>j. j < i \<Longrightarrow> \<not> ?ok (by_preference ips ! j)"
      by (auto simp: find_Some_iff)
    have "?key ip \<le> ?key x" if "x \<in> set ips" "?ok x" for x
    proof -
      have "x \<in> set (by_preference ips)" using that(1) set by simp
      then obtain j where j: "j < length (by_preference ips)" "x = by_preference ips ! j"
        by (auto simp: in_set_conv_nth)
      with before that(2) have "i \<le> j" by (meson not_le)
      with sorted_nth_mono [OF sorted, of i j] i j show ?thesis by simp
    qed
    moreover have "ip \<in> set ips" using nth_mem [OF i(1)] i(3) set by simp
    ultimately show ?thesis
      using Some assms i(2) by (simp add: validate_and_pin_def Let_def)
  qed
qed

text \<open>the resolver handed to the federation crate gives out only addresses outside the blocked
  ranges, keeps every such answer, and reports an error rather than an empty answer, for every host
  that is not explicitly exempted.\<close>

theorem guarded_resolver_filters:
  assumes "host \<notin> set (gr_allow_hosts r)"
  shows "case guarded_resolve_host r host answer of
      Inr addrs \<Rightarrow> addrs \<noteq> [] \<and> (\<exists>ips. answer = Some ips \<and>
        set addrs = {(ip, 0) | ip. ip \<in> set ips \<and> \<not> ip_is_blocked ip (gr_allow_loopback r)})
    | Inl _ \<Rightarrow> (\<forall>ips. answer = Some ips \<longrightarrow> (\<forall>ip \<in> set ips. ip_is_blocked ip (gr_allow_loopback r)))"
  using assms
  by (cases answer) (auto simp: guarded_resolve_host_def guarded_check_def Let_def filter_empty_conv)

text \<open>a media URL passes ingest validation only with an admissible scheme and host, and only if
  the literal address, or every address the host resolves to, is outside the blocked ranges.\<close>

theorem media_url_validation_sound:
  assumes "validate_media_ingest_url parse_url parse_ip n raw allow_loopback = Inr ()"
  shows "\<exists>u host. parse_url raw = Some u \<and> u_host u = Some host \<and> host \<noteq> [] \<and>
    (u_scheme u = ''https'' \<or> u_scheme u = ''http'' \<and> allow_loopback) \<and>
    (case parse_ip (trim_brackets host) of
       Some ip \<Rightarrow> \<not> ip_is_blocked ip allow_loopback
     | None \<Rightarrow> \<exists>ips. nt_lookup n host (url_port u) = Some ips \<and> ips \<noteq> [] \<and>
         (\<forall>ip \<in> set ips. \<not> ip_is_blocked ip allow_loopback))"
  using assms
  by (auto simp: validate_media_ingest_url_def opt_filter_def list_ex_iff split: option.splits if_splits)

text \<open>Addresses outside the global unicast space of IPv6, such as the former site-local block, and the
  NAT64 form of \<^verbatim>\<open>127.0.0.1\<close>, pass the policy; the anycast addresses of \<^verbatim>\<open>192.0.0.0/24\<close> do not.\<close>

lemma policy_edges:
  "\<not> ip_is_blocked (IP6 (V6 0xfec0 0 0 0 0 0 0 1)) False"
  "\<not> ip_is_blocked (IP6 (V6 0x64 0xff9b 0 0 0 0 0x7f00 1)) False"
  "ip_is_blocked (IP4 (V4 192 0 0 9)) False"
  by code_simp+

text \<open>A host that resolves to a private and to a public address, and a URL on it.\<close>

definition demo_private :: ip where
  "demo_private = IP4 (V4 10 0 0 1)"

definition demo_public :: ip where
  "demo_public = IP4 (V4 93 184 216 34)"

definition demo_net :: net where
  "demo_net = \<lparr>nt_literal = (\<lambda>_. None), nt_lookup = (\<lambda>_ _. Some [demo_private, demo_public]), nt_builds = True\<rparr>"

definition demo_rebound :: net where
  "demo_rebound = \<lparr>nt_literal = (\<lambda>_. None), nt_lookup = (\<lambda>_ _. Some [demo_private]), nt_builds = True\<rparr>"

definition demo_target :: url where
  "demo_target = \<lparr>u_str = ''https://b.test/'', u_scheme = ''https'', u_host = Some ''b.test'', u_port = None\<rparr>"

definition demo_client :: client where
  "demo_client = \<lparr>ct_host = ''b.test'', ct_addr = (demo_public, 443), ct_redirects = False\<rparr>"

lemma demo_client_for:
  "\<exists>g. client_for demo_net demo_target (run_requests [] (egress_new False)) = (Inr demo_client, g)"
proof -
  have "fst (client_for demo_net demo_target (run_requests [] (egress_new False))) = Inr demo_client"
    by code_simp
  then show ?thesis by (metis prod.collapse)
qed

theorem guard_never_connects_to_blocked_witness: "\<not> ip_is_blocked (fst (ct_addr demo_client)) False"
  using demo_client_for guard_never_connects_to_blocked by blast

theorem pin_is_stable_witness:
  "\<exists>g. fst (client_for demo_rebound demo_target (run_requests [(demo_rebound, demo_target)] g)) = Inr demo_client"
  using demo_client_for pin_is_stable by (metis fst_conv)

theorem pin_choice_witness:
  "fst (validate_and_pin demo_net demo_target (egress_new False)) = Inr (demo_public, 443) \<and>
   (\<not> is_global demo_public, \<not> is_ipv4 demo_public) \<le> (\<not> is_global demo_public, \<not> is_ipv4 demo_public)"
proof -
  have r: "fst (validate_and_pin demo_net demo_target (egress_new False)) = Inr (demo_public, 443)"
    "scheme_ok (egress_new False) demo_target" "u_host demo_target = Some ''b.test''"
    "eg_pinned (egress_new False) (''b.test'', url_port demo_target) = None"
    "candidates demo_net demo_target ''b.test'' = Some [demo_private, demo_public]"
    by code_simp+
  show ?thesis using pin_choice [OF r(2-5)] r(1) by simp
qed

theorem guarded_resolver_filters_witness:
  "case guarded_resolve_host \<lparr>gr_allow_loopback = False, gr_allow_hosts = []\<rparr> ''b.test'' (Some [demo_private, demo_public]) of
     Inr addrs \<Rightarrow> addrs \<noteq> [] | Inl _ \<Rightarrow> False"
proof -
  have "\<not> ip_is_blocked demo_public False" by code_simp
  then show ?thesis
    using guarded_resolver_filters [of "''b.test''" "\<lparr>gr_allow_loopback = False, gr_allow_hosts = []\<rparr>"
      "Some [demo_private, demo_public]"] by (auto split: sum.splits)
qed

theorem media_url_validation_sound_witness:
  "\<exists>ips. nt_lookup (demo_net\<lparr>nt_lookup := (\<lambda>_ _. Some [demo_public])\<rparr>) ''b.test'' (url_port demo_target) = Some ips \<and>
     list_all (\<lambda>ip. \<not> ip_is_blocked ip False) ips"
proof -
  have "validate_media_ingest_url (\<lambda>_. Some demo_target) (\<lambda>_. None)
      (demo_net\<lparr>nt_lookup := (\<lambda>_ _. Some [demo_public])\<rparr>) ''https://b.test/'' False = Inr ()"
    by code_simp
  from media_url_validation_sound [OF this] show ?thesis by (auto simp: demo_target_def list_all_iff)
qed

end
