(* ===== verification/Deliver.thy ===== *)
theory Deliver
  imports Inbox Egress
begin

text \<open>
  Outbound delivery: \<^verbatim>\<open>crates/federation/src/deliver.rs\<close> and the delivery jobs of
  \<^verbatim>\<open>crates/server/src/worker.rs\<close> (\<^verbatim>\<open>process_deliver\<close>, \<^verbatim>\<open>process_deliver_create\<close>,
  \<^verbatim>\<open>schedule_deliver_retry\<close>). The state is the connection pool together with the egress guard.
  Parameters (record \<open>deliver_env\<close>): the resolver, the key parser, the signer and the HTTP exchange
  itself, each of which may answer differently every time (they see the number of statements run
  so far). The headers of the request are left out.
\<close>

section \<open>Environment\<close>

record deliver_world = pool +
  dw_guard :: egress_guard

datatype http_result = Response int string | Transport_Error string

record deliver_env =
  dv_net :: "nat \<Rightarrow> net"
  dv_parse_url :: "string \<Rightarrow> url option"
  dv_key_ok :: "string \<Rightarrow> bool"
  dv_sign :: "nat \<Rightarrow> string \<Rightarrow> string \<Rightarrow> string option"
  dv_send :: "nat \<Rightarrow> client \<Rightarrow> url \<Rightarrow> json \<Rightarrow> http_result"

datatype deliver_outcome = Delivered | Reject_Outcome string | Fail_Outcome string

type_synonym 'z deliver_handler =
  "'z deliver_world_scheme \<Rightarrow> (fed_error + deliver_outcome) \<times> 'z deliver_world_scheme"

section \<open>One delivery\<close>

definition is_success :: "int \<Rightarrow> bool" where
  "is_success status \<longleftrightarrow> 200 \<le> status \<and> status < 300"

text \<open>A client error other than \<^verbatim>\<open>408\<close> and \<^verbatim>\<open>429\<close>.\<close>

definition is_permanent :: "int \<Rightarrow> bool" where
  "is_permanent status \<longleftrightarrow> 400 \<le> status \<and> status < 500 \<and> status \<noteq> 408 \<and> status \<noteq> 429"

definition record_response :: "url \<Rightarrow> http_result \<Rightarrow> 'z deliver_world_scheme \<Rightarrow> deliver_outcome \<times> 'z deliver_world_scheme" where
  "record_response inbox_url response w =
     (let domain = unwrap_or [] (u_host inbox_url);
          failed = snd (exec (instance_record_failure domain (u_str inbox_url)) w)
      in case response of
        Response status txt \<Rightarrow>
          if is_success status
          then (Delivered, snd (exec (instance_upsert_success domain None None (u_str inbox_url)) w))
          else if is_permanent status then (Reject_Outcome txt, failed)
          else (Fail_Outcome (''status '' @ show_int status @ '': '' @ txt), failed)
      | Transport_Error e \<Rightarrow> (Fail_Outcome e, failed))"

definition deliver_activity :: "deliver_env \<Rightarrow> actor \<Rightarrow> url \<Rightarrow> json \<Rightarrow> 'z deliver_handler" where
  "deliver_activity env signer inbox_url activity w =
     (case ac_private_key_pem signer of
        None \<Rightarrow> (Inl (Fed_Other ''actor has no private key''), w)
      | Some pem \<Rightarrow>
          if \<not> dv_key_ok env pem then (Inl (Fed_Other ''private key decode failed''), w)
          else case client_for (dv_net env (ticks w)) inbox_url (dw_guard w) of
            (Inl e, g) \<Rightarrow> (Inl (Fed_Other ''egress''), w\<lparr>dw_guard := g\<rparr>)
          | (Inr client, g) \<Rightarrow>
              (let w = w\<lparr>dw_guard := g\<rparr> in
               case u_host inbox_url of
                 None \<Rightarrow> (Inl (Fed_Other ''inbox has no host''), w)
               | Some host \<Rightarrow> (case dv_parse_url env (ac_ap_id signer) of
                   None \<Rightarrow> (Inl (Fed_Other ''url''), w)
                 | Some signer_id \<Rightarrow> (case dv_sign env (ticks w) pem (u_str signer_id @ ''#main-key'') of
                     Some e \<Rightarrow> (Inl (Fed_Other e), w)
                   | None \<Rightarrow> apfst Inr (record_response inbox_url (dv_send env (ticks w) client inbox_url activity) w)))))"

definition shared_inbox_or_inbox :: "actor \<Rightarrow> string" where
  "shared_inbox_or_inbox a = unwrap_or (ac_inbox_url a) (ac_shared_inbox_url a)"

text \<open>\<^verbatim>\<open>Actor::fetch_by_id(..).await?.ok_or_else(..)?\<close>.\<close>

definition require_actor ::
  "int \<Rightarrow> string \<Rightarrow> 'z deliver_world_scheme \<Rightarrow> (fed_error + actor) \<times> 'z deliver_world_scheme" where
  "require_actor i msg w = try_then (fed (exec (actor_fetch_by_id i) w))
     (\<lambda>row w. case row of None \<Rightarrow> (Inl (Fed_Other msg), w) | Some a \<Rightarrow> (Inr a, w))"

definition deliver_to :: "deliver_env \<Rightarrow> actor \<Rightarrow> string \<Rightarrow> json \<Rightarrow> 'z deliver_handler" where
  "deliver_to env signer inbox activity w = (case dv_parse_url env inbox of
     None \<Rightarrow> (Inl (Fed_Other ''url''), w)
   | Some u \<Rightarrow> deliver_activity env signer u activity w)"

definition deliver_job :: "deliver_env \<Rightarrow> job \<Rightarrow> 'z deliver_handler" where
  "deliver_job env job w =
     (let payload = jb_payload job in
      if jb_kind job = ''deliver_follow'' then
        (case (get_i64 ''follower_actor_id'' payload, get_i64 ''target_actor_id'' payload, json_get ''activity'' payload) of
           (None, _, _) \<Rightarrow> (Inl (Fed_Other ''deliver_follow payload missing follower_actor_id''), w)
         | (_, None, _) \<Rightarrow> (Inl (Fed_Other ''deliver_follow payload missing target_actor_id''), w)
         | (_, _, None) \<Rightarrow> (Inl (Fed_Other ''deliver_follow payload missing activity''), w)
         | (Some follower, Some target_id, Some activity) \<Rightarrow>
             try_then (require_actor target_id ''target actor not found'' w) (\<lambda>target w.
             try_then (require_actor follower ''follower actor not found'' w) (\<lambda>signer w.
               deliver_to env signer (shared_inbox_or_inbox target) activity w)))
      else if jb_kind job = ''deliver'' then
        (case (get_i64 ''actor_id'' payload, get_str ''inbox_url'' payload, json_get ''activity'' payload) of
           (None, _, _) \<Rightarrow> (Inl (Fed_Other ''deliver payload missing actor_id''), w)
         | (_, None, _) \<Rightarrow> (Inl (Fed_Other ''deliver payload missing inbox_url''), w)
         | (_, _, None) \<Rightarrow> (Inl (Fed_Other ''deliver payload missing activity''), w)
         | (Some actor_id, Some inbox, Some activity) \<Rightarrow>
             try_then (require_actor actor_id ''signer actor not found'' w) (\<lambda>signer w.
               deliver_to env signer inbox activity w))
      else (Inl (Fed_Other ''unknown deliver kind''), w))"

section \<open>Delivery jobs\<close>

text \<open>\<^verbatim>\<open>schedule_deliver_retry\<close>, \<^verbatim>\<open>Job::mark_done\<close>, \<^verbatim>\<open>Job::dead_letter\<close>: the worker logs an error and goes on.\<close>

definition schedule_deliver_retry :: "job \<Rightarrow> string \<Rightarrow> 'z pool_scheme \<Rightarrow> 'z pool_scheme" where
  "schedule_deliver_retry job reason w = snd (exec (retry_or_bury job reason) w)"

definition done_or_log :: "job \<Rightarrow> string option \<Rightarrow> 'z pool_scheme \<Rightarrow> 'z pool_scheme" where
  "done_or_log job reason w = snd (exec (job_mark_done (jb_id job) reason) w)"

definition dead_or_log :: "job \<Rightarrow> string \<Rightarrow> 'z pool_scheme \<Rightarrow> 'z pool_scheme" where
  "dead_or_log job reason w = snd (exec (job_dead_letter (jb_id job) reason) w)"

text \<open>The fan-out loop; the result is the number of failed enqueues.\<close>

fun fan_out :: "int \<Rightarrow> json \<Rightarrow> actor list \<Rightarrow> 'z pool_scheme \<Rightarrow> nat \<times> 'z pool_scheme" where
  "fan_out author_id activity [] w = (0, w)"
| "fan_out author_id activity (f # fs) w =
     (case enqueue_delivery author_id (shared_inbox_or_inbox f) activity w of
        (r, w) \<Rightarrow> (case fan_out author_id activity fs w of
          (failures, w) \<Rightarrow> (failures + (case r of Inl _ \<Rightarrow> 1 | Inr _ \<Rightarrow> 0), w)))"

definition fan_out_note :: "nat \<Rightarrow> nat \<Rightarrow> string option" where
  "fan_out_note failures count = (if failures > 0
     then Some (show_nat failures @ '' of '' @ show_nat count @ '' fan-out enqueues failed'') else None)"

definition process_deliver_create :: "job \<Rightarrow> 'z pool_scheme \<Rightarrow> 'z pool_scheme" where
  "process_deliver_create job w =
     (case opt_zip (get_i64 ''clip_id'' (jb_payload job)) (json_get ''activity'' (jb_payload job)) of
        None \<Rightarrow> dead_or_log job ''malformed deliver_create payload'' w
      | Some (clip_id, activity) \<Rightarrow> (case exec (clip_fetch_by_id clip_id) w of
          (Inr (Some clip), w) \<Rightarrow> (case exec (actor_fetch_by_id (cl_actor_id clip)) w of
            (Inr (Some author), w) \<Rightarrow> (case exec (follow_remote_follower_actors (ac_id author)) w of
              (Inl e, w) \<Rightarrow> schedule_deliver_retry job ''follower query failed'' w
            | (Inr followers, w) \<Rightarrow> (case fan_out (ac_id author) activity followers w of
                (failures, w) \<Rightarrow> done_or_log job (fan_out_note failures (length followers)) w))
          | (_, w) \<Rightarrow> dead_or_log job ''deliver_create: author actor not found'' w)
        | (_, w) \<Rightarrow> dead_or_log job ''deliver_create: clip not found'' w))"

fun fed_detail :: "fed_error \<Rightarrow> string" where
  "fed_detail (Fed_Db e) = ''database error''"
| "fed_detail Fed_Not_Found = ''not found''"
| "fed_detail Fed_Panic = ''panic''"
| "fed_detail (Fed_Other s) = s"

definition process_deliver :: "deliver_env \<Rightarrow> job \<Rightarrow> 'z deliver_world_scheme \<Rightarrow> 'z deliver_world_scheme" where
  "process_deliver env job w =
     (if jb_kind job = ''deliver_create'' then process_deliver_create job w
      else case deliver_job env job w of
        (Inr Delivered, w) \<Rightarrow> done_or_log job None w
      | (Inr (Reject_Outcome reason), w) \<Rightarrow> done_or_log job (Some reason) w
      | (Inr (Fail_Outcome reason), w) \<Rightarrow> schedule_deliver_retry job reason w
      | (Inl e, w) \<Rightarrow> schedule_deliver_retry job (fed_detail e) w)"

section \<open>What a delivery keeps\<close>

text \<open>A property of the tables, under a given behaviour of the connection.\<close>

definition alive :: "(db \<Rightarrow> bool) \<Rightarrow> (nat \<Rightarrow> link_state) \<Rightarrow> 'z pool_scheme \<Rightarrow> bool" where
  "alive I L w \<longleftrightarrow> I (db w) \<and> link w = L"

abbreviation all_up :: "nat \<Rightarrow> link_state" where
  "all_up \<equiv> \<lambda>_. Up"

lemma alive_exec: "keeps I f \<Longrightarrow> alive I L w \<Longrightarrow> alive I L (snd (exec f w))"
  by (auto simp: alive_def intro: keeps_exec)

lemma alive_execD: "exec f w = (r, w') \<Longrightarrow> keeps I f \<Longrightarrow> alive I L w \<Longrightarrow> alive I L w'"
  using alive_exec [of I f L w] by simp

lemma alive_try:
  "alive I L (snd r) \<Longrightarrow> (\<And>a q. alive I L q \<Longrightarrow> alive I L (snd (k a q))) \<Longrightarrow> alive I L (snd (try_then r k))"
  by (cases r; cases "fst r") (auto simp: try_then_def)

lemma alive_guard [simp]: "alive I L (w\<lparr>dw_guard := g\<rparr>) = alive I L w"
  by (simp add: alive_def)

text \<open>A property of the tables that the bookkeeping on instances keeps is kept by a delivery.\<close>

locale delivery_invariant =
  fixes I :: "db \<Rightarrow> bool"
  assumes keep_success: "keeps I (instance_upsert_success dmn sw v u)"
    and keep_failure: "keeps I (instance_record_failure dmn u)"
begin

lemma record_response_alive: "alive I L w \<Longrightarrow> alive I L (snd (record_response u r w))"
  by (auto simp: record_response_def Let_def alive_exec keep_success keep_failure split: http_result.splits)

lemma deliver_activity_alive: "alive I L w \<Longrightarrow> alive I L (snd (deliver_activity env signer u v w))"
  by (auto simp: deliver_activity_def Let_def record_response_alive split: option.splits prod.splits sum.splits)

lemma require_actor_alive: "alive I L w \<Longrightarrow> alive I L (snd (require_actor i m w))"
  unfolding require_actor_def actor_fetch_by_id_def actor_by_def
  by (rule alive_try) (auto intro: alive_exec split: option.splits)

lemma deliver_to_alive: "alive I L w \<Longrightarrow> alive I L (snd (deliver_to env signer x v w))"
  by (auto simp: deliver_to_def deliver_activity_alive split: option.splits)

lemma deliver_job_alive: "alive I L w \<Longrightarrow> alive I L (snd (deliver_job env job w))"
  by (auto simp: deliver_job_def Let_def split: option.splits
      intro!: alive_try require_actor_alive deliver_to_alive)

end

text \<open>One that the job statements of a delivery keep as well is kept by the whole delivery job.\<close>

locale delivery_job_invariant = delivery_invariant +
  assumes keep_create: "keeps I (job_create k v ra)"
    and keep_done: "keeps I (job_mark_done i e)"
    and keep_dead: "keeps I (job_dead_letter i r)"
    and keep_retry: "keeps I (retry_or_bury j r)"
begin

lemma enqueue_alive: "alive I L w \<Longrightarrow> alive I L (snd (enqueue_delivery a u v w))"
  unfolding enqueue_delivery_def by (rule alive_try) (auto intro: alive_exec keep_create)

lemma fan_out_alive: "alive I L w \<Longrightarrow> alive I L (snd (fan_out a v fs w))"
proof (induction fs arbitrary: w)
  case (Cons f fs)
  from Cons.IH [OF enqueue_alive [OF Cons.prems, of a "shared_inbox_or_inbox f" v]] show ?case
    by (simp add: case_prod_beta)
qed simp

lemma finish_alive:
  assumes "alive I L w"
  shows "alive I L (done_or_log j e w)" "alive I L (dead_or_log j r w)" "alive I L (schedule_deliver_retry j r w)"
  using assms unfolding done_or_log_def dead_or_log_def schedule_deliver_retry_def
  by (auto intro: alive_exec keep_done keep_dead keep_retry)

lemma read_alive: "exec (select f) w = (r, w') \<Longrightarrow> alive I L w \<Longrightarrow> alive I L w'"
  by (rule alive_execD) auto

lemma fan_out_aliveD: "fan_out a v fs w = (n, w') \<Longrightarrow> alive I L w \<Longrightarrow> alive I L w'"
  using fan_out_alive [of L w a v fs] by simp

lemma deliver_create_alive: "alive I L w \<Longrightarrow> alive I L (process_deliver_create job w)"
  unfolding process_deliver_create_def clip_fetch_by_id_def actor_fetch_by_id_def actor_by_def
    follow_remote_follower_actors_def
  by (auto intro!: finish_alive split: option.splits prod.splits sum.splits dest!: read_alive fan_out_aliveD)

lemma process_deliver_alive:
  assumes "alive I L w"
  shows "alive I L (process_deliver env job w)"
proof -
  obtain r w' where d: "deliver_job env job w = (r, w')" by fastforce
  have "alive I L w'" using deliver_job_alive [OF assms, of env job] d by simp
  with assms d show ?thesis
    by (auto simp: process_deliver_def intro!: finish_alive deliver_create_alive split: sum.splits deliver_outcome.splits)
qed

end

text \<open>The queue is consistent and holds a job with a given mark.\<close>

definition queue_has :: "(job \<Rightarrow> bool) \<Rightarrow> db \<Rightarrow> bool" where
  "queue_has P d \<longleftrightarrow> jobs_ok d \<and> list_ex P (jobs d)"

abbreviation queue_with :: "int \<Rightarrow> db \<Rightarrow> bool" where
  "queue_with i \<equiv> queue_has (\<lambda>k. jb_id k = i)"

text \<open>The job is no longer running: it is done, dead or queued again, and nobody holds its lock.\<close>

definition settled :: "int \<Rightarrow> db \<Rightarrow> bool" where
  "settled i d \<longleftrightarrow> list_ex (\<lambda>k. jb_id k = i \<and> jb_state k \<noteq> Running \<and> jb_locked_by k = None) (jobs d)"

lemma instance_jobs:
  "instance_upsert_success dmn sw v u t d = Inr (r, d') \<Longrightarrow> jobs d' = jobs d \<and> next_id d' = next_id d"
  "instance_record_failure dmn u t d = Inr (r, d') \<Longrightarrow> jobs d' = jobs d \<and> next_id d' = next_id d"
  by (auto simp: instance_upsert_success_def instance_record_failure_def Let_def split: if_splits)

text \<open>A mark that survives the ways a job is finished.\<close>

locale stable_mark =
  fixes P :: "job \<Rightarrow> bool"
  assumes finished_mark: "P k \<Longrightarrow> P (done_row e k)"
    and buried_mark: "P k \<Longrightarrow> P (dead_row r k)"
    and requeued_mark: "P k \<Longrightarrow> P (retry_row b r t k)"
begin

lemma keeps_frame:
  assumes "\<And>t d r d'. f t d = Inr (r, d') \<Longrightarrow> jobs d' = jobs d \<and> next_id d \<le> next_id d'"
  shows "keeps (queue_has P) f"
  by (rule keepsI) (use assms in \<open>fastforce simp: queue_has_def intro: jobs_ok_frame\<close>)

lemma queue_has_update:
  assumes "\<And>t k. P k \<Longrightarrow> P (f t k)" and "keeps jobs_ok (update_job W f)"
  shows "keeps (queue_has P) (update_job W f)"
proof (rule keepsI)
  fix t d r d'
  assume q: "queue_has P d" and u: "update_job W f t d = Inr (r, d')"
  have "jobs_ok d'" using keepsD [OF assms(2) _ u] q by (simp add: queue_has_def)
  moreover have "list_ex P (jobs d')"
  proof -
    from q obtain k where k: "k \<in> set (jobs d)" "P k" by (auto simp: queue_has_def list_ex_iff)
    then have "P (if W t k then f t k else k)" using assms(1) by simp
    with k(1) u show ?thesis by (auto simp: update_job_def list_ex_iff set_update_where)
  qed
  ultimately show "queue_has P d'" by (simp add: queue_has_def)
qed

lemma queue_has_create: "keeps (queue_has P) (job_create k v ra)"
proof (rule keepsI)
  fix t d j d'
  assume q: "queue_has P d" and c: "job_create k v ra t d = Inr (j, d')"
  from q have "jobs_ok d'" using keepsD [OF jobs_ok_create _ c] by (simp add: queue_has_def)
  with q c show "queue_has P d'" by (auto simp: queue_has_def job_create_def Let_def)
qed

end

sublocale stable_mark \<subseteq> delivery_job_invariant "queue_has P"
proof unfold_locales
  show "keeps (queue_has P) (instance_upsert_success dmn sw v u)" for dmn sw v u
    by (rule keeps_frame) (auto dest: instance_jobs)
  show "keeps (queue_has P) (instance_record_failure dmn u)" for dmn u
    by (rule keeps_frame) (auto dest: instance_jobs)
  show "keeps (queue_has P) (job_create k v ra)" for k v ra by (rule queue_has_create)
  show "keeps (queue_has P) (job_mark_done n e)" for n e
    unfolding job_mark_done_def by (rule queue_has_update [OF _ done_t.keeps_jobs_ok]) (rule finished_mark)
  show dead: "keeps (queue_has P) (job_dead_letter n r)" for n r
    unfolding job_dead_letter_def by (rule queue_has_update [OF _ dead_t.keeps_jobs_ok]) (rule buried_mark)
  have "keeps (queue_has P) (retry_stmt n b r)" for n b r
    unfolding retry_stmt_def by (rule queue_has_update [OF _ retry_t.keeps_jobs_ok]) (rule requeued_mark)
  with dead show "keeps (queue_has P) (retry_or_bury j r)" for j r by (simp add: retry_or_bury_def)
qed

interpretation delivery_jobs: stable_mark "\<lambda>k. jb_id k = i" for i
  by unfold_locales (simp_all add: done_row_def dead_row_def retry_row_def)

lemma settled_update:
  assumes q: "queue_with i d" and f: "\<And>t k. jb_id (f t k) = jb_id k \<and> jb_state (f t k) \<noteq> Running \<and> jb_locked_by (f t k) = None"
  shows "\<exists>r d'. update_job (\<lambda>_ k. jb_id k = i) f t d = Inr (r, d') \<and> settled i d'"
proof -
  from q obtain k where k: "jobs_ok d" "k \<in> set (jobs d)" "jb_id k = i"
    by (auto simp: queue_has_def list_ex_iff)
  from update_job_by_id [OF k(1,2), of f t] k(2,3) f show ?thesis
    by (auto simp: settled_def list_ex_iff bex_update_where intro!: bexI [of _ k])
qed

lemma settled_exec:
  assumes "alive (queue_with i) all_up w" and "\<And>t d. queue_with i d \<Longrightarrow> \<exists>r d'. f t d = Inr (r, d') \<and> settled i d'"
  shows "settled i (db (snd (exec f w)))"
  using assms(1) assms(2) [of "db w" "now w"] by (auto simp: alive_def exec_up)

lemma settling_statements:
  assumes "alive (queue_with (jb_id job)) all_up w"
  shows "settled (jb_id job) (db (done_or_log job e w))" "settled (jb_id job) (db (dead_or_log job r w))"
    "settled (jb_id job) (db (schedule_deliver_retry job r w))"
proof -
  note rows = done_row_def dead_row_def retry_row_def
  show "settled (jb_id job) (db (done_or_log job e w))"
    unfolding done_or_log_def job_mark_done_def
    by (rule settled_exec [OF assms]) (rule settled_update, auto simp: rows)
  show "settled (jb_id job) (db (dead_or_log job r w))"
    unfolding dead_or_log_def job_dead_letter_def
    by (rule settled_exec [OF assms]) (rule settled_update, auto simp: rows)
  show "settled (jb_id job) (db (schedule_deliver_retry job r w))"
    unfolding schedule_deliver_retry_def retry_or_bury_def job_dead_letter_def retry_stmt_def
    by (rule settled_exec [OF assms]) (cases "attempts_exhausted job"; simp; rule settled_update; auto simp: rows)
qed

lemma deliver_create_settles:
  assumes "alive (queue_with (jb_id job)) all_up w"
  shows "settled (jb_id job) (db (process_deliver_create job w))"
  unfolding process_deliver_create_def clip_fetch_by_id_def actor_fetch_by_id_def actor_by_def
    follow_remote_follower_actors_def using assms
  by (auto intro!: settling_statements split: option.splits prod.splits sum.splits
      dest!: delivery_jobs.read_alive delivery_jobs.fan_out_aliveD)

lemma process_deliver_settles:
  assumes "alive (queue_with (jb_id job)) all_up w"
  shows "settled (jb_id job) (db (process_deliver env job w))"
proof -
  obtain r w' where d: "deliver_job env job w = (r, w')" by fastforce
  have "alive (queue_with (jb_id job)) all_up w'" using delivery_jobs.deliver_job_alive [OF assms, of env job] d by simp
  with d assms show ?thesis
    by (auto simp: process_deliver_def intro!: settling_statements deliver_create_settles
        split: sum.splits deliver_outcome.splits)
qed

section \<open>Properties of delivery\<close>

text \<open>every delivery job the worker takes is settled: whatever its payload, whatever the remote
  server answers and wherever the attempt fails, the job ends done, dead or queued again with its
  lock released, as long as the database is reachable.\<close>

theorem delivery_settles_job:
  assumes up: "\<forall>n. link w n = Up" and ok: "jobs_ok (db w)" and row: "k \<in> set (jobs (db w))" "jb_id k = jb_id job"
  shows "settled (jb_id job) (db (process_deliver env job w))"
  by (rule process_deliver_settles) (use assms in \<open>auto simp: alive_def queue_has_def list_ex_iff\<close>)

text \<open>A delivery that was answered used a client of the guard.\<close>

lemma answered_by_unblocked:
  fixes w :: "'z deliver_world_scheme"
  assumes "deliver_activity env signer u v w = (Inr oc, w')" and "guard_ok (dw_guard w)"
  shows "\<exists>n c w0. \<not> ip_is_blocked (fst (ct_addr c)) (eg_allow_loopback (dw_guard w)) \<and> \<not> ct_redirects c \<and>
    u_host u = Some (ct_host c) \<and> oc = fst (record_response u (dv_send env n c u v) (w0 :: 'z deliver_world_scheme))"
proof -
  obtain pem where pem: "ac_private_key_pem signer = Some pem" "dv_key_ok env pem"
    using assms(1) by (cases "ac_private_key_pem signer") (auto simp: deliver_activity_def split: if_splits)
  obtain cr g where cr: "client_for (dv_net env (ticks w)) u (dw_guard w) = (cr, g)" by fastforce
  obtain c where c: "client_for (dv_net env (ticks w)) u (dw_guard w) = (Inr c, g)"
    using assms(1) cr pem by (cases cr) (auto simp: deliver_activity_def)
  have oc: "\<exists>n w0. oc = fst (record_response u (dv_send env n c u v) (w0 :: 'z deliver_world_scheme))"
    using assms(1) pem c
    by (auto simp: deliver_activity_def Let_def apfst_def map_prod_def case_prod_beta split: option.splits)
  have ok: "guard_ok g" using client_for_ok [OF assms(2)] c by (metis snd_conv)
  have al: "eg_allow_loopback g = eg_allow_loopback (dw_guard w)"
    using client_for_le [of "dw_guard w" "dv_net env (ticks w)" u] c by (simp add: guard_le_def)
  obtain host where "u_host u = Some host" "eg_clients g (host, url_port u) = Some c"
    using client_for_result [OF assms(2) c] by blast
  with ok al have "\<not> ip_is_blocked (fst (ct_addr c)) (eg_allow_loopback (dw_guard w)) \<and> \<not> ct_redirects c \<and>
      u_host u = Some (ct_host c)"
    by (cases "ct_addr c") (fastforce simp: guard_ok_def)
  with oc show ?thesis by blast
qed

lemma final_outcome:
  "fst (record_response u r w) = Delivered \<or> fst (record_response u r w) = Reject_Outcome txt \<Longrightarrow>
     \<exists>s b. r = Response s b \<and> (is_success s \<or> is_permanent s)"
  by (auto simp: record_response_def Let_def split: http_result.splits if_splits)

text \<open>The remote server answered for good: success, or a permanent rejection.\<close>

definition answered :: "deliver_env \<Rightarrow> bool \<Rightarrow> bool" where
  "answered env allow_loopback \<longleftrightarrow> (\<exists>n c u v s b. dv_send env n c u v = Response s b \<and> (is_success s \<or> is_permanent s) \<and>
     \<not> ip_is_blocked (fst (ct_addr c)) allow_loopback \<and> \<not> ct_redirects c \<and> u_host u = Some (ct_host c))"

lemma answered_activity:
  assumes "deliver_activity env signer u v w = (Inr oc, w')" and "guard_ok (dw_guard w)"
    and "oc = Delivered \<or> oc = Reject_Outcome txt"
  shows "answered env (eg_allow_loopback (dw_guard w))"
  using answered_by_unblocked [OF assms(1,2)] assms(3) final_outcome unfolding answered_def by metis

lemma require_actor_guard: "require_actor i m w = (r, w') \<Longrightarrow> dw_guard w' = dw_guard w"
proof -
  assume r: "require_actor i m w = (r, w')"
  obtain e q where e: "exec (actor_fetch_by_id i) w = (e, q)" by fastforce
  have "dw_guard q = dw_guard w" using e by (cases rule: exec_cases [of "actor_fetch_by_id i" w]) auto
  with r e show ?thesis by (cases e) (auto simp: require_actor_def fed_def split: option.splits)
qed

lemma answered_job:
  assumes "deliver_job env job w = (Inr oc, w')" and "guard_ok (dw_guard w)"
    and "oc = Delivered \<or> oc = Reject_Outcome txt"
  shows "answered env (eg_allow_loopback (dw_guard w))"
proof -
  have "\<exists>signer inbox v w0. deliver_to env signer inbox v w0 = (Inr oc, w') \<and> dw_guard w0 = dw_guard w"
    using assms(1)
    by (auto simp: deliver_job_def Let_def try_then_def split: if_splits option.splits prod.splits sum.splits
        dest!: require_actor_guard) metis+
  then show ?thesis
    using assms(2,3) answered_activity by (fastforce simp: deliver_to_def split: option.splits)
qed

lemma retry_not_done:
  assumes "\<forall>n. link w n = Up" and "k \<in> set (jobs (db (schedule_deliver_retry job r w)))" and "jb_id k = jb_id job"
  shows "jb_state k \<noteq> Done"
proof -
  obtain f where f: "jobs (db (schedule_deliver_retry job r w)) = update_where (\<lambda>k. jb_id k = jb_id job) f (jobs (db w))"
    "\<And>k. jb_id (f k) = jb_id k \<and> jb_state (f k) \<noteq> Done"
    using assms(1)
    by (cases "attempts_exhausted job")
       (auto simp: schedule_deliver_retry_def retry_or_bury_def exec_up job_dead_letter_def retry_stmt_def
         update_job_def dead_row_def retry_row_def)
  from assms(2) obtain s where "k = (if jb_id s = jb_id job then f s else s)"
    unfolding f(1) mem_update_where by blast
  with f(2) [of s] assms(3) show ?thesis by (auto split: if_splits)
qed


text \<open>The fan-out with the connection up.\<close>

definition delivery_payload :: "int \<Rightarrow> json \<Rightarrow> actor \<Rightarrow> json" where
  "delivery_payload author_id activity f = JObj [(''actor_id'', JInt author_id),
     (''inbox_url'', JStr (shared_inbox_or_inbox f)), (''activity'', activity)]"

lemma fan_out_up:
  assumes "\<forall>n. link w n = Up"
  shows "\<exists>w' js. fan_out a v fs w = (0, w') \<and> (\<forall>n. link w' n = Up) \<and> jobs (db w') = jobs (db w) @ js \<and>
    map jb_payload js = map (delivery_payload a v) fs \<and>
    list_all (\<lambda>j. jb_kind j = ''deliver'' \<and> jb_state j = Queued) js"
  using assms
proof (induction fs arbitrary: w)
  case (Cons f fs)
  let ?e = "enqueue_delivery a (shared_inbox_or_inbox f) v w"
  obtain j w1 where e: "?e = (Inr (), w1)" "\<forall>n. link w1 n = Up" "jobs (db w1) = jobs (db w) @ [j]"
    "jb_payload j = delivery_payload a v f" "jb_kind j = ''deliver''" "jb_state j = Queued"
    using Cons.prems by (auto simp: enqueue_delivery_def fed_def exec_up job_create_def Let_def delivery_payload_def)
  from Cons.IH [OF e(2)] e show ?case by fastforce
qed simp

text \<open>C14: publishing reaches every follower. A \<^verbatim>\<open>deliver_create\<close> job queues, in order, exactly one
  delivery per remote actor with an accepted follow of the author, signed by the author, addressed
  to the actor's shared inbox or else its inbox, carrying the activity of the job, and is done.\<close>

theorem publish_reaches_every_follower:
  assumes up: "\<forall>n. link w n = Up" and ok: "jobs_ok (db w)" and row: "job \<in> set (jobs (db w))"
    and payload: "get_i64 ''clip_id'' (jb_payload job) = Some cid" "json_get ''activity'' (jb_payload job) = Some v"
    and clip: "filter (\<lambda>c. cl_id c = cid) (clips (db w)) = [c]"
    and author: "filter (\<lambda>a. ac_id a = cl_actor_id c) (actors (db w)) = [a]"
    and fs: "fs = sort_key ac_id (map snd (filter (\<lambda>(f, x). fo_target_actor_id f = ac_id a \<and> fo_state f = Accepted \<and>
      ac_domain x \<noteq> None) (follow_join fo_follower_actor_id (db w))))"
  shows "\<exists>js. jobs (db (process_deliver_create job w)) =
      update_where (\<lambda>k. jb_id k = jb_id job) (done_row None) (jobs (db w)) @ js \<and>
    map jb_payload js = map (delivery_payload (ac_id a) v) fs \<and>
    list_all (\<lambda>j. jb_kind j = ''deliver'' \<and> jb_state j = Queued) js"
proof -
  define w3 where "w3 = w\<lparr>ticks := Suc (Suc (Suc (ticks w)))\<rparr>"
  obtain w' js where f: "fan_out (ac_id a) v fs w3 = (0, w')" "\<forall>n. link w' n = Up" "jobs (db w') = jobs (db w) @ js"
    "map jb_payload js = map (delivery_payload (ac_id a) v) fs"
    "list_all (\<lambda>j. jb_kind j = ''deliver'' \<and> jb_state j = Queued) js"
    using fan_out_up [of w3 "ac_id a" v fs] up by (auto simp: w3_def)
  have "process_deliver_create job w = done_or_log job None w'"
    using f(1) unfolding w3_def
    by (simp add: process_deliver_create_def payload clip_fetch_by_id_def actor_fetch_by_id_def actor_by_def
        follow_remote_follower_actors_def select_def exec_up up clip author fs [symmetric] fan_out_note_def
        del: not_None_eq)
  then have finished: "jobs (db (process_deliver_create job w)) =
      update_where (\<lambda>k. jb_id k = jb_id job) (done_row None) (jobs (db w) @ js)"
    using f(2,3) by (simp add: done_or_log_def job_mark_done_def update_job_def exec_up)
  have "alive (queue_with (jb_id job)) all_up w3" using up ok row by (auto simp: alive_def queue_has_def list_ex_iff w3_def)
  from delivery_jobs.fan_out_alive [OF this, of "ac_id a" v fs] f(1,3) have "distinct (map jb_id (jobs (db w) @ js))"
    by (simp add: alive_def queue_has_def jobs_ok_def)
  with row have "update_where (\<lambda>k. jb_id k = jb_id job) (done_row None) js = js"
    by (intro update_where_id) (auto simp: rev_image_eqI)
  with finished f(4,5) show ?thesis by auto
qed

text \<open>Alice's server with a delivery to bob and the announcement of a clip in the queue.\<close>

definition demo_deliver_env :: deliver_env where
  "demo_deliver_env = \<lparr>dv_net = (\<lambda>_. demo_net), dv_parse_url = demo_parse_url, dv_key_ok = (\<lambda>_. True),
     dv_sign = (\<lambda>_ _ _. None), dv_send = (\<lambda>_ _ _ _. Response 202 [])\<rparr>"

definition demo_delivery :: job where
  "demo_delivery = \<lparr>jb_id = 5, jb_kind = ''deliver'', jb_payload = JObj [(''actor_id'', JInt 1),
     (''inbox_url'', JStr ''https://b.test/bob/inbox''), (''activity'', JNull)], jb_run_after = 0, jb_attempts = 0,
     jb_max_attempts = 5, jb_last_error = None, jb_state = Running, jb_locked_by = Some ''w'',
     jb_locked_at = Some 0, jb_created_at = 0\<rparr>"

definition demo_publish :: job where
  "demo_publish = demo_delivery\<lparr>jb_kind := ''deliver_create'',
     jb_payload := JObj [(''clip_id'', JInt 7), (''activity'', JNull)]\<rparr>"

definition demo_world :: "job \<Rightarrow> deliver_world" where
  "demo_world j = \<lparr>db = demo_inbox_db\<lparr>jobs := [j], clips := [demo_clip],
     follows := [new_follow 2 1 (Some ''https://b.test/f'') Accepted 3]\<rparr>, clock = int, link = (\<lambda>_. Up), ticks = 0,
     dw_guard = egress_new False\<rparr>"

lemma demo_world_ok:
  "jobs_ok (db (demo_world demo_delivery))" "jobs_ok (db (demo_world demo_publish))"
  "\<forall>n. link (demo_world j) n = Up" "j \<in> set (jobs (db (demo_world j)))" "guard_ok (dw_guard (demo_world j))"
  by (code_simp, code_simp) (simp_all add: demo_world_def guard_ok_new)

theorem delivery_settles_job_witness:
  "settled 5 (db (process_deliver demo_deliver_env demo_delivery (demo_world demo_delivery)))"
  using delivery_settles_job [OF demo_world_ok(3) demo_world_ok(1) demo_world_ok(4) refl, of demo_deliver_env]
  by (simp add: demo_delivery_def)


theorem publish_reaches_every_follower_witness:
  "\<exists>js. jobs (db (process_deliver_create demo_publish (demo_world demo_publish))) =
     [done_row None demo_publish] @ js \<and> map jb_payload js = [delivery_payload 1 JNull demo_bob]"
proof -
  have clip: "filter (\<lambda>c. cl_id c = 7) (clips (db (demo_world demo_publish))) = [demo_clip]"
    and author: "filter (\<lambda>a. ac_id a = cl_actor_id demo_clip) (actors (db (demo_world demo_publish))) = [demo_author]"
    and followers: "sort_key ac_id (map snd (filter (\<lambda>(f, x). fo_target_actor_id f = ac_id demo_author \<and>
      fo_state f = Accepted \<and> ac_domain x \<noteq> None) (follow_join fo_follower_actor_id (db (demo_world demo_publish))))) = [demo_bob]"
    and payload: "get_i64 ''clip_id'' (jb_payload demo_publish) = Some 7" "json_get ''activity'' (jb_payload demo_publish) = Some JNull"
    and ids: "ac_id demo_author = 1" "jb_id demo_publish = 5"
    by code_simp+
  have j: "jobs (db (demo_world demo_publish)) = [demo_publish]" by (simp add: demo_world_def)
  from publish_reaches_every_follower [OF demo_world_ok(3) demo_world_ok(2) demo_world_ok(4) payload clip author followers [symmetric]]
  show ?thesis unfolding j ids by (auto simp: ids)
qed

end
