(* ===== verification/Backfill.thy ===== *)
theory Backfill
  imports Deliver
begin

text \<open>
  Backfilling a remote actor's posts: \<^verbatim>\<open>crates/federation/src/backfill.rs\<close>. The feed of the
  actor is fetched through the egress guard, its \<^verbatim>\<open>/v/{code}\<close> links are followed and every note is
  stored the way the inbox stores a \<^verbatim>\<open>Create\<close>. Parameters (record \<open>backfill_env\<close>): the HTTP
  exchange, the JSON and date parsers and \<^verbatim>\<open>Url::path_segments\<close>. The lemmas show which codes are
  taken from a feed, and that a run adds a bounded number of the actor's own clips.
\<close>

section \<open>Environment\<close>

text \<open>A \<^verbatim>\<open>GET\<close> ends in a transport error or a status with a body (\<open>None\<close> if it cannot be read).\<close>

datatype get_result = Get_Error string | Got int "string option"

record backfill_env = deliver_env +
  bf_get :: "nat \<Rightarrow> client \<Rightarrow> url \<Rightarrow> get_result"
  bf_json :: "string \<Rightarrow> json option"
  bf_rfc3339 :: "string \<Rightarrow> timestamp option"
  bf_segments :: "url \<Rightarrow> string list"

fun json_as_u64 :: "json \<Rightarrow> nat option" where
  "json_as_u64 (JInt n) = (if 0 \<le> n \<and> n < 2 ^ 64 then Some (nat n) else None)"
| "json_as_u64 _ = None"

section \<open>The feed\<close>

definition is_ascii_digit :: "char \<Rightarrow> bool" where
  "is_ascii_digit c \<longleftrightarrow> 48 \<le> code c \<and> code c \<le> 57"

definition atom_feed_url :: "'y backfill_env_scheme \<Rightarrow> actor \<Rightarrow> fed_error + url option" where
  "atom_feed_url env actor = (case dv_parse_url env (ac_ap_id actor) of
     None \<Rightarrow> Inl (Fed_Other ''backfill: bad ap_id'')
   | Some ap \<Rightarrow>
       if u_scheme ap \<noteq> ''https'' then Inr None
       else let host = unwrap_or [] (u_host ap);
                seg = bf_segments env ap;
                i = (if seg = [] then [] else last seg)
            in if ''users'' \<notin> set seg \<or> i = [] \<or> \<not> list_all is_ascii_digit i then Inr None
               else case dv_parse_url env (''https://'' @ host @ ''/feeds/'' @ i @ ''.atom'') of
                 None \<Rightarrow> Inl (Fed_Other ''backfill: bad feed url'')
               | Some u \<Rightarrow> Inr (Some u))"

definition is_code_char :: "char \<Rightarrow> bool" where
  "is_code_char c \<longleftrightarrow> is_ascii_alphanumeric c \<or> c = CHR ''_'' \<or> c = CHR ''-'' \<or> c = CHR ''~''"

text \<open>What follows the first occurrence of a pattern.\<close>

fun after_sub :: "string \<Rightarrow> string \<Rightarrow> string option" where
  "after_sub p [] = None"
| "after_sub p (c # s) = (if starts_with p (c # s) then Some (drop (length p) (c # s)) else after_sub p s)"

lemma after_sub_split: "after_sub p s = Some tail \<Longrightarrow> \<exists>pre. s = pre @ p @ tail"
proof (induction s)
  case (Cons c s)
  show ?case
  proof (cases "starts_with p (c # s)")
    case True
    with Cons.prems have "c # s = [] @ p @ tail" by (metis after_sub.simps(2) append_Nil append_take_drop_id option.inject starts_with_def)
    then show ?thesis by blast
  next
    case False
    with Cons obtain pre where "s = pre @ p @ tail" by auto
    then have "c # s = (c # pre) @ p @ tail" by simp
    then show ?thesis by blast
  qed
qed simp

text \<open>The \<^verbatim>\<open>while let\<close> loop of \<^verbatim>\<open>extract_video_links\<close>: each turn drops at least the marker.\<close>

function video_links :: "string list \<Rightarrow> string \<Rightarrow> string list" where
  "video_links out rest = (case after_sub ''/v/'' rest of
     None \<Rightarrow> out
   | Some tail \<Rightarrow>
       let cd = takeWhile is_code_char tail in
       video_links (if cd \<noteq> [] \<and> cd \<notin> set out then out @ [cd] else out) (drop (length cd) tail))"
  by pat_completeness auto
termination
proof (relation "measure (\<lambda>(out, rest). length rest)", goal_cases)
  case (2 out rest tail cd)
  then have "length tail < length rest" using after_sub_split by fastforce
  then show ?case by auto
qed simp

declare video_links.simps [simp del]

definition extract_video_links :: "string \<Rightarrow> string list" where
  "extract_video_links atom_xml = video_links [] atom_xml"

section \<open>Fetching and storing\<close>

definition http_get ::
  "'y backfill_env_scheme \<Rightarrow> url \<Rightarrow> 'z deliver_world_scheme \<Rightarrow> (fed_error + int \<times> string option) \<times> 'z deliver_world_scheme" where
  "http_get env u w = (case client_for (dv_net env (ticks w)) u (dw_guard w) of
     (Inl e, g) \<Rightarrow> (Inl (Fed_Other ''egress''), w\<lparr>dw_guard := g\<rparr>)
   | (Inr c, g) \<Rightarrow> (case bf_get env (ticks w) c u of
       Get_Error e \<Rightarrow> (Inl (Fed_Other e), w\<lparr>dw_guard := g\<rparr>)
     | Got status body \<Rightarrow> (Inr (status, body), w\<lparr>dw_guard := g\<rparr>)))"

definition ingest_note ::
  "parsed_note \<Rightarrow> actor \<Rightarrow> 'z pool_scheme \<Rightarrow> (fed_error + bool) \<times> 'z pool_scheme" where
  "ingest_note n actor w =
     (if pn_attributed_to n \<noteq> ac_ap_id actor
      then (Inl (Fed_Other ''backfill: note attributedTo does not match actor''), w)
      else case store_remote_clip n actor w of
        (Inr c, w) \<Rightarrow> (Inr True, w)
      | (Inl e, w) \<Rightarrow> if is_unique_violation e then (Inr False, w) else (Inl (Fed_Db e), w))"

definition fetch_and_ingest_one ::
  "'y backfill_env_scheme \<Rightarrow> actor \<Rightarrow> string \<Rightarrow> 'z deliver_world_scheme \<Rightarrow> (fed_error + bool) \<times> 'z deliver_world_scheme" where
  "fetch_and_ingest_one env actor cd w = (case dv_parse_url env (''https://loops.video/v/'' @ cd) of
     None \<Rightarrow> (Inl (Fed_Other ''backfill: bad shortcode url''), w)
   | Some u \<Rightarrow> try_then (http_get env u w) (\<lambda>(status, body) w.
       if \<not> is_success status then (Inl (Fed_Other (''note fetch '' @ show_int status)), w)
       else case Option.bind body (bf_json env) of
         None \<Rightarrow> (Inl (Fed_Other ''json''), w)
       | Some note \<Rightarrow> (case parse_inbound_note (bf_rfc3339 env) note of
           Inl reason \<Rightarrow> (Inr False, w)
         | Inr n \<Rightarrow> ingest_note n actor w)))"

text \<open>The loop over the codes; an error on one post is logged and skipped.\<close>

fun ingest_all ::
  "'y backfill_env_scheme \<Rightarrow> actor \<Rightarrow> string list \<Rightarrow> 'z deliver_world_scheme \<Rightarrow> nat \<times> 'z deliver_world_scheme" where
  "ingest_all env actor [] w = (0, w)"
| "ingest_all env actor (cd # cds) w =
     (case fetch_and_ingest_one env actor cd w of
        (r, w) \<Rightarrow> (case ingest_all env actor cds w of
          (created, w) \<Rightarrow> ((if r = Inr True then Suc created else created), w)))"

definition backfill_actor_posts ::
  "'y backfill_env_scheme \<Rightarrow> int \<Rightarrow> nat \<Rightarrow> 'z deliver_world_scheme \<Rightarrow> (fed_error + nat) \<times> 'z deliver_world_scheme" where
  "backfill_actor_posts env actor_id mx w =
     try_then (require_actor actor_id ''backfill: actor not found'' w) (\<lambda>actor w.
       if ac_domain actor = None then (Inl (Fed_Other ''backfill: actor is local''), w)
       else case atom_feed_url env actor of
         Inl e \<Rightarrow> (Inl e, w)
       | Inr None \<Rightarrow> (Inr 0, w)
       | Inr (Some feed_url) \<Rightarrow> try_then (http_get env feed_url w) (\<lambda>(status, body) w.
           if \<not> is_success status then (Inl (Fed_Other ''backfill: feed fetch failed''), w)
           else case body of
             None \<Rightarrow> (Inl (Fed_Other ''body''), w)
           | Some xml \<Rightarrow> apfst Inr (ingest_all env actor (take mx (extract_video_links xml)) w)))"

definition backfill_max :: "job \<Rightarrow> nat" where
  "backfill_max job = unwrap_or 20 (Option.bind (json_get ''max'' (jb_payload job)) json_as_u64)"

definition process_backfill_job :: "'y backfill_env_scheme \<Rightarrow> job \<Rightarrow> 'z deliver_world_scheme \<Rightarrow> 'z deliver_world_scheme" where
  "process_backfill_job env job w = (case get_i64 ''actor_id'' (jb_payload job) of
     None \<Rightarrow> dead_or_log job ''malformed backfill_actor payload'' w
   | Some actor_id \<Rightarrow> (case backfill_actor_posts env actor_id (backfill_max job) w of
       (Inr created, w) \<Rightarrow> done_or_log job None w
     | (Inl e, w) \<Rightarrow> dead_or_log job (''backfill failed: '' @ fed_detail e) w))"

section \<open>What a feed yields\<close>

lemma video_links_sound:
  assumes "distinct out" "list_all (\<lambda>c. c \<noteq> [] \<and> list_all is_code_char c) out"
  shows "distinct (video_links out rest) \<and> list_all (\<lambda>c. c \<noteq> [] \<and> list_all is_code_char c) (video_links out rest)"
  using assms
proof (induction out rest rule: video_links.induct)
  case (1 out rest)
  show ?case
  proof (cases "after_sub ''/v/'' rest")
    case None
    with 1 show ?thesis by (simp add: video_links.simps [of out rest])
  next
    case (Some tail)
    have "list_all is_code_char (takeWhile is_code_char tail)" by (auto simp: list_all_iff dest: set_takeWhileD)
    with 1 Some show ?thesis by (simp add: video_links.simps [of out rest] Let_def)
  qed
qed

lemma video_links_occur:
  "c \<in> set (video_links out rest) \<Longrightarrow> c \<in> set out \<or> (\<exists>pre post. rest = pre @ ''/v/'' @ c @ post)"
proof (induction out rest rule: video_links.induct)
  case (1 out rest)
  show ?case
  proof (cases "after_sub ''/v/'' rest")
    case None
    with 1 show ?thesis by (simp add: video_links.simps [of out rest])
  next
    case (Some tail)
    define cd where "cd = takeWhile is_code_char tail"
    obtain pre where pre: "rest = pre @ ''/v/'' @ tail" using after_sub_split [OF Some] by blast
    have tail: "tail = cd @ drop (length cd) tail" unfolding cd_def by (metis takeWhile_eq_take append_take_drop_id)
    from 1(1) [OF Some cd_def] 1(2) Some
    have "c \<in> set out \<or> c = cd \<or> (\<exists>pre' post. drop (length cd) tail = pre' @ ''/v/'' @ c @ post)"
      by (auto simp: video_links.simps [of out rest] Let_def cd_def split: if_splits)
    then consider "c \<in> set out" | "c = cd" | pre' post where "drop (length cd) tail = pre' @ ''/v/'' @ c @ post" by blast
    then show ?thesis
    proof cases
      case 2
      with pre tail have "rest = pre @ ''/v/'' @ c @ drop (length cd) tail" by simp
      then show ?thesis by blast
    next
      case 3
      with pre tail have "rest = (pre @ ''/v/'' @ cd @ pre') @ ''/v/'' @ c @ post" by (metis append.assoc)
      then show ?thesis by blast
    qed simp
  qed
qed

section \<open>What a run adds\<close>

text \<open>A clip a backfill of the actor may add: the clip of a note that names the actor as its author.\<close>

definition own_clip :: "actor \<Rightarrow> clip \<Rightarrow> bool" where
  "own_clip a c \<longleftrightarrow> cl_actor_id c = ac_id a \<and> (\<exists>n. remote_clip_of n c \<and> pn_attributed_to n = ac_ap_id a)"

definition grown_by :: "nat \<Rightarrow> actor \<Rightarrow> clip list \<Rightarrow> db \<Rightarrow> bool" where
  "grown_by k a cs d \<longleftrightarrow> (\<exists>new. clips d = cs @ new \<and> length new \<le> k \<and> list_all (own_clip a) new)"

lemma grown_by_refl: "clips d = cs \<Longrightarrow> grown_by k a cs d"
  by (auto simp: grown_by_def)

lemma grown_by_trans:
  assumes "grown_by i a cs d" and "grown_by j a (clips d) d'"
  shows "grown_by (i + j) a cs d'"
proof -
  from assms obtain x y where "clips d = cs @ x" "length x \<le> i" "list_all (own_clip a) x"
    "clips d' = clips d @ y" "length y \<le> j" "list_all (own_clip a) y"
    by (auto simp: grown_by_def)
  then show ?thesis by (auto simp: grown_by_def intro!: exI [of _ "x @ y"])
qed

lemma http_get_db: "http_get env u w = (r, w') \<Longrightarrow> db w' = db w \<and> ticks w' = ticks w \<and> link w' = link w"
  by (auto simp: http_get_def split: prod.splits sum.splits get_result.splits)

lemma created_remote_author:
  "clip_create_remote i x cp du wd h u s cw pub t d = Inr (c, d') \<Longrightarrow> cl_actor_id c = i"
  by (auto simp: clip_create_remote_def insert_clip_def put_clips_def new_clip_def split: if_splits)

lemma ingest_note_grows:
  assumes "ingest_note n a w = (r, w')"
  shows "grown_by 1 a (clips (db w)) (db w')"
proof (cases "pn_attributed_to n = ac_ap_id a")
  case True
  obtain sr q where st: "store_remote_clip n a w = (sr, q)" by fastforce
  have "clips (db q) = clips (db w) \<or> (\<exists>c. own_clip a c \<and> clips (db q) = clips (db w) @ [c])"
    using exec_post [OF st [unfolded store_remote_clip_def]] True unfolding own_clip_def
    by (auto dest: created_remote_clip created_remote_author)
  then have "grown_by 1 a (clips (db w)) (db q)" by (auto simp: grown_by_def)
  with assms True st show ?thesis by (auto simp: ingest_note_def split: sum.splits if_splits)
qed (use assms in \<open>auto simp: ingest_note_def intro: grown_by_refl\<close>)

lemma fetch_one_grows:
  assumes "fetch_and_ingest_one env a cd w = (r, w')"
  shows "grown_by 1 a (clips (db w)) (db w')"
proof (cases "dv_parse_url env (''https://loops.video/v/'' @ cd)")
  case (Some u)
  obtain gr q where g: "http_get env u w = (gr, q)" by fastforce
  have q: "clips (db q) = clips (db w)" using http_get_db [OF g] by simp
  with assms Some g show ?thesis
    by (cases gr)
       (auto simp: fetch_and_ingest_one_def grown_by_refl split: if_splits option.splits sum.splits
         dest!: ingest_note_grows)
qed (use assms in \<open>auto simp: fetch_and_ingest_one_def intro: grown_by_refl\<close>)

lemma ingest_all_grows: "grown_by (length cds) a (clips (db w)) (db (snd (ingest_all env a cds w)))"
proof (induction cds arbitrary: w)
  case (Cons cd cds)
  obtain r w1 where f: "fetch_and_ingest_one env a cd w = (r, w1)" by fastforce
  from grown_by_trans [OF fetch_one_grows [OF f] Cons.IH [of w1]] f show ?case
    by (simp add: case_prod_beta)
qed (simp add: grown_by_refl)

lemma require_actor_db:
  assumes "require_actor i m w = (r, w')"
  shows "db w' = db w" and "r = Inr a \<Longrightarrow> a \<in> set (actors (db w)) \<and> ac_id a = i"
proof -
  obtain e q where e: "exec (actor_fetch_by_id i) w = (e, q)" by fastforce
  note sel = exec_selectD [OF e [unfolded actor_fetch_by_id_def actor_by_def]]
  show "db w' = db w" using assms e sel by (cases e) (auto simp: require_actor_def fed_def split: option.splits)
  show "r = Inr a \<Longrightarrow> a \<in> set (actors (db w)) \<and> ac_id a = i"
    using assms e sel
    by (cases e) (auto simp: require_actor_def fed_def split: option.splits dest!: fetch_optional_Some_mem [OF sym])
qed

lemma backfill_posts_grow:
  assumes "backfill_actor_posts env i mx w = (r, w')" and "clips (db w') \<noteq> clips (db w)"
  shows "\<exists>a. a \<in> set (actors (db w)) \<and> ac_id a = i \<and> ac_domain a \<noteq> None \<and> grown_by mx a (clips (db w)) (db w')"
proof -
  obtain ar q where ra: "require_actor i ''backfill: actor not found'' w = (ar, q)" by fastforce
  have q: "db q = db w" using require_actor_db(1) [OF ra] .
  obtain a where a: "ar = Inr a" "a \<in> set (actors (db w))" "ac_id a = i"
    using assms ra q require_actor_db(2) [OF ra] by (cases ar) (auto simp: backfill_actor_posts_def)
  obtain u where u: "ac_domain a \<noteq> None" "atom_feed_url env a = Inr (Some u)"
    using assms ra a q by (auto simp: backfill_actor_posts_def split: if_splits sum.splits option.splits)
  obtain gr q' where g: "http_get env u q = (gr, q')" by fastforce
  have q': "db q' = db w" using http_get_db [OF g] q by simp
  obtain status xml where gr: "gr = Inr (status, Some xml)" "is_success status"
    using assms ra a u g q' by (cases gr) (auto simp: backfill_actor_posts_def split: if_splits option.splits)
  let ?cds = "take mx (extract_video_links xml)"
  have "w' = snd (ingest_all env a ?cds q')"
    using assms(1) ra a u g gr by (auto simp: backfill_actor_posts_def apfst_def map_prod_def case_prod_beta)
  with ingest_all_grows [of ?cds a q' env] q' have "grown_by (length ?cds) a (clips (db w)) (db w')" by simp
  then have "grown_by mx a (clips (db w)) (db w')" by (auto simp: grown_by_def)
  with a u show ?thesis by blast
qed

lemma done_dead_clips:
  "clips (db (done_or_log j e w)) = clips (db w)" "clips (db (dead_or_log j e' w)) = clips (db w)"
proof -
  have "keeps (clips_are (clips (db w))) (update_job P f)" for P f
    by (rule keepsI) (auto simp: clips_are_def update_job_def)
  then have "clips (db (snd (exec (update_job P f) w))) = clips (db w)" for P f
    using keeps_exec [of "clips_are (clips (db w))" "update_job P f" w] by (simp add: clips_are_def)
  then show "clips (db (done_or_log j e w)) = clips (db w)" "clips (db (dead_or_log j e' w)) = clips (db w)"
    by (simp_all add: done_or_log_def dead_or_log_def job_mark_done_def job_dead_letter_def)
qed

lemma own_clip_caption:
  "own_clip a c \<Longrightarrow> cl_caption_html c = Some s \<Longrightarrow> set s \<inter> markup_chars = {}"
  unfolding own_clip_def using remote_clip_caption by blast


section \<open>What a backfill keeps\<close>

lemma http_get_alive: "alive I L w \<Longrightarrow> alive I L (snd (http_get env u w))"
  using http_get_db [of env u w, OF prod.collapse [symmetric]] by (simp add: alive_def)

locale backfill_invariant = delivery_job_invariant +
  assumes keep_remote: "keeps I (clip_create_remote a x cp du wd h u s cw pub)"
begin

lemma ingest_note_alive: "alive I L w \<Longrightarrow> alive I L (snd (ingest_note n a w))"
  by (auto simp: ingest_note_def store_remote_clip_def split: prod.splits sum.splits
      dest!: alive_execD [OF _ keep_remote])

lemma ingest_one_alive:
  assumes "alive I L w"
  shows "alive I L (snd (fetch_and_ingest_one env a cd w))"
proof (cases "dv_parse_url env (''https://loops.video/v/'' @ cd)")
  case (Some u)
  obtain gr q where g: "http_get env u w = (gr, q)" by fastforce
  have "alive I L q" using http_get_alive [OF assms, of env u] g by simp
  with Some g show ?thesis
    by (cases gr) (auto simp: fetch_and_ingest_one_def ingest_note_alive split: option.splits sum.splits)
qed (use assms in \<open>simp add: fetch_and_ingest_one_def\<close>)

lemma ingest_all_alive: "alive I L w \<Longrightarrow> alive I L (snd (ingest_all env a cds w))"
proof (induction cds arbitrary: w)
  case (Cons cd cds)
  from Cons.IH [OF ingest_one_alive [OF Cons.prems, of env a cd]] show ?case by (simp add: case_prod_beta)
qed simp

lemma backfill_posts_alive:
  assumes "alive I L w"
  shows "alive I L (snd (backfill_actor_posts env x mx w))"
  unfolding backfill_actor_posts_def
  by (rule alive_try [OF require_actor_alive [OF assms]])
     (auto intro!: alive_try http_get_alive ingest_all_alive split: sum.splits option.splits
       simp: apfst_def map_prod_def case_prod_beta)

lemma backfill_posts_aliveD: "backfill_actor_posts env x mx w = (r, w') \<Longrightarrow> alive I L w \<Longrightarrow> alive I L w'"
  using backfill_posts_alive [of L w env x mx] by simp

lemma process_backfill_alive: "alive I L w \<Longrightarrow> alive I L (process_backfill_job env job w)"
  by (auto simp: process_backfill_job_def intro!: finish_alive split: option.splits prod.splits sum.splits
      dest!: backfill_posts_aliveD)

end

sublocale stable_mark \<subseteq> backfill_invariant "queue_has P"
  by unfold_locales (rule keeps_frame, auto simp: clip_create_remote_def insert_clip_def put_clips_def split: if_splits)

lemma backfill_settles:
  assumes "alive (queue_with (jb_id job)) all_up w"
  shows "settled (jb_id job) (db (process_backfill_job env job w))"
  using assms
  by (auto simp: process_backfill_job_def intro!: settling_statements split: option.splits prod.splits sum.splits
      dest!: delivery_jobs.backfill_posts_aliveD)

section \<open>Backfill and tombstones\<close>

text \<open>The inbox never stores a note whose id is tombstoned. A backfill does not look: the post of a
  known remote actor that was deleted before it was ever stored comes back.\<close>

theorem backfill_ignores_tombstones:
  assumes up: "link w (ticks w) = Up" and gone: "buried (pn_id n) (db w)"
    and author: "pn_attributed_to n = ac_ap_id a" "has_actor (ac_id a) (db w)"
    and table: "clips_unique (clips (db w))" "list_all (\<lambda>c. cl_ap_id c \<noteq> pn_id n) (clips (db w))"
  shows "\<exists>w'. ingest_note n a w = (Inr True, w') \<and> \<not> buried (pn_id n) (db w')"
proof -
  have "clips_unique (clips (db w) @ [c])" if "cl_ap_id c = pn_id n" "cl_sha256_hash c = None" for c
    using table that by (auto simp: clips_unique_def unique_on_snoc active_sha_key_def list_all_iff)
  with up author show ?thesis
    by (auto simp: ingest_note_def store_remote_clip_def exec_up clip_create_remote_def insert_clip_def put_clips_def
        new_clip_def buried_def)
qed

section \<open>A small instance\<close>

text \<open>Bob's server publishes a feed with one link, which leads to a note by bob.\<close>

definition demo_peer :: actor where
  "demo_peer = demo_bob\<lparr>ac_ap_id := ''https://b.test/users/2''\<rparr>"

definition demo_post :: json where
  "demo_post = JObj [(''type'', JStr ''Note''), (''id'', JStr ''https://b.test/9''),
     (''attributedTo'', JStr ''https://b.test/users/2''), (''content'', JStr ''<b>hi</b>''),
     (''attachment'', JArr [JObj [(''type'', JStr ''Video''), (''mediaType'', JStr ''video/mp4''),
       (''url'', JStr ''https://b.test/9.mp4'')]])]"

definition demo_backfill_env :: backfill_env where
  "demo_backfill_env = \<lparr>dv_net = (\<lambda>_. demo_net), dv_parse_url = demo_parse_url, dv_key_ok = (\<lambda>_. True),
     dv_sign = (\<lambda>_ _ _. None), dv_send = (\<lambda>_ _ _ _. Response 202 []),
     bf_get = (\<lambda>_ _ u. Got 200 (Some (if u_host u = Some ''b.test'' then ''<link href='' @ ''https://loops.video/v/x9/>'' else []))),
     bf_json = (\<lambda>_. Some demo_post), bf_rfc3339 = demo_parse_rfc3339,
     bf_segments = (\<lambda>u. tl (split_on (CHR ''/'') (drop 8 (u_str u))))\<rparr>"

definition demo_backfill :: job where
  "demo_backfill = demo_delivery\<lparr>jb_kind := ''backfill_actor'', jb_payload := JObj [(''actor_id'', JInt 2)]\<rparr>"

definition demo_peer_world :: deliver_world where
  "demo_peer_world = (demo_world demo_backfill)\<lparr>db := (db (demo_world demo_backfill))\<lparr>actors := [demo_author, demo_peer]\<rparr>\<rparr>"


end
