(* ===== verification/Media.thy ===== *)
theory Media
  imports Note
begin

text \<open>
  The media crate (\<^verbatim>\<open>crates/media/src\<close>): container sniffing, the reading of an \<^verbatim>\<open>ffprobe\<close> run, the
  accept/reject decision, the rendition ladder, and the object store on the local file system. A run
  of \<^verbatim>\<open>ffprobe\<close> or \<^verbatim>\<open>ffmpeg\<close> is a parameter (their command lines are left out); every file operation
  may fail, a write also half-way. Paths are lists of components, as \<^verbatim>\<open>std::path\<close> compares them.
\<close>

section \<open>Errors\<close>

datatype media_error = Unsupported | Io | Undecodable string | Probe_Error string
  | Transcode_Error string | Transcode_Timeout | Probe_Timeout | Not_Found string

section \<open>Probing (\<^verbatim>\<open>probe.rs\<close>)\<close>

datatype container = MP4 | MOV | WEBM

text \<open>The file is a list of bytes; \<^verbatim>\<open>data.len()\<close> guards every slice.\<close>

definition sniff_container :: "string \<Rightarrow> media_error + container" where
  "sniff_container data =
     (if length data \<ge> 4 \<and> take 4 data = [CHR 0x1A, CHR 0x45, CHR 0xDF, CHR 0xA3] then Inr WEBM
      else if length data \<ge> 8 \<and> take 4 (drop 4 data) = ''ftyp''
      then (let brand = (if length data \<ge> 12 then take 4 (drop 8 data) else [])
            in Inr (if brand = ''qt  '' then MOV else MP4))
      else Inl Unsupported)"

record probe_info =
  pi_duration_s :: "f64 option"
  pi_width :: "int option"
  pi_height :: "int option"
  pi_has_audio :: bool

datatype probe_decision = Accept | Reject string

definition f64_zero :: f64 where
  "f64_zero = F_Fin 0"

definition decide :: "probe_info \<Rightarrow> f64 \<Rightarrow> probe_decision" where
  "decide info cap_seconds = (case pi_duration_s info of
     None \<Rightarrow> Reject ''undecodable: no duration reported by ffprobe''
   | Some d \<Rightarrow>
       if \<not> f64_is_finite d \<or> f64_le d f64_zero
       then Reject ''undecodable: invalid duration reported by ffprobe''
       else if f64_less cap_seconds d then Reject ''duration exceeds clip_max_seconds cap''
       else Accept)"

record ffprobe_stream =
  fs_codec_type :: "string option"
  fs_width :: "32 word option"
  fs_height :: "32 word option"

text \<open>How a run of \<^verbatim>\<open>ffprobe\<close> ends: not started or not readable, killed after the timeout, a nonzero
  exit with its message, output that is not the expected JSON, or the parsed output.\<close>

datatype ffprobe_run = Run_Failed string | Run_Timeout | Exit_Failed string | Bad_Json
  | Output "string option" "ffprobe_stream list"

definition is_video :: "ffprobe_stream \<Rightarrow> bool" where
  "is_video s \<longleftrightarrow> fs_codec_type s = Some ''video''"

fun probe :: "ffprobe_run \<Rightarrow> media_error + probe_info" where
  "probe (Run_Failed e) = Inl (Probe_Error e)"
| "probe Run_Timeout = Inl Probe_Timeout"
| "probe (Exit_Failed stderr) = Inl (Undecodable (trim stderr))"
| "probe Bad_Json = Inl (Probe_Error ''ffprobe JSON parse failed'')"
| "probe (Output duration streams) = (case List.find is_video streams of
     None \<Rightarrow> Inl (Undecodable ''no video stream found'')
   | Some video \<Rightarrow> Inr \<lparr>pi_duration_s = Option.bind duration parse_f64,
       pi_width = map_option sint (fs_width video), pi_height = map_option sint (fs_height video),
       pi_has_audio = list_ex (\<lambda>s. fs_codec_type s = Some ''audio'') streams\<rparr>)"

section \<open>The rendition ladder (\<^verbatim>\<open>transcode.rs\<close>)\<close>

definition rungs :: "int \<Rightarrow> (string \<times> int) list" where
  "rungs height = (if height \<ge> 720 then [(''720'', 720)] else []) @ [(''480'', 480)]"

record transcode_video =
  tv_rendition :: string
  tv_data :: string

record transcode_outputs =
  to_videos :: "transcode_video list"
  to_poster :: string
  to_info :: probe_info

text \<open>The two \<^verbatim>\<open>ffmpeg\<close> runs: a rung of the given height, and the poster; each returns the bytes of its
  output file.\<close>

record ffmpeg =
  ff_probe :: "string \<Rightarrow> ffprobe_run"
  ff_mp4 :: "string \<Rightarrow> int \<Rightarrow> bool \<Rightarrow> media_error + string"
  ff_poster :: "string \<Rightarrow> f64 \<Rightarrow> media_error + string"

fun transcode_rungs ::
  "ffmpeg \<Rightarrow> string \<Rightarrow> bool \<Rightarrow> (string \<times> int) list \<Rightarrow> media_error + transcode_video list" where
  "transcode_rungs ff original audio [] = Inr []"
| "transcode_rungs ff original audio ((rendition, h) # rs) = (case ff_mp4 ff original h audio of
     Inl e \<Rightarrow> Inl e
   | Inr data \<Rightarrow> (case transcode_rungs ff original audio rs of
       Inl e \<Rightarrow> Inl e
     | Inr videos \<Rightarrow> Inr (\<lparr>tv_rendition = rendition, tv_data = data\<rparr> # videos)))"

definition transcode :: "ffmpeg \<Rightarrow> string \<Rightarrow> media_error + transcode_outputs" where
  "transcode ff original = (case probe (ff_probe ff original) of
     Inl e \<Rightarrow> Inl e
   | Inr info \<Rightarrow> (case transcode_rungs ff original (pi_has_audio info) (rungs (unwrap_or 0 (pi_height info))) of
       Inl e \<Rightarrow> Inl e
     | Inr videos \<Rightarrow>
         (let at_seconds = f64_scale (1 / 4) (unwrap_or f64_zero (pi_duration_s info)) in
          case ff_poster ff original at_seconds of
            Inl e \<Rightarrow> Inl e
          | Inr poster \<Rightarrow> Inr \<lparr>to_videos = videos, to_poster = poster, to_info = info\<rparr>)))"

section \<open>The local store (\<^verbatim>\<open>store.rs\<close>)\<close>

text \<open>The components of a relative path: separators repeat freely, and \<^verbatim>\<open>.\<close> is dropped.\<close>

definition components :: "string \<Rightarrow> string list" where
  "components s = filter (\<lambda>c. c \<noteq> [] \<and> c \<noteq> ''.'') (split_on (CHR ''/'') s)"

definition path_starts_with :: "string list \<Rightarrow> string list \<Rightarrow> bool" where
  "path_starts_with p base \<longleftrightarrow> take (length base) p = base"

definition abs_path :: "string list \<Rightarrow> string \<Rightarrow> media_error + string list" where
  "abs_path base key =
     (if contains_sub ''..'' key \<or> starts_with ''/'' key then Inl (Probe_Error (''invalid storage key: '' @ key))
      else let path = base @ components key in
        if \<not> path_starts_with path base then Inl (Probe_Error (''invalid storage key: '' @ key))
        else Inr path)"

text \<open>The file system below the store: the files by path, and how each operation ends. A write that
  fails may leave the first bytes behind.\<close>

record media_file =
  fl_data :: string
  fl_mtime :: timestamp

datatype io_state = Io_Ok | Io_Fail | Io_Partial nat

record store =
  sto_root :: "string list"
  sto_files :: "string list \<Rightarrow> media_file option"
  sto_io :: "nat \<Rightarrow> io_state"
  sto_ops :: nat
  sto_clock :: "nat \<Rightarrow> timestamp"

definition next_op :: "store \<Rightarrow> store" where
  "next_op s = s\<lparr>sto_ops := Suc (sto_ops s)\<rparr>"

definition write_file :: "string list \<Rightarrow> string \<Rightarrow> store \<Rightarrow> store" where
  "write_file path data s = s\<lparr>sto_files := (sto_files s)(path \<mapsto> \<lparr>fl_data = data, fl_mtime = sto_clock s (sto_ops s)\<rparr>)\<rparr>"

record stored_file =
  sf_key :: string
  sf_path :: "string list"
  sf_size_bytes :: nat

definition save_bytes :: "string \<Rightarrow> string \<Rightarrow> store \<Rightarrow> (media_error + stored_file) \<times> store" where
  "save_bytes key data s = (case abs_path (sto_root s) key of
     Inl e \<Rightarrow> (Inl e, s)
   | Inr path \<Rightarrow> (case sto_io s (sto_ops s) of
       Io_Ok \<Rightarrow> (Inr \<lparr>sf_key = key, sf_path = path, sf_size_bytes = length data\<rparr>, next_op (write_file path data s))
     | Io_Fail \<Rightarrow> (Inl Io, next_op s)
     | Io_Partial n \<Rightarrow> (Inl Io, next_op (write_file path (take n data) s))))"

text \<open>\<^verbatim>\<open>save_stream\<close>: the reader yields \<open>data\<close>, or fails after it (\<open>all_read\<close> is false).\<close>

definition save_stream :: "string \<Rightarrow> string \<Rightarrow> bool \<Rightarrow> store \<Rightarrow> (media_error + stored_file) \<times> store" where
  "save_stream key data all_read s = (case abs_path (sto_root s) key of
     Inl e \<Rightarrow> (Inl e, s)
   | Inr path \<Rightarrow> (case sto_io s (sto_ops s) of
       Io_Ok \<Rightarrow> if all_read
         then (Inr \<lparr>sf_key = key, sf_path = path, sf_size_bytes = length data\<rparr>, next_op (write_file path data s))
         else (Inl Io, next_op (write_file path data s))
     | Io_Fail \<Rightarrow> (Inl Io, next_op s)
     | Io_Partial n \<Rightarrow> (Inl Io, next_op (write_file path (take n data) s))))"

definition store_delete :: "string \<Rightarrow> store \<Rightarrow> (media_error + unit) \<times> store" where
  "store_delete key s = (case abs_path (sto_root s) key of
     Inl e \<Rightarrow> (Inl e, s)
   | Inr path \<Rightarrow> (if sto_files s path = None then (Inr (), next_op s)
       else if sto_io s (sto_ops s) = Io_Ok
       then (Inr (), next_op (s\<lparr>sto_files := (sto_files s)(path := None)\<rparr>))
       else (Inl Io, next_op s)))"

definition store_open :: "string \<Rightarrow> store \<Rightarrow> (media_error + stored_file) \<times> store" where
  "store_open key s = (case abs_path (sto_root s) key of
     Inl e \<Rightarrow> (Inl e, s)
   | Inr path \<Rightarrow> (case sto_files s path of
       None \<Rightarrow> (Inl (Not_Found key), next_op s)
     | Some f \<Rightarrow> if sto_io s (sto_ops s) = Io_Ok
         then (Inr \<lparr>sf_key = key, sf_path = path, sf_size_bytes = length (fl_data f)\<rparr>, next_op s)
         else (Inl Io, next_op s)))"

section \<open>The contract of a store\<close>

text \<open>
  What the clients of \<^verbatim>\<open>Store\<close> rely on: \<open>content\<close> is what is stored under a key and \<open>aliased\<close> tells when
  two keys name the same object. A successful save is readable, a successful delete leaves nothing,
  and an operation, also a failing one, touches no other object.
\<close>

locale object_store =
  fixes save :: "string \<Rightarrow> string \<Rightarrow> 's \<Rightarrow> ('e + 'f) \<times> 's"
    and remove :: "string \<Rightarrow> 's \<Rightarrow> ('e + unit) \<times> 's"
    and open_key :: "string \<Rightarrow> 's \<Rightarrow> ('e + 'f) \<times> 's"
    and content :: "string \<Rightarrow> 's \<Rightarrow> string option"
    and aliased :: "string \<Rightarrow> string \<Rightarrow> bool"
    and size_of :: "'f \<Rightarrow> nat"
  assumes saved: "save k d s = (Inr f, s') \<Longrightarrow> content k s' = Some d"
    and removed: "remove k s = (Inr (), s') \<Longrightarrow> content k s' = None"
    and save_other: "save k d s = (r, s') \<Longrightarrow> \<not> aliased k k' \<Longrightarrow> content k' s' = content k' s"
    and remove_other: "remove k s = (r2, s') \<Longrightarrow> \<not> aliased k k' \<Longrightarrow> content k' s' = content k' s"
    and opened: "open_key k s = (Inr f, s') \<Longrightarrow> \<exists>d. content k s = Some d \<and> size_of f = length d"
    and open_pure: "open_key k s = (r, s') \<Longrightarrow> content k' s' = content k' s"
begin

lemma save_then_open:
  "save k d s = (Inr f, s1) \<Longrightarrow> open_key k s1 = (Inr f', s2) \<Longrightarrow> size_of f' = length d \<and> content k s2 = Some d"
  using saved opened open_pure by (metis option.inject)

lemma save_then_remove:
  "save k d s = (Inr f, s1) \<Longrightarrow> remove k s1 = (Inr (), s2) \<Longrightarrow> \<not> aliased k k' \<Longrightarrow>
     content k s2 = None \<and> content k' s2 = content k' s"
  using removed save_other remove_other by metis

lemma removed_not_openable:
  "remove k s = (Inr (), s1) \<Longrightarrow> open_key k s1 \<noteq> (Inr f, s2)"
  using removed opened by fastforce

end

definition store_content :: "string \<Rightarrow> store \<Rightarrow> string option" where
  "store_content key s = (case abs_path (sto_root s) key of
     Inl _ \<Rightarrow> None | Inr path \<Rightarrow> map_option fl_data (sto_files s path))"

definition same_key :: "string \<Rightarrow> string \<Rightarrow> bool" where
  "same_key k k' \<longleftrightarrow> components k = components k'"

lemma abs_path_Inr: "abs_path base key = Inr p \<Longrightarrow> p = base @ components key"
  by (auto simp: abs_path_def Let_def split: if_splits)

lemma next_op_simps [simp]: "sto_root (next_op s) = sto_root s" "sto_files (next_op s) = sto_files s"
  "sto_root (write_file p d s) = sto_root s"
  by (simp_all add: next_op_def write_file_def)

lemma store_content_next [simp]: "store_content k (next_op s) = store_content k s"
  by (simp add: store_content_def split: sum.splits)

lemma store_content_remove:
  assumes "abs_path (sto_root s) k = Inr p"
  shows "store_content k (s\<lparr>sto_files := (sto_files s)(p := None)\<rparr>) = None"
    and "\<not> same_key k k' \<Longrightarrow> store_content k' (s\<lparr>sto_files := (sto_files s)(p := None)\<rparr>) = store_content k' s"
  using assms by (auto simp: store_content_def same_key_def split: sum.splits dest!: abs_path_Inr)

lemma store_content_write:
  assumes "abs_path (sto_root s) k = Inr p"
  shows "store_content k (write_file p d s) = Some d"
    and "\<not> same_key k k' \<Longrightarrow> store_content k' (write_file p d s) = store_content k' s"
  using assms
  by (auto simp: store_content_def write_file_def same_key_def split: sum.splits dest!: abs_path_Inr)

interpretation local_store: object_store save_bytes store_delete store_open store_content same_key sf_size_bytes
proof unfold_locales
  fix k k' d f r r2 r3 s s'
  show "save_bytes k d s = (Inr f, s') \<Longrightarrow> store_content k s' = Some d"
    by (auto simp: save_bytes_def store_content_write split: sum.splits io_state.splits)
  show "store_delete k s = (Inr (), s') \<Longrightarrow> store_content k s' = None"
    by (auto simp: store_delete_def store_content_def split: sum.splits if_splits)
  show "save_bytes k d s = (r, s') \<Longrightarrow> \<not> same_key k k' \<Longrightarrow> store_content k' s' = store_content k' s"
    by (auto simp: save_bytes_def store_content_write split: sum.splits io_state.splits)
  show "store_delete k s = (r2, s') \<Longrightarrow> \<not> same_key k k' \<Longrightarrow> store_content k' s' = store_content k' s"
    by (auto simp: store_delete_def store_content_remove split: sum.splits if_splits)
  show "store_open k s = (Inr f, s') \<Longrightarrow> \<exists>d. store_content k s = Some d \<and> sf_size_bytes f = length d"
    by (auto simp: store_open_def store_content_def split: sum.splits option.splits if_splits)
  show "store_open k s = (r3, s') \<Longrightarrow> store_content k' s' = store_content k' s"
    by (auto simp: store_open_def split: sum.splits option.splits if_splits)
qed

section \<open>Paths\<close>

lemma starts_with_Nil [simp]: "starts_with [] s"
  by (simp add: starts_with_def)

lemma starts_with_Cons: "starts_with (x # p) (y # s) \<longleftrightarrow> x = y \<and> starts_with p s"
  by (auto simp: starts_with_def)

lemma split_on_nonempty: "split_on c s \<noteq> []"
  by (induction s) (auto split: list.splits)

lemma split_on_hd_prefix: "split_on c s = p # ps \<Longrightarrow> starts_with p s"
  by (induction s arbitrary: p ps) (auto simp: starts_with_Cons split: if_splits list.splits)

lemma contains_sub_Cons: "contains_sub p s \<Longrightarrow> contains_sub p (c # s)"
  by simp

lemma starts_with_contains: "starts_with p s \<Longrightarrow> contains_sub p s"
  by (cases s) (auto simp: starts_with_def)

text \<open>A piece between separators occurs in the text.\<close>

lemma split_on_contains: "p \<in> set (split_on c s) \<Longrightarrow> contains_sub p s"
proof (induction s)
  case (Cons x s)
  show ?case
  proof (cases "x = c")
    case True
    with Cons show ?thesis by (auto simp: starts_with_contains)
  next
    case False
    then obtain q qs where q: "split_on c s = q # qs" by (cases "split_on c s") (auto simp: split_on_nonempty)
    have "p = x # q \<or> p \<in> set qs" using Cons.prems False q by simp
    then show ?thesis
    proof
      assume "p = x # q"
      with split_on_hd_prefix [OF q] show ?thesis by (simp add: starts_with_Cons)
    next
      assume "p \<in> set qs"
      with Cons.IH q show ?thesis by simp
    qed
  qed
qed simp

section \<open>Properties of the media crate\<close>

text \<open>no storage key escapes the media directory: a key is accepted exactly when it is relative
  and contains no \<^verbatim>\<open>..\<close>, and then its path lies under the root with no parent component.\<close>

theorem store_keys_are_confined:
  "(case abs_path base key of
      Inr path \<Rightarrow> \<exists>rest. path = base @ rest \<and> ''..'' \<notin> set rest \<and> [] \<notin> set rest
    | Inl _ \<Rightarrow> contains_sub ''..'' key \<or> starts_with ''/'' key)"
proof -
  have "''..'' \<notin> set (components key)" if "\<not> contains_sub ''..'' key"
    using that split_on_contains [of "''..''" "CHR ''/''" key] by (auto simp: components_def)
  moreover have "path_starts_with (base @ x) base" for x by (simp add: path_starts_with_def)
  moreover have "[] \<notin> set (components key)" by (simp add: components_def)
  ultimately show ?thesis by (simp add: abs_path_def Let_def)
qed

text \<open>C15: what is saved can be opened with its size, a deleted object cannot be opened, and neither
  saving nor deleting one object changes another, whether or not the file system fails in between.\<close>

theorem store_round_trip:
  assumes "save_bytes k d s = (Inr f, s1)" and "store_open k s1 = (Inr f', s2)" and "store_delete k s2 = (Inr (), s3)"
  shows "sf_size_bytes f' = length d \<and> store_content k s2 = Some d \<and> store_open k s3 \<noteq> (Inr f'', s4) \<and>
    (same_key k k' \<or> store_content k' s3 = store_content k' s)"
proof -
  have "store_content k' s3 = store_content k' s" if "\<not> same_key k k'"
    using that local_store.save_other [OF assms(1)] local_store.open_pure [OF assms(2)]
      local_store.remove_other [OF assms(3)] by simp
  then show ?thesis
    using local_store.save_then_open [OF assms(1,2)] local_store.removed_not_openable [OF assms(3)] by blast
qed

text \<open>an upload is accepted exactly when its duration is a positive finite number that does not
  exceed the cap.\<close>

theorem decide_accepts:
  "decide info cap = Accept \<longleftrightarrow>
     (\<exists>r. pi_duration_s info = Some (F_Fin r) \<and> 0 < r \<and> \<not> f64_less cap (F_Fin r))"
proof (cases "pi_duration_s info")
  case (Some d)
  then show ?thesis by (cases d) (auto simp: decide_def f64_zero_def)
qed (simp add: decide_def)

text \<open>The ladder: a transcode that succeeds produced a 480p rung, and a 720p rung exactly when the
  source is at least 720 pixels tall, in this order.\<close>

lemma transcode_ladder:
  assumes "transcode ff original = Inr out"
  shows "map tv_rendition (to_videos out) =
    (if unwrap_or 0 (pi_height (to_info out)) \<ge> 720 then [''720'', ''480''] else [''480''])"
proof -
  have "transcode_rungs ff original audio rs = Inr vs \<Longrightarrow> map tv_rendition vs = map fst rs" for audio rs vs
    by (induction rs arbitrary: vs) (auto split: sum.splits)
  with assms show ?thesis
    by (auto simp: transcode_def rungs_def Let_def split: sum.splits)
qed

text \<open>Sniffing looks at the first twelve bytes only.\<close>

lemma sniff_prefix: "sniff_container (take 12 data) = sniff_container data"
  by (simp add: sniff_container_def drop_take min_def)

text \<open>A store with one operation at a time succeeding, and an encoder.\<close>

definition demo_store :: store where
  "demo_store = \<lparr>sto_root = [''srv'', ''media''], sto_files = (\<lambda>_. None), sto_io = (\<lambda>_. Io_Ok), sto_ops = 0, sto_clock = int\<rparr>"

definition demo_ffmpeg :: ffmpeg where
  "demo_ffmpeg = \<lparr>ff_probe = (\<lambda>_. Output (Some ''12.5'') [\<lparr>fs_codec_type = Some ''video'', fs_width = Some 1080, fs_height = Some 1920\<rparr>]),
     ff_mp4 = (\<lambda>_ _ _. Inr ''mp4''), ff_poster = (\<lambda>_ _. Inr ''jpg'')\<rparr>"

theorem store_round_trip_witness:
  "\<exists>f s1 f' s2 s3. save_bytes ''original/7.mp4'' ''data'' demo_store = (Inr f, s1) \<and>
     store_open ''original/7.mp4'' s1 = (Inr f', s2) \<and> store_delete ''original/7.mp4'' s2 = (Inr (), s3) \<and>
     sf_size_bytes f' = 4"
proof -
  let ?k = "''original/7.mp4''"
  have "\<exists>f s1 f' s2 s3. save_bytes ?k ''data'' demo_store = (Inr f, s1) \<and> store_open ?k s1 = (Inr f', s2) \<and>
      store_delete ?k s2 = (Inr (), s3)"
    by (simp add: save_bytes_def store_open_def store_delete_def demo_store_def abs_path_def Let_def components_def
        path_starts_with_def starts_with_def write_file_def next_op_def)
  then show ?thesis using store_round_trip [of ?k "''data''" demo_store] by fastforce
qed

end
