(* ===== verification/Worker.thy ===== *)
theory Worker
  imports Backfill Media
begin

text \<open>
  The job runner, \<^verbatim>\<open>crates/server/src/worker.rs\<close>: the handlers of the media pipeline (\<^verbatim>\<open>probe\<close>,
  \<^verbatim>\<open>transcode\<close>, \<^verbatim>\<open>finalize\<close>), the dispatch on the kind of a job, the timeout around it, the turns of
  the worker loops and the reaper. The state is the connection pool, the egress guard and the object
  store. Parameters (record \<open>worker_env\<close>): \<^verbatim>\<open>ffprobe\<close> and \<^verbatim>\<open>ffmpeg\<close>, the scratch directory, the
  texts of library errors and the date printer.

  A job that exceeds its timeout is dropped at an \<^verbatim>\<open>await\<close>: what it did before stands and the
  rest never happens. A dropped handler is the handler run with the database and the disk out of
  reach from that point on.
\<close>

section \<open>State and environment\<close>

record media_world = deliver_world +
  mw_store :: store

record worker_env = backfill_env +
  we_base_url :: string
  we_ff :: "nat \<Rightarrow> ffmpeg"
  we_tempdir :: "nat \<Rightarrow> string option"
  we_read :: "nat \<Rightarrow> string option"
  we_db_text :: "db_error \<Rightarrow> string"
  we_media_text :: "media_error \<Rightarrow> string"
  we_rfc3339 :: "timestamp \<Rightarrow> string"

text \<open>An operation of the object store.\<close>

definition on_store :: "(store \<Rightarrow> 'a \<times> store) \<Rightarrow> 'z media_world_scheme \<Rightarrow> 'a \<times> 'z media_world_scheme" where
  "on_store f w = (case f (mw_store w) of (a, s) \<Rightarrow> (a, w\<lparr>mw_store := s\<rparr>))"

text \<open>Statements whose error is logged or ignored.\<close>

definition fail_clip :: "int \<Rightarrow> 'z pool_scheme \<Rightarrow> 'z pool_scheme" where
  "fail_clip clip_id w = snd (exec (clip_mark_failed clip_id) w)"

definition fail_clip_opt :: "int option \<Rightarrow> 'z pool_scheme \<Rightarrow> 'z pool_scheme" where
  "fail_clip_opt clip_id w = (case clip_id of None \<Rightarrow> w | Some i \<Rightarrow> fail_clip i w)"

definition drop_file :: "string \<Rightarrow> 'z media_world_scheme \<Rightarrow> 'z media_world_scheme" where
  "drop_file key w = snd (on_store (store_delete key) w)"

section \<open>Settings (\<^verbatim>\<open>settings.rs\<close>)\<close>

definition clip_max_seconds_default :: f64 where
  "clip_max_seconds_default = F_Fin 180"

definition numeric_setting :: "string \<Rightarrow> f64 \<Rightarrow> 'z pool_scheme \<Rightarrow> (db_error + f64) \<times> 'z pool_scheme" where
  "numeric_setting key deflt w =
     try_then (exec (setting_fetch_by_key key) w) (\<lambda>row w. (Inr (case row of
         None \<Rightarrow> deflt
       | Some s \<Rightarrow>
           let value = unwrap_or deflt (json_as_f64 (st_value s))
           in if f64_less value f64_zero then deflt else value), w))"

section \<open>Probe\<close>

definition reject_clip :: "job \<Rightarrow> int \<Rightarrow> string option \<Rightarrow> string \<Rightarrow> 'z media_world_scheme \<Rightarrow> 'z media_world_scheme" where
  "reject_clip job clip_id key reason w =
     (let w = fail_clip clip_id w;
          w = (case key of None \<Rightarrow> w | Some k \<Rightarrow> drop_file k w)
      in done_or_log job (Some reason) w)"

definition transcode_payload :: "int \<Rightarrow> string \<Rightarrow> string \<Rightarrow> string \<Rightarrow> json" where
  "transcode_payload clip_id path key mime = JObj [(''clip_id'', JInt clip_id), (''path'', JStr path),
     (''key'', JStr key), (''mime'', JStr mime)]"

definition payload_mime :: "json \<Rightarrow> string" where
  "payload_mime payload = unwrap_or ''video/mp4'' (get_str ''mime'' payload)"

text \<open>The accepted branch: stamp the clip, then queue the transcode.\<close>

definition accept_probe ::
  "'y worker_env_scheme \<Rightarrow> job \<Rightarrow> int \<Rightarrow> string \<Rightarrow> probe_info \<Rightarrow> 'z media_world_scheme \<Rightarrow> 'z media_world_scheme" where
  "accept_probe env job clip_id path info w =
     (case exec (clip_update_probe_info clip_id (pi_duration_s info) (pi_width info) (pi_height info)) w of
        (Inl e, w) \<Rightarrow> dead_or_log job (''probe stamp failed: '' @ we_db_text env e) w
      | (Inr c, w) \<Rightarrow> (case get_str ''key'' (jb_payload job) of
          None \<Rightarrow> done_or_log job (Some ''probe payload missing storage key'') (fail_clip clip_id w)
        | Some key \<Rightarrow>
            (case exec (job_create ''transcode'' (transcode_payload clip_id path key (payload_mime (jb_payload job))) None) w of
               (Inr j, w) \<Rightarrow> done_or_log job None w
             | (Inl e, w) \<Rightarrow> reject_clip job clip_id (Some key) (''transcode enqueue failed: '' @ we_db_text env e) w)))"

definition process_probe :: "'y worker_env_scheme \<Rightarrow> job \<Rightarrow> 'z media_world_scheme \<Rightarrow> 'z media_world_scheme" where
  "process_probe env job w =
     (let payload = jb_payload job; key = get_str ''key'' payload in
      case opt_zip (get_i64 ''clip_id'' payload) (get_str ''path'' payload) of
        None \<Rightarrow> dead_or_log job ''malformed probe payload: clip_id/path missing''
                  (fail_clip_opt (get_i64 ''clip_id'' payload) w)
      | Some (clip_id, path) \<Rightarrow> (case numeric_setting ''clip_max_seconds'' clip_max_seconds_default w of
          (Inl e, w) \<Rightarrow> reject_clip job clip_id key (''settings read failed: '' @ we_db_text env e) w
        | (Inr cap_seconds, w) \<Rightarrow> (case probe (ff_probe (we_ff env (ticks w)) path) of
            Inl e \<Rightarrow> reject_clip job clip_id key (''probe failed: '' @ we_media_text env e) w
          | Inr info \<Rightarrow> (case decide info cap_seconds of
              Reject reason \<Rightarrow> reject_clip job clip_id key reason w
            | Accept \<Rightarrow> accept_probe env job clip_id path info w))))"

section \<open>Transcode\<close>

definition rendition_of :: "string \<Rightarrow> rendition" where
  "rendition_of s = (if s = ''1080'' then R1080 else if s = ''720'' then R720 else if s = ''480'' then R480
     else if s = ''audio'' then R_Audio else R_Orig)"

definition rendition_key :: "int \<Rightarrow> string \<Rightarrow> string" where
  "rendition_key clip_id filename = ''renditions/'' @ show_int clip_id @ ''/'' @ filename"

record asset_spec =
  sp_kind :: asset_kind
  sp_rendition :: string
  sp_filename :: string
  sp_mime :: string
  sp_codec :: "string option"
  sp_data :: string

definition persist_asset ::
  "'y worker_env_scheme \<Rightarrow> int \<Rightarrow> asset_spec \<Rightarrow> 'z media_world_scheme \<Rightarrow> (string + media_asset) \<times> 'z media_world_scheme" where
  "persist_asset env clip_id spec w = (case we_read env (ticks w) of
     Some e \<Rightarrow> (Inl e, w)
   | None \<Rightarrow>
       (let asset_key = rendition_key clip_id (sp_filename spec) in
        case on_store (save_bytes asset_key (sp_data spec)) w of
          (Inl e, w) \<Rightarrow> (Inl (we_media_text env e), w)
        | (Inr stored, w) \<Rightarrow> (case asset_create clip_id \<lparr>as_kind = sp_kind spec, as_rendition = rendition_of (sp_rendition spec),
              as_path = asset_key, as_mime = sp_mime spec, as_size_bytes = Some (int (sf_size_bytes stored)),
              as_bitrate_kbps = None, as_codec = sp_codec spec\<rparr> w of
            (Inl e, w) \<Rightarrow> (Inl (we_db_text env e), w)
          | (Inr a, w) \<Rightarrow> (Inr a, w))))"

definition video_spec :: "transcode_video \<Rightarrow> asset_spec" where
  "video_spec v = \<lparr>sp_kind = Video_Mp4, sp_rendition = tv_rendition v, sp_filename = tv_rendition v @ ''.mp4'',
     sp_mime = ''video/mp4'', sp_codec = Some ''h264'', sp_data = tv_data v\<rparr>"

definition poster_spec :: "string \<Rightarrow> asset_spec" where
  "poster_spec data = \<lparr>sp_kind = Poster, sp_rendition = ''orig'', sp_filename = ''poster.jpg'',
     sp_mime = ''image/jpeg'', sp_codec = None, sp_data = data\<rparr>"

text \<open>The loop over the produced files stops at the first failure.\<close>

fun persist_all ::
  "'y worker_env_scheme \<Rightarrow> int \<Rightarrow> asset_spec list \<Rightarrow> 'z media_world_scheme \<Rightarrow> (string + unit) \<times> 'z media_world_scheme" where
  "persist_all env clip_id [] w = (Inr (), w)"
| "persist_all env clip_id (s # ss) w =
     try_then (persist_asset env clip_id s w) (\<lambda>_ w. persist_all env clip_id ss w)"

text \<open>The row of the original file; its size is read from the store if it can be.\<close>

definition register_original ::
  "'y worker_env_scheme \<Rightarrow> int \<Rightarrow> string \<Rightarrow> string \<Rightarrow> 'z media_world_scheme \<Rightarrow> (string + unit) \<times> 'z media_world_scheme" where
  "register_original env clip_id key mime w =
     (case on_store (store_open key) w of
        (opened, w) \<Rightarrow>
          (let orig_size = (case opened of Inl _ \<Rightarrow> None | Inr f \<Rightarrow> Some (int (sf_size_bytes f))) in
           case exec (asset_upsert clip_id \<lparr>as_kind = Video_Mp4, as_rendition = R_Orig, as_path = key, as_mime = mime,
               as_size_bytes = orig_size, as_bitrate_kbps = None, as_codec = None\<rparr>) w of
             (Inl e, w) \<Rightarrow> (Inl (we_db_text env e), w)
           | (Inr a, w) \<Rightarrow> (Inr (), w)))"

definition persist_outputs ::
  "'y worker_env_scheme \<Rightarrow> int \<Rightarrow> string \<Rightarrow> string \<Rightarrow> transcode_outputs \<Rightarrow> 'z media_world_scheme \<Rightarrow>
     (string + unit) \<times> 'z media_world_scheme" where
  "persist_outputs env clip_id key mime outputs w =
     try_then (persist_all env clip_id (map video_spec (to_videos outputs) @ [poster_spec (to_poster outputs)]) w)
       (\<lambda>_ w. register_original env clip_id key mime w)"

definition fail_transcode ::
  "job \<Rightarrow> int \<Rightarrow> string \<Rightarrow> string \<Rightarrow> 'z media_world_scheme \<Rightarrow> 'z media_world_scheme" where
  "fail_transcode job clip_id original_key reason w =
     (let w = snd (exec (asset_delete_for_clip clip_id) w);
          w = fold (\<lambda>partial. drop_file (rendition_key clip_id partial)) [''720.mp4'', ''480.mp4'', ''poster.jpg''] w;
          w = drop_file original_key w;
          w = fail_clip clip_id w
      in done_or_log job (Some reason) w)"

definition process_transcode :: "'y worker_env_scheme \<Rightarrow> job \<Rightarrow> 'z media_world_scheme \<Rightarrow> 'z media_world_scheme" where
  "process_transcode env job w =
     (let payload = jb_payload job in
      case opt_zip (opt_zip (get_i64 ''clip_id'' payload) (get_str ''path'' payload)) (get_str ''key'' payload) of
        None \<Rightarrow> dead_or_log job ''malformed transcode payload: clip_id/path/key missing''
                  (fail_clip_opt (get_i64 ''clip_id'' payload) w)
      | Some ((clip_id, path), key) \<Rightarrow> (case we_tempdir env (ticks w) of
          Some e \<Rightarrow> fail_transcode job clip_id key (''scratch dir failed: '' @ e) w
        | None \<Rightarrow> (case transcode (we_ff env (ticks w)) path of
            Inl e \<Rightarrow> fail_transcode job clip_id key (''transcode failed: '' @ we_media_text env e) w
          | Inr outputs \<Rightarrow> (case persist_outputs env clip_id key (payload_mime payload) outputs w of
              (Inl reason, w) \<Rightarrow> fail_transcode job clip_id key reason w
            | (Inr _, w) \<Rightarrow> (case exec (job_create ''finalize'' (JObj [(''clip_id'', JInt clip_id)]) None) w of
                (Inr j, w) \<Rightarrow> done_or_log job None w
              | (Inl e, w) \<Rightarrow> fail_transcode job clip_id key (''finalize enqueue failed: '' @ we_db_text env e) w)))))"

section \<open>Finalize\<close>

definition or_text :: "'y worker_env_scheme \<Rightarrow> (db_error + 'a) \<times> 'p \<Rightarrow> (string + 'a) \<times> 'p" where
  "or_text env r = (case r of (Inl e, w) \<Rightarrow> (Inl (we_db_text env e), w) | (Inr a, w) \<Rightarrow> (Inr a, w))"

text \<open>\<^verbatim>\<open>.map_err(..)?.ok_or_else(..)?\<close>.\<close>

definition require_row ::
  "'y worker_env_scheme \<Rightarrow> 'a option stmt \<Rightarrow> string \<Rightarrow> 'z pool_scheme \<Rightarrow> (string + 'a) \<times> 'z pool_scheme" where
  "require_row env f missing w = try_then (or_text env (exec f w))
     (\<lambda>row w. case row of None \<Rightarrow> (Inl missing, w) | Some a \<Rightarrow> (Inr a, w))"

text \<open>The outbound \<^verbatim>\<open>Create\<close> of a clip with its canonical id: log it, then queue the fan-out.\<close>

definition announce_clip ::
  "'y worker_env_scheme \<Rightarrow> clip \<Rightarrow> actor \<Rightarrow> string \<Rightarrow> 'z pool_scheme \<Rightarrow> (string + unit) \<times> 'z pool_scheme" where
  "announce_clip env clip author canonical w =
     (case exec (asset_largest_video_filename (cl_id clip)) w of
        (row, w) \<Rightarrow>
          (let media_filename = coalesce (case row of Inl _ \<Rightarrow> None | Inr r \<Rightarrow> r) (Some ''720.mp4'');
               activity = clip_create_activity (we_rfc3339 env) (we_base_url env) clip author media_filename;
               w = snd (exec (activity_create_outbound (activity_id_from_json activity) (ac_ap_id author)
                     (Some canonical) activity) w)
           in try_then (or_text env (exec (job_create ''deliver_create''
                (JObj [(''clip_id'', JInt (cl_id clip)), (''activity'', activity)]) None) w)) (\<lambda>_ w. (Inr (), w))))"

definition enqueue_clip_create ::
  "'y worker_env_scheme \<Rightarrow> int \<Rightarrow> 'z pool_scheme \<Rightarrow> (string + unit) \<times> 'z pool_scheme" where
  "enqueue_clip_create env clip_id w =
     try_then (require_row env (clip_fetch_by_id clip_id)
        (''clip '' @ show_int clip_id @ '' vanished before finalize federation'') w) (\<lambda>clip w.
      if cl_origin clip \<noteq> Local \<or> cl_deleted_at clip \<noteq> None then (Inr (), w)
      else try_then (require_row env (actor_fetch_by_id (cl_actor_id clip))
             (''clip '' @ show_int clip_id @ '' has no author row'') w) (\<lambda>author w.
        if ac_domain author \<noteq> None then (Inr (), w)
        else let canonical = clip_object_id (we_base_url env) clip_id in
          try_then (if cl_ap_id clip \<noteq> canonical
                    then try_then (or_text env (exec (clip_set_ap_id clip_id canonical) w)) (\<lambda>_ w. (Inr (), w))
                    else (Inr (), w)) (\<lambda>_ w.
          try_then (require_row env (clip_fetch_by_id clip_id)
             (''clip '' @ show_int clip_id @ '' vanished after ap_id update'') w) (\<lambda>clip w.
            announce_clip env clip author canonical w))))"

definition process_finalize :: "'y worker_env_scheme \<Rightarrow> job \<Rightarrow> 'z pool_scheme \<Rightarrow> 'z pool_scheme" where
  "process_finalize env job w = (case get_i64 ''clip_id'' (jb_payload job) of
     None \<Rightarrow> dead_or_log job ''malformed finalize payload: clip_id missing'' w
   | Some clip_id \<Rightarrow> (case exec (asset_mark_ready_for_clip clip_id) w of
       (Inl e, w) \<Rightarrow> done_or_log job (Some (''asset stamp failed: '' @ we_db_text env e)) (fail_clip clip_id w)
     | (Inr _, w) \<Rightarrow> (case exec (clip_mark_ready clip_id) w of
         (Inl e, w) \<Rightarrow> done_or_log job (Some (''finalize failed: '' @ we_db_text env e)) (fail_clip clip_id w)
       | (Inr c, w) \<Rightarrow> (case enqueue_clip_create env clip_id w of
           (Inl e, w) \<Rightarrow> done_or_log job (Some (''federation enqueue failed: '' @ e)) w
         | (Inr _, w) \<Rightarrow> done_or_log job None w))))"

section \<open>Dispatch, timeout and the loops\<close>

text \<open>The delivery handlers see the part of the environment they were given.\<close>

definition delivery_part :: "'y worker_env_scheme \<Rightarrow> deliver_env" where
  "delivery_part env = \<lparr>dv_net = dv_net env, dv_parse_url = dv_parse_url env, dv_key_ok = dv_key_ok env,
     dv_sign = dv_sign env, dv_send = dv_send env\<rparr>"

definition handle_job :: "'y worker_env_scheme \<Rightarrow> job \<Rightarrow> 'z media_world_scheme \<Rightarrow> 'z media_world_scheme" where
  "handle_job env job w =
     (if starts_with ''deliver'' (jb_kind job) then process_deliver (delivery_part env) job w
      else if jb_kind job = ''probe'' then process_probe env job w
      else if jb_kind job = ''transcode'' then process_transcode env job w
      else if jb_kind job = ''finalize'' then process_finalize env job w
      else if jb_kind job = ''backfill_actor'' then process_backfill_job env job w
      else dead_or_log job (''unknown job kind: '' @ jb_kind job)
             (fail_clip_opt (get_i64 ''clip_id'' (jb_payload job)) w))"

definition bump_job_after_failure :: "job \<Rightarrow> int option \<Rightarrow> string \<Rightarrow> 'z pool_scheme \<Rightarrow> 'z pool_scheme" where
  "bump_job_after_failure job clip_id reason w = (case exec (bump_stmt job reason) w of
     (Inl e, w) \<Rightarrow> w
   | (Inr bumped, w) \<Rightarrow> if bumped then fail_clip_opt clip_id w else w)"

text \<open>Where a handler is dropped: after so many statements and so many disk operations; the
  statement it waits for may still be applied, the write it waits for may be cut short.\<close>

record cut =
  ct_ticks :: nat
  ct_applied :: bool
  ct_ops :: nat
  ct_write :: io_state

definition cut_off :: "cut \<Rightarrow> 'z media_world_scheme \<Rightarrow> 'z media_world_scheme" where
  "cut_off c w = w\<lparr>
     link := (\<lambda>n. if n < ct_ticks c then link w n else if n = ct_ticks c \<and> ct_applied c then Ack_Lost else Down),
     mw_store := (mw_store w)\<lparr>sto_io := (\<lambda>n. if n < ct_ops c then sto_io (mw_store w) n
       else if n = ct_ops c \<and> ct_write c \<noteq> Io_Ok then ct_write c else Io_Fail)\<rparr>\<rparr>"

text \<open>The world goes on as it was: only the handler had lost it.\<close>

definition resume :: "'z media_world_scheme \<Rightarrow> 'z media_world_scheme \<Rightarrow> 'z media_world_scheme" where
  "resume w0 w = w\<lparr>link := link w0, mw_store := (mw_store w)\<lparr>sto_io := sto_io (mw_store w0)\<rparr>\<rparr>"

definition process_job_with_egress ::
  "'y worker_env_scheme \<Rightarrow> cut option \<Rightarrow> job \<Rightarrow> 'z media_world_scheme \<Rightarrow> 'z media_world_scheme" where
  "process_job_with_egress env timed_out job w = (case timed_out of
     None \<Rightarrow> handle_job env job w
   | Some c \<Rightarrow> bump_job_after_failure job (get_i64 ''clip_id'' (jb_payload job)) ''job timed out''
       (resume w (handle_job env job (cut_off c w))))"

text \<open>One turn of \<^verbatim>\<open>worker_loop\<close> and of the delivery worker; an empty queue or an error only waits.\<close>

definition worker_turn ::
  "'y worker_env_scheme \<Rightarrow> (int \<Rightarrow> bool) \<Rightarrow> string \<Rightarrow> cut option \<Rightarrow> 'z media_world_scheme \<Rightarrow> 'z media_world_scheme" where
  "worker_turn env skip worker timed_out w = (case exec (job_claim_next_due skip worker) w of
     (Inr (Some job), w) \<Rightarrow> process_job_with_egress env timed_out job w
   | (_, w) \<Rightarrow> w)"

definition delivery_turn ::
  "deliver_env \<Rightarrow> (int \<Rightarrow> bool) \<Rightarrow> 'z deliver_world_scheme \<Rightarrow> 'z deliver_world_scheme" where
  "delivery_turn env skip w = (case exec (job_claim_next_due skip ''delivery'') w of
     (Inr (Some job), w) \<Rightarrow>
       if starts_with ''deliver'' (jb_kind job) then process_deliver env job w
       else snd (exec (hand_back_stmt (jb_id job)) w)
   | (_, w) \<Rightarrow> w)"

definition fail_clip_of :: "job \<Rightarrow> 'z pool_scheme \<Rightarrow> 'z pool_scheme" where
  "fail_clip_of job w = (if jb_state job = Dead then fail_clip_opt (get_i64 ''clip_id'' (jb_payload job)) w else w)"

definition reap_stale_jobs :: "int \<Rightarrow> 'z pool_scheme \<Rightarrow> 'z pool_scheme" where
  "reap_stale_jobs job_timeout_secs w = (case exec (reap_stmt job_timeout_secs) w of
     (Inl e, w) \<Rightarrow> w
   | (Inr rows, w) \<Rightarrow> fold fail_clip_of rows w)"

section \<open>What the handlers keep\<close>

lemma exec_store [simp]: "mw_store (snd (exec f w)) = mw_store w"
  by (cases rule: exec_cases [of f w]) auto

lemma exec_storeD: "exec f w = (r, w') \<Longrightarrow> mw_store w' = mw_store w"
  using exec_store [of f w] by simp

lemma alive_store [simp]: "alive I L (w\<lparr>mw_store := s\<rparr>) = alive I L w"
  by (simp add: alive_def)

lemma on_store_alive: "alive I L w \<Longrightarrow> alive I L (snd (on_store f w))"
  by (simp add: on_store_def split: prod.splits)

lemma on_store_aliveD: "on_store f w = (r, w') \<Longrightarrow> alive I L w \<Longrightarrow> alive I L w'"
  using on_store_alive [of I L w f] by simp

lemma drop_file_alive: "alive I L w \<Longrightarrow> alive I L (drop_file k w)"
  by (simp add: drop_file_def on_store_alive)

lemma numeric_setting_alive: "numeric_setting k x w = (r, w') \<Longrightarrow> alive I L w \<Longrightarrow> alive I L w'"
proof -
  assume n: "numeric_setting k x w = (r, w')" and a: "alive I L w"
  obtain e q where e: "exec (setting_fetch_by_key k) w = (e, q)" by fastforce
  have "alive I L q" using alive_execD [OF e _ a] by (simp add: setting_fetch_by_key_def)
  with n e show ?thesis by (cases e) (auto simp: numeric_setting_def)
qed

text \<open>A handler that ended by finishing its job, done or dead, in a world where a property holds.\<close>

definition ends :: "(db \<Rightarrow> bool) \<Rightarrow> (nat \<Rightarrow> link_state) \<Rightarrow> job \<Rightarrow> 'z pool_scheme \<Rightarrow> bool" where
  "ends I L j w \<longleftrightarrow> (\<exists>w' e. alive I L w' \<and> (w = done_or_log j e w' \<or> (\<exists>r. w = dead_or_log j r w')))"

text \<open>A property of the tables that every statement of the pipeline keeps is kept by a whole job.\<close>

locale worker_invariant = backfill_invariant +
  assumes keep_failed: "keeps I (clip_mark_failed i)"
    and keep_probe: "keeps I (clip_update_probe_info i du wd h)"
    and keep_ready: "keeps I (clip_mark_ready i)"
    and keep_ap_id: "keeps I (clip_set_ap_id i x)"
    and keep_drop_assets: "keeps I (asset_delete_for_clip i)"
    and keep_new_asset: "keeps I (insert_asset_if_new i s)"
    and keep_upsert_asset: "keeps I (asset_upsert i s)"
    and keep_stamp_assets: "keeps I (asset_mark_ready_for_clip i)"
    and keep_outbound: "keeps I (activity_create_outbound ai aa ao raw)"
begin

lemma fail_clip_alive: "alive I L w \<Longrightarrow> alive I L (fail_clip i w)"
  by (simp add: fail_clip_def alive_exec keep_failed)

lemma fail_clip_opt_alive: "alive I L w \<Longrightarrow> alive I L (fail_clip_opt i w)"
  by (simp add: fail_clip_opt_def fail_clip_alive split: option.splits)

lemma asset_create_alive: "alive I L w \<Longrightarrow> alive I L (snd (asset_create i s w))"
  unfolding asset_create_def
  by (rule alive_try) (auto intro!: alive_exec keep_new_asset keeps_fetch_one split: option.splits)

lemma asset_create_aliveD: "asset_create i s w = (r, w') \<Longrightarrow> alive I L w \<Longrightarrow> alive I L w'"
  using asset_create_alive [of L w i s] by simp

lemma persist_asset_alive: "alive I L w \<Longrightarrow> alive I L (snd (persist_asset env i s w))"
  by (auto simp: persist_asset_def Let_def split: option.splits prod.splits sum.splits
      dest!: on_store_aliveD asset_create_aliveD)

lemma persist_all_alive: "alive I L w \<Longrightarrow> alive I L (snd (persist_all env i ss w))"
  by (induction ss arbitrary: w) (auto intro!: alive_try persist_asset_alive)

lemma register_original_alive: "alive I L w \<Longrightarrow> alive I L (snd (register_original env i k m w))"
  by (auto simp: register_original_def Let_def split: prod.splits sum.splits
      dest!: on_store_aliveD alive_execD [OF _ keep_upsert_asset])

lemma persist_outputs_aliveD:
  assumes "persist_outputs env i k m out w = (r, w')" and "alive I L w"
  shows "alive I L w'"
proof -
  have "alive I L (snd (persist_outputs env i k m out w))"
    unfolding persist_outputs_def by (rule alive_try) (auto intro: persist_all_alive register_original_alive assms(2))
  with assms(1) show ?thesis by simp
qed

lemma require_row_alive: "keeps I f \<Longrightarrow> alive I L w \<Longrightarrow> alive I L (snd (require_row env f m w))"
  unfolding require_row_def
  by (rule alive_try) (auto simp: or_text_def intro: alive_exec split: prod.splits sum.splits option.splits dest: alive_execD)

lemma or_text_alive: "keeps I f \<Longrightarrow> alive I L w \<Longrightarrow> alive I L (snd (or_text env (exec f w)))"
  by (auto simp: or_text_def split: prod.splits sum.splits dest: alive_execD)

lemma announce_alive:
  assumes "alive I L w"
  shows "alive I L (snd (announce_clip env c a can w))"
proof -
  obtain r q where r: "exec (asset_largest_video_filename (cl_id c)) w = (r, q)" by fastforce
  have "alive I L q" using alive_execD [OF r _ assms] by (simp add: asset_largest_video_filename_def Let_def)
  with r show ?thesis
    by (auto simp: announce_clip_def Let_def intro!: alive_try or_text_alive alive_exec keep_create keep_outbound)
qed

lemma enqueue_clip_create_alive:
  "alive I L w \<Longrightarrow> alive I L (snd (enqueue_clip_create env i w))"
  unfolding enqueue_clip_create_def clip_fetch_by_id_def actor_fetch_by_id_def actor_by_def Let_def
  by (auto intro!: alive_try require_row_alive or_text_alive announce_alive keep_ap_id)

lemma enqueue_clip_create_aliveD: "enqueue_clip_create env i w = (r, w') \<Longrightarrow> alive I L w \<Longrightarrow> alive I L w'"
  using enqueue_clip_create_alive [of L w env i] by simp

text \<open>Each handler ends by finishing its job in a world where the property still holds.\<close>

lemma reject_clip_ends: "alive I L w \<Longrightarrow> \<exists>w'. reject_clip j i k r w = done_or_log j (Some r) w' \<and> alive I L w'"
  by (auto simp: reject_clip_def Let_def intro: fail_clip_alive drop_file_alive split: option.splits)

lemma fail_transcode_ends:
  "alive I L w \<Longrightarrow> \<exists>w'. fail_transcode j i k r w = done_or_log j (Some r) w' \<and> alive I L w'"
  by (auto simp: fail_transcode_def Let_def intro!: fail_clip_alive drop_file_alive alive_exec keep_drop_assets)

lemma ends_intros:
  "alive I L w \<Longrightarrow> ends I L j (done_or_log j e w)" "alive I L w \<Longrightarrow> ends I L j (dead_or_log j r w)"
  "alive I L v \<Longrightarrow> ends I L j (reject_clip j i k x v)" "alive I L v \<Longrightarrow> ends I L j (fail_transcode j i k' x v)"
  using reject_clip_ends [of L v j i k x] fail_transcode_ends [of L v j i k' x] by (auto simp: ends_def)

lemma accept_probe_ends: "alive I L w \<Longrightarrow> ends I L job (accept_probe env job i path info w)"
  by (auto simp: accept_probe_def intro!: ends_intros fail_clip_alive split: prod.splits sum.splits option.splits
      dest!: alive_execD [OF _ keep_probe] alive_execD [OF _ keep_create])

lemma process_probe_ends: "alive I L w \<Longrightarrow> ends I L job (process_probe env job w)"
  by (auto simp: process_probe_def Let_def intro!: ends_intros accept_probe_ends fail_clip_opt_alive
      split: prod.splits sum.splits option.splits probe_decision.splits dest!: numeric_setting_alive)

lemma process_transcode_ends: "alive I L w \<Longrightarrow> ends I L job (process_transcode env job w)"
  by (auto simp: process_transcode_def Let_def intro!: ends_intros fail_clip_opt_alive
      split: prod.splits sum.splits option.splits unit.splits
      dest!: persist_outputs_aliveD alive_execD [OF _ keep_create])

lemma process_finalize_ends: "alive I L w \<Longrightarrow> ends I L job (process_finalize env job w)"
  by (auto simp: process_finalize_def intro!: ends_intros fail_clip_alive
      split: prod.splits sum.splits option.splits unit.splits
      dest!: enqueue_clip_create_aliveD alive_execD [OF _ keep_stamp_assets] alive_execD [OF _ keep_ready])

lemma ends_alive: "ends I L j w \<Longrightarrow> alive I L w"
  by (auto simp: ends_def intro: finish_alive)

lemmas media_handlers_end = process_probe_ends process_transcode_ends process_finalize_ends

lemma handle_job_alive: "alive I L w \<Longrightarrow> alive I L (handle_job env job w)"
  by (auto simp: handle_job_def intro: process_deliver_alive process_backfill_alive fail_clip_opt_alive finish_alive
      media_handlers_end [THEN ends_alive])

end

section \<open>No job is left behind\<close>

text \<open>The clip and asset statements leave the queue alone.\<close>

lemma clip_stmt_jobs:
  "update_clip i f t d = Inr (r, d') \<Longrightarrow> jobs d' = jobs d \<and> next_id d' = next_id d"
  by (auto simp: update_clip_def put_clips_def Let_def split: if_splits)

lemma insert_asset_jobs: "insert_asset i s d = Inr (r, d') \<Longrightarrow> jobs d' = jobs d \<and> next_id d \<le> next_id d'"
  by (auto simp: insert_asset_def Let_def split: if_splits)

lemma asset_stmt_jobs:
  "insert_asset_if_new i s t d = Inr (r1, d') \<Longrightarrow> jobs d' = jobs d \<and> next_id d \<le> next_id d'"
  "asset_upsert i s t d = Inr (r2, d') \<Longrightarrow> jobs d' = jobs d \<and> next_id d \<le> next_id d'"
  "asset_delete_for_clip i t d = Inr (r3, d') \<Longrightarrow> jobs d' = jobs d \<and> next_id d \<le> next_id d'"
  "asset_mark_ready_for_clip i t d = Inr (r4, d') \<Longrightarrow> jobs d' = jobs d \<and> next_id d \<le> next_id d'"
  by (auto simp: insert_asset_if_new_def asset_upsert_def asset_delete_for_clip_def asset_mark_ready_for_clip_def
      fetch_one_def split: if_splits sum.splits option.splits dest: insert_asset_jobs)

lemma outbound_jobs:
  "activity_create_outbound ai aa ao raw t d = Inr (r, d') \<Longrightarrow> jobs d' = jobs d \<and> next_id d \<le> next_id d'"
  by (auto simp: activity_create_outbound_def append_activity_def Let_def split: if_splits)

sublocale stable_mark \<subseteq> worker_invariant "queue_has P"
proof unfold_locales
  have "keeps (queue_has P) (update_clip i f)" for i f
    by (rule keeps_frame) (auto dest: clip_stmt_jobs)
  then show "keeps (queue_has P) (clip_mark_failed i)" "keeps (queue_has P) (clip_update_probe_info i du wd h)"
    "keeps (queue_has P) (clip_mark_ready i)" "keeps (queue_has P) (clip_set_ap_id i x)" for i du wd h x
    by (simp_all add: clip_mark_failed_def clip_update_probe_info_def clip_mark_ready_def clip_set_ap_id_def)
  show "keeps (queue_has P) (insert_asset_if_new i s)" "keeps (queue_has P) (asset_upsert i s)"
    "keeps (queue_has P) (asset_delete_for_clip i)" "keeps (queue_has P) (asset_mark_ready_for_clip i)" for i s
    by (rule keeps_frame, erule asset_stmt_jobs)+
  show "keeps (queue_has P) (activity_create_outbound ai aa ao raw)" for ai aa ao raw
    by (rule keeps_frame) (erule outbound_jobs)
qed

text \<open>A claimed job is held by its claimer until a statement settles it.\<close>

definition held_or_settled :: "job \<Rightarrow> job \<Rightarrow> bool" where
  "held_or_settled job k \<longleftrightarrow> jb_id k = jb_id job \<and>
     (jb_state k = Running \<and> jb_locked_by k = jb_locked_by job \<or> jb_state k \<noteq> Running \<and> jb_locked_by k = None)"

interpretation claimed_job: stable_mark "held_or_settled job" for job
  by unfold_locales (simp_all add: held_or_settled_def done_row_def dead_row_def retry_row_def)

lemma ends_settled: "ends (queue_with (jb_id job)) all_up job w \<Longrightarrow> settled (jb_id job) (db w)"
  unfolding ends_def using settling_statements by metis

lemma handle_job_settles:
  assumes "alive (queue_with (jb_id job)) all_up w"
  shows "settled (jb_id job) (db (handle_job env job w))"
  using assms
  by (auto simp: handle_job_def intro: process_deliver_settles backfill_settles settling_statements
      delivery_jobs.fail_clip_opt_alive delivery_jobs.media_handlers_end [THEN ends_settled])

text \<open>The failure bump settles a job that is still held, and leaves a settled one alone.\<close>

lemma bump_settles:
  assumes q: "queue_has (held_or_settled job) d" and lock: "jb_locked_by job \<noteq> None"
  shows "\<exists>b d'. bump_stmt job r t d = Inr (b, d') \<and> queue_has (\<lambda>k. jb_id k = jb_id job \<and> jb_state k \<noteq> Running \<and> jb_locked_by k = None) d'"
proof -
  from q obtain k where k: "jobs_ok d" "k \<in> set (jobs d)" "held_or_settled job k"
    by (auto simp: queue_has_def list_ex_iff)
  obtain b d' where b: "bump_stmt job r t d = Inr (b, d')" by (auto simp: bump_stmt_def update_jobs_def)
  have "jobs_ok d'" using keepsD [OF jobs_ok_bump k(1) b] .
  moreover have "jobs d' = update_where (holds_lock job) (bump_job r) (jobs d)"
    using b by (auto simp: bump_stmt_def update_jobs_def)
  moreover have "holds_lock job k \<or> jb_state k \<noteq> Running \<and> jb_locked_by k = None" "jb_id k = jb_id job"
    using k(3) lock by (auto simp: held_or_settled_def holds_lock_def)
  ultimately have "queue_has (\<lambda>k. jb_id k = jb_id job \<and> jb_state k \<noteq> Running \<and> jb_locked_by k = None) d'"
    using k(2) by (auto simp: queue_has_def list_ex_iff bex_update_where bump_job_def intro!: bexI [of _ k])
  with b show ?thesis by blast
qed

lemma settled_mark:
  "queue_has (\<lambda>k. jb_id k = i \<and> jb_state k \<noteq> Running \<and> jb_locked_by k = None) d \<Longrightarrow> settled i d"
  by (simp add: queue_has_def settled_def)

interpretation settled_job: stable_mark "\<lambda>k. jb_id k = i \<and> jb_state k \<noteq> Running \<and> jb_locked_by k = None" for i
  by unfold_locales (simp_all add: done_row_def dead_row_def retry_row_def)

lemma bump_after_failure_settles:
  fixes w :: "'z pool_scheme"
  assumes a: "alive (queue_has (held_or_settled job)) all_up w" and lock: "jb_locked_by job \<noteq> None"
  shows "settled (jb_id job) (db (bump_job_after_failure job i r w))"
proof -
  let ?I = "queue_has (\<lambda>k. jb_id k = jb_id job \<and> jb_state k \<noteq> Running \<and> jb_locked_by k = None)"
  from a bump_settles [OF _ lock, of "db w" r "now w"] obtain b d' where
    b: "bump_stmt job r (now w) (db w) = Inr (b, d')" "?I d'" by (auto simp: alive_def)
  let ?w = "w\<lparr>ticks := Suc (ticks w), db := d'\<rparr>"
  have "exec (bump_stmt job r) w = (Inr b, ?w)" using a b(1) by (intro exec_ok) (simp_all add: alive_def)
  moreover have "alive ?I all_up ?w" using a b(2) by (simp add: alive_def)
  moreover from this have "alive ?I all_up (fail_clip_opt i ?w)" by (rule settled_job.fail_clip_opt_alive)
  ultimately show ?thesis by (auto simp: bump_job_after_failure_def alive_def intro: settled_mark)
qed

lemma cut_run_alive:
  fixes w :: "'z media_world_scheme"
  assumes "alive I L w" and "\<And>v :: 'z media_world_scheme. alive I (link v) v \<Longrightarrow> alive I (link v) (handle_job env job v)"
  shows "alive I L (resume w (handle_job env job (cut_off c w)))"
proof -
  have "alive I (link (cut_off c w)) (cut_off c w)" using assms(1) by (simp add: alive_def cut_off_def)
  then have "alive I (link (cut_off c w)) (handle_job env job (cut_off c w))" by (rule assms(2))
  then show ?thesis using assms(1) by (simp add: alive_def resume_def)
qed

text \<open>C17: no job is left behind. Whatever the kind of a claimed job and its payload, whatever its handler
  meets, and wherever the timeout drops it, the job ends done, dead or queued again with its lock
  released, as long as the worker itself reaches the database.\<close>

theorem every_job_is_settled:
  assumes up: "\<forall>n. link w n = Up" and ok: "jobs_ok (db w)"
    and claimed: "job \<in> set (jobs (db w))" "jb_state job = Running"
  shows "settled (jb_id job) (db (process_job_with_egress env timed_out job w))"
proof (cases timed_out)
  case None
  have "alive (queue_with (jb_id job)) all_up w"
    using up ok claimed by (auto simp: alive_def queue_has_def list_ex_iff)
  with None show ?thesis by (simp add: process_job_with_egress_def handle_job_settles)
next
  case (Some c)
  have lock: "jb_locked_by job \<noteq> None" using ok claimed by (auto simp: jobs_ok_def job_ok_def)
  have "alive (queue_has (held_or_settled job)) all_up w"
    using up ok claimed by (auto simp: alive_def queue_has_def list_ex_iff held_or_settled_def)
  from cut_run_alive [OF this claimed_job.handle_job_alive]
  have "alive (queue_has (held_or_settled job)) all_up (resume w (handle_job env job (cut_off c w)))" .
  with Some lock show ?thesis by (simp add: process_job_with_egress_def bump_after_failure_settles)
qed

section \<open>A small instance\<close>

definition demo_worker_env :: worker_env where
  "demo_worker_env = \<lparr>dv_net = (\<lambda>_. demo_net), dv_parse_url = demo_parse_url, dv_key_ok = (\<lambda>_. True),
     dv_sign = (\<lambda>_ _ _. None), dv_send = (\<lambda>_ _ _ _. Response 202 []), bf_get = (\<lambda>_ _ _. Get_Error []),
     bf_json = (\<lambda>_. None), bf_rfc3339 = demo_parse_rfc3339, bf_segments = (\<lambda>_. []),
     we_base_url = ''https://a.test'', we_ff = (\<lambda>_. demo_ffmpeg), we_tempdir = (\<lambda>_. None), we_read = (\<lambda>_. None),
     we_db_text = (\<lambda>_. ''db''), we_media_text = (\<lambda>_. ''media''), we_rfc3339 = show_int\<rparr>"

definition demo_media_world :: "job \<Rightarrow> clip \<Rightarrow> media_world" where
  "demo_media_world j c = \<lparr>db = demo_inbox_db\<lparr>jobs := [j], clips := [c]\<rparr>, clock = int, link = all_up, ticks = 0,
     dw_guard = egress_new False, mw_store = demo_store\<rparr>"

definition demo_pipeline_job :: "string \<Rightarrow> job" where
  "demo_pipeline_job kind = demo_delivery\<lparr>jb_kind := kind, jb_payload := JObj [(''clip_id'', JInt 7),
     (''path'', JStr ''/srv/a''), (''key'', JStr ''original/7.mp4'')]\<rparr>"

definition demo_cut :: cut where
  "demo_cut = \<lparr>ct_ticks = 2, ct_applied = True, ct_ops = 0, ct_write = Io_Ok\<rparr>"

theorem every_job_is_settled_witness:
  "settled 5 (db (process_job_with_egress demo_worker_env (Some demo_cut) (demo_pipeline_job ''probe'')
     (demo_media_world (demo_pipeline_job ''probe'') demo_clip)))"
proof -
  have "jobs_ok (db (demo_media_world (demo_pipeline_job ''probe'') demo_clip))" by code_simp
  from every_job_is_settled [OF _ this, of "demo_pipeline_job ''probe''" demo_worker_env "Some demo_cut"]
  show ?thesis by (simp add: demo_media_world_def demo_pipeline_job_def demo_delivery_def)
qed

end
