(* ===== verification/Media_Gc.thy ===== *)
theory Media_Gc
  imports Worker "HOL-Library.Multiset"
begin

text \<open>
  The media garbage collector of \<^verbatim>\<open>crates/server/src/worker.rs\<close>: \<^verbatim>\<open>media_gc\<close>, \<^verbatim>\<open>is_stale\<close> and
  \<^verbatim>\<open>walk_files\<close>. The directory trees that the walk reads are a parameter: what a directory lists when
  it is read need not agree with the files at any later moment. The lemmas show that the walk visits
  every file once, that the collector removes only files of deleted clips and old unreferenced ones,
  and that nothing of a deleted clip survives a run.
\<close>

section \<open>Walking a directory\<close>

text \<open>A directory is readable, with its entries, or not.\<close>

datatype node = File_Node | Unreadable | Dir_Node "(string \<times> node) list"

fun is_dir :: "node \<Rightarrow> bool" where
  "is_dir File_Node = False"
| "is_dir Unreadable = True"
| "is_dir (Dir_Node es) = True"

fun node_count :: "node \<Rightarrow> nat" where
  "node_count File_Node = 1"
| "node_count Unreadable = 1"
| "node_count (Dir_Node es) = Suc (sum_list (map (\<lambda>e. node_count (snd e)) es))"

definition pushed :: "string list \<Rightarrow> (string \<times> node) list \<Rightarrow> (string list \<times> node) list" where
  "pushed dir es = map (\<lambda>e. (dir @ [fst e], snd e)) (filter (\<lambda>e. is_dir (snd e)) es)"

definition listed :: "string list \<Rightarrow> (string \<times> node) list \<Rightarrow> string list list" where
  "listed dir es = map (\<lambda>e. dir @ [fst e]) (filter (\<lambda>e. \<not> is_dir (snd e)) es)"

lemma count_pushed: "sum_list (map (\<lambda>x. node_count (snd x)) (pushed dir es)) \<le> sum_list (map (\<lambda>e. node_count (snd e)) es)"
  by (induction es) (auto simp: pushed_def)

text \<open>The loop of \<^verbatim>\<open>walk_files\<close>: the stack with its top first, and the files found so far. \<open>None\<close> is the
  I/O error of a directory that cannot be read.\<close>

function walk_loop :: "(string list \<times> node) list \<Rightarrow> string list list \<Rightarrow> string list list option" where
  "walk_loop [] out = Some out"
| "walk_loop ((dir, File_Node) # stack) out = None"
| "walk_loop ((dir, Unreadable) # stack) out = None"
| "walk_loop ((dir, Dir_Node es) # stack) out = walk_loop (rev (pushed dir es) @ stack) (out @ listed dir es)"
  by pat_completeness auto
termination
proof (relation "measure (\<lambda>(stack, out). sum_list (map (\<lambda>x. node_count (snd x)) stack))", goal_cases)
  case (2 dir es stack out)
  have "sum_list (map (\<lambda>x. node_count (snd x)) (rev (pushed dir es))) = sum_list (map (\<lambda>x. node_count (snd x)) (pushed dir es))"
    by (simp add: rev_map [symmetric])
  with count_pushed [of dir es] show ?case by simp
qed simp

definition walk_files :: "string list \<Rightarrow> node option \<Rightarrow> string list list option" where
  "walk_files dir tree = (case tree of None \<Rightarrow> Some [] | Some n \<Rightarrow> walk_loop [(dir, n)] [])"

section \<open>Collecting\<close>

text \<open>\<^verbatim>\<open>media_dir.join(path)\<close>.\<close>

definition join_path :: "string list \<Rightarrow> string \<Rightarrow> string list" where
  "join_path base path = (if starts_with ''/'' path then components path else base @ components path)"

definition stat_file :: "string list \<Rightarrow> store \<Rightarrow> media_file option \<times> store" where
  "stat_file path s = (if sto_io s (sto_ops s) = Io_Ok then sto_files s path else None, next_op s)"

definition remove_file :: "string list \<Rightarrow> store \<Rightarrow> store" where
  "remove_file path s = next_op (if sto_io s (sto_ops s) = Io_Ok then s\<lparr>sto_files := (sto_files s)(path := None)\<rparr> else s)"

definition gc_grace_secs :: int where
  "gc_grace_secs = 3600"

text \<open>\<^verbatim>\<open>is_stale\<close>; a file from the future is young.\<close>

definition is_stale :: "string list \<Rightarrow> store \<Rightarrow> bool \<times> store" where
  "is_stale path s = (case stat_file path s of
     (None, s') \<Rightarrow> (False, s')
   | (Some f, s') \<Rightarrow>
       (let t = sto_clock s (sto_ops s)
        in (fl_mtime f \<le> t \<and> t - fl_mtime f \<ge> seconds gc_grace_secs, s')))"

record gc_row =
  gr_id :: int
  gr_path :: string
  gr_clip_deleted :: bool

definition gc_referenced :: "string list stmt" where
  "gc_referenced = select (\<lambda>t d. map ma_path (media_assets d))"

text \<open>The left join with \<^verbatim>\<open>clips\<close>; a row without a clip counts as not deleted.\<close>

definition gc_rows :: "gc_row list stmt" where
  "gc_rows = select (\<lambda>t d. map (\<lambda>a. \<lparr>gr_id = ma_id a, gr_path = ma_path a,
     gr_clip_deleted = list_ex (\<lambda>c. cl_id c = ma_clip_id a \<and> cl_deleted_at c \<noteq> None) (clips d)\<rparr>) (media_assets d))"

definition delete_asset_stmt :: "int \<Rightarrow> unit stmt" where
  "delete_asset_stmt i = (\<lambda>t d. Inr ((), d\<lparr>media_assets := delete_where (\<lambda>a. ma_id a = i) (media_assets d)\<rparr>))"

definition gc_asset :: "gc_row \<Rightarrow> 'z media_world_scheme \<Rightarrow> 'z media_world_scheme" where
  "gc_asset row w =
     (let path = join_path (sto_root (mw_store w)) (gr_path row) in
      case on_store (stat_file path) w of
        (found, w) \<Rightarrow>
          if found \<noteq> None \<and> \<not> gr_clip_deleted row then w
          else let w = (if found \<noteq> None then w\<lparr>mw_store := remove_file path (mw_store w)\<rparr> else w)
               in snd (exec (delete_asset_stmt (gr_id row)) w))"

text \<open>\<^verbatim>\<open>strip_prefix(media_dir)\<close>, printed with slashes.\<close>

fun join_slash :: "string list \<Rightarrow> string" where
  "join_slash [] = []"
| "join_slash [x] = x"
| "join_slash (x # y # xs) = x @ CHR ''/'' # join_slash (y # xs)"

definition rel_path :: "string list \<Rightarrow> string list \<Rightarrow> string option" where
  "rel_path base p = (if path_starts_with p base
     then Some (join_slash (drop (length base) p)) else None)"

definition gc_file :: "string list \<Rightarrow> string list \<Rightarrow> 'z media_world_scheme \<Rightarrow> 'z media_world_scheme" where
  "gc_file referenced p w = (case rel_path (sto_root (mw_store w)) p of
     None \<Rightarrow> w
   | Some rel \<Rightarrow>
       if rel \<in> set referenced then w
       else case on_store (is_stale p) w of
         (stale, w) \<Rightarrow> if stale then w\<lparr>mw_store := remove_file p (mw_store w)\<rparr> else w)"

definition gc_dir :: "(string \<Rightarrow> node option) \<Rightarrow> string list \<Rightarrow> string \<Rightarrow> 'z media_world_scheme \<Rightarrow> 'z media_world_scheme" where
  "gc_dir trees referenced sub w = (case walk_files (sto_root (mw_store w) @ [sub]) (trees sub) of
     None \<Rightarrow> w
   | Some files \<Rightarrow> fold (gc_file referenced) files w)"

definition media_gc :: "(string \<Rightarrow> node option) \<Rightarrow> 'z media_world_scheme \<Rightarrow> 'z media_world_scheme" where
  "media_gc trees w = (case exec gc_referenced w of
     (Inl e, w) \<Rightarrow> w
   | (Inr referenced, w) \<Rightarrow> (case exec gc_rows w of
       (Inl e, w) \<Rightarrow> w
     | (Inr rows, w) \<Rightarrow> fold (gc_dir trees referenced) [''original'', ''renditions''] (fold gc_asset rows w)))"

text \<open>One tick of \<^verbatim>\<open>maintenance_loop\<close>: the reaper, and the collector on every second one.\<close>

definition maintenance_tick ::
  "(string \<Rightarrow> node option) \<Rightarrow> int \<Rightarrow> nat \<Rightarrow> 'z media_world_scheme \<Rightarrow> 'z media_world_scheme" where
  "maintenance_tick trees job_timeout_secs tick w =
     (let w = reap_stale_jobs job_timeout_secs w in if even tick then media_gc trees w else w)"

section \<open>The walk visits every file once\<close>

fun files_of :: "string list \<Rightarrow> node \<Rightarrow> string list list" where
  "files_of p File_Node = [p]"
| "files_of p Unreadable = []"
| "files_of p (Dir_Node es) = concat (map (\<lambda>e. files_of (p @ [fst e]) (snd e)) es)"

fun readable :: "node \<Rightarrow> bool" where
  "readable File_Node = True"
| "readable Unreadable = False"
| "readable (Dir_Node es) = list_all (\<lambda>e. readable (snd e)) es"

definition stacked_files :: "(string list \<times> node) list \<Rightarrow> string list list" where
  "stacked_files stack = concat (map (\<lambda>x. files_of (fst x) (snd x)) stack)"

lemma stacked_simps [simp]:
  "stacked_files [] = []" "stacked_files (x # xs) = files_of (fst x) (snd x) @ stacked_files xs"
  "stacked_files (xs @ ys) = stacked_files xs @ stacked_files ys"
  by (simp_all add: stacked_files_def)

lemma mset_stacked_rev [simp]: "mset (stacked_files (rev xs)) = mset (stacked_files xs)"
  by (induction xs) simp_all

lemma files_of_dir: "mset (listed dir es) + mset (stacked_files (pushed dir es)) = mset (files_of dir (Dir_Node es))"
proof (induction es)
  case (Cons e es)
  then show ?case by (cases e; cases "snd e") (auto simp: listed_def pushed_def ac_simps)
qed (simp add: listed_def pushed_def)

lemma pushed_dirs: "list_all (\<lambda>x. is_dir (snd x)) (pushed dir es)"
  by (auto simp: pushed_def list_all_iff)

lemma pushed_readable: "list_all (\<lambda>e. readable (snd e)) es \<Longrightarrow> list_all (\<lambda>x. readable (snd x)) (pushed dir es)"
  by (auto simp: pushed_def list_all_iff)

lemma walk_loop_complete:
  assumes "list_all (\<lambda>x. is_dir (snd x)) stack" and "list_all (\<lambda>x. readable (snd x)) stack"
  shows "\<exists>fs. walk_loop stack out = Some fs \<and> mset fs = mset out + mset (stacked_files stack)"
  using assms
proof (induction stack out rule: walk_loop.induct)
  case (4 dir es stack out)
  have d: "list_all (\<lambda>x. is_dir (snd x)) (rev (pushed dir es) @ stack)"
    and r: "list_all (\<lambda>x. readable (snd x)) (rev (pushed dir es) @ stack)"
    using 4(2,3) pushed_dirs [of dir es] pushed_readable [of es dir] by (auto simp: list_all_iff)
  from 4(1) [OF d r] obtain fs where "walk_loop (rev (pushed dir es) @ stack) (out @ listed dir es) = Some fs"
    "mset fs = mset (out @ listed dir es) + mset (stacked_files (rev (pushed dir es) @ stack))" by blast
  with files_of_dir [of dir es] show ?case by (simp add: ac_simps)
qed simp_all

text \<open>C24: the walk is total and exact: on a readable tree the loop ends and returns every file below the
  directory exactly once, as the recursive definition does; the order differs.\<close>

theorem walk_visits_every_file:
  assumes "readable (Dir_Node es)"
  shows "\<exists>fs. walk_files dir (Some (Dir_Node es)) = Some fs \<and> mset fs = mset (files_of dir (Dir_Node es))"
  using walk_loop_complete [of "[(dir, Dir_Node es)]" "[]"] assms by (simp add: walk_files_def)

section \<open>What is spared\<close>

text \<open>Files disappear for a reason; what is left is unchanged.\<close>

definition shrinks :: "(string list \<Rightarrow> media_file \<Rightarrow> bool) \<Rightarrow> store \<Rightarrow> store \<Rightarrow> bool" where
  "shrinks P s s' \<longleftrightarrow> sto_root s' = sto_root s \<and> sto_clock s' = sto_clock s \<and>
     (\<forall>p. sto_files s' p = sto_files s p \<or> sto_files s' p = None \<and> (\<forall>f. sto_files s p = Some f \<longrightarrow> P p f))"

lemma shrinks_refl [simp]: "shrinks P s s"
  by (simp add: shrinks_def)

lemma shrinks_trans: "shrinks P s s' \<Longrightarrow> shrinks P s' s'' \<Longrightarrow> shrinks P s s''"
  unfolding shrinks_def by (metis (full_types))

lemma shrinks_fold:
  assumes "\<And>x w. x \<in> set xs \<Longrightarrow> I w \<Longrightarrow> shrinks P (st w) (st (f x w)) \<and> I (f x w)" and "I w"
  shows "shrinks P (st w) (st (fold f xs w)) \<and> I (fold f xs w)"
  using assms
proof (induction xs arbitrary: w)
  case (Cons x xs)
  have "shrinks P (st w) (st (f x w)) \<and> I (f x w)" using Cons.prems by simp
  with Cons.IH [of "f x w"] Cons.prems(1) shrinks_trans show ?case by fastforce
qed simp

lemma next_shrinks [simp]: "shrinks P s (next_op s)"
  by (simp add: shrinks_def next_op_def)

lemma remove_shrinks: "(\<And>f. sto_files s p = Some f \<Longrightarrow> P p f) \<Longrightarrow> shrinks P s (remove_file p (next_op s))"
  by (auto simp: shrinks_def remove_file_def next_op_def)

lemma stat_next [simp]: "snd (stat_file p s) = next_op s" "snd (is_stale p s) = next_op s"
  by (simp_all add: is_stale_def stat_file_def Let_def split: option.splits)

text \<open>Why the collector may remove a file: it is the file of an asset of a deleted clip, or no asset names
  it and it was last written at least an hour before some moment of the run.\<close>

definition of_deleted_clip :: "string list \<Rightarrow> gc_row list \<Rightarrow> string list \<Rightarrow> bool" where
  "of_deleted_clip base rows p = list_ex (\<lambda>r. gr_clip_deleted r \<and> join_path base (gr_path r) = p) rows"

definition old_orphan :: "string list \<Rightarrow> (nat \<Rightarrow> timestamp) \<Rightarrow> string list \<Rightarrow> string list \<Rightarrow> media_file \<Rightarrow> bool" where
  "old_orphan base clk referenced p f \<longleftrightarrow>
     (\<exists>rel. rel_path base p = Some rel \<and> rel \<notin> set referenced) \<and> (\<exists>n. fl_mtime f + seconds 3600 \<le> clk n)"

lemma gc_asset_store:
  "mw_store (gc_asset row w) = (let p = join_path (sto_root (mw_store w)) (gr_path row)
     in if fst (stat_file p (mw_store w)) \<noteq> None \<and> gr_clip_deleted row then remove_file p (next_op (mw_store w))
        else next_op (mw_store w))"
  by (auto simp: gc_asset_def on_store_def Let_def case_prod_beta)

lemma gc_asset_shrinks:
  assumes "row \<in> set rows"
  shows "shrinks (\<lambda>p f. of_deleted_clip (sto_root (mw_store w)) rows p \<or> Q p f) (mw_store w) (mw_store (gc_asset row w))"
  using assms unfolding gc_asset_store Let_def
  by (auto intro!: remove_shrinks simp: of_deleted_clip_def list_ex_iff)

lemma gc_file_store:
  "mw_store (gc_file referenced p w) = (case rel_path (sto_root (mw_store w)) p of
     None \<Rightarrow> mw_store w
   | Some rel \<Rightarrow> if rel \<in> set referenced then mw_store w
       else if fst (is_stale p (mw_store w)) then remove_file p (next_op (mw_store w)) else next_op (mw_store w))"
  by (simp add: gc_file_def on_store_def case_prod_beta split: option.splits)

lemma stale_age: "fst (is_stale p s) \<Longrightarrow> sto_files s p = Some f \<Longrightarrow> \<exists>n. fl_mtime f + seconds 3600 \<le> sto_clock s n"
  by (auto intro!: exI [of _ "sto_ops s"] simp: is_stale_def stat_file_def gc_grace_secs_def Let_def split: if_splits option.splits)

lemma gc_file_shrinks:
  "shrinks (\<lambda>p f. Q p f \<or> old_orphan (sto_root (mw_store w)) (sto_clock (mw_store w)) referenced p f)
     (mw_store w) (mw_store (gc_file referenced p w))"
  unfolding gc_file_store
  by (auto intro!: remove_shrinks simp: old_orphan_def split: option.splits dest!: stale_age)

lemma gc_run_store:
  obtains (stopped) "mw_store (media_gc trees w) = mw_store w"
    | (ran) w2 where "mw_store w2 = mw_store w" "db w2 = db w"
      "media_gc trees w = fold (gc_dir trees (map ma_path (media_assets (db w)))) [''original'', ''renditions'']
        (fold gc_asset (fst (projr (gc_rows 0 (db w)))) w2)"
proof -
  obtain r1 w1 where r1: "exec gc_referenced w = (r1, w1)" by fastforce
  obtain r2 w2 where r2: "exec gc_rows w1 = (r2, w2)" by fastforce
  note s1 = exec_selectD [OF r1 [unfolded gc_referenced_def]] exec_storeD [OF r1]
  note s2 = exec_selectD [OF r2 [unfolded gc_rows_def]] exec_storeD [OF r2]
  show thesis
  proof (cases r1)
    case (Inl e)
    then show thesis using r1 s1 by (intro stopped) (simp add: media_gc_def)
  next
    case (Inr referenced)
    show thesis
    proof (cases r2)
      case (Inl e)
      then show thesis using r1 r2 s1 s2 \<open>r1 = _\<close> by (intro stopped) (simp add: media_gc_def)
    next
      case (Inr rows)
      then show thesis using r1 r2 s1 s2 \<open>r1 = _\<close>
        by (intro ran [of w2]) (simp_all add: media_gc_def gc_rows_def select_def)
    qed
  qed
qed

definition gc_rows_of :: "db \<Rightarrow> gc_row list" where
  "gc_rows_of d = fst (projr (gc_rows 0 d))"

lemma gc_run_shrinks:
  fixes w :: "'z media_world_scheme"
  shows "shrinks (\<lambda>p f. of_deleted_clip (sto_root (mw_store w)) (gc_rows_of (db w)) p \<or>
      old_orphan (sto_root (mw_store w)) (sto_clock (mw_store w)) (map ma_path (media_assets (db w))) p f)
    (mw_store w) (mw_store (media_gc trees w))"
proof (cases rule: gc_run_store [of trees w])
  case (ran w2)
  let ?ref = "map ma_path (media_assets (db w))"
  let ?I = "\<lambda>v :: 'z media_world_scheme. sto_root (mw_store v) = sto_root (mw_store w) \<and> sto_clock (mw_store v) = sto_clock (mw_store w)"
  let ?P = "\<lambda>p f. of_deleted_clip (sto_root (mw_store w)) (gc_rows_of (db w)) p \<or>
      old_orphan (sto_root (mw_store w)) (sto_clock (mw_store w)) ?ref p f"
  have I: "?I v'" if "shrinks ?P (mw_store v) (mw_store v')" "?I v" for v v'
    using that by (simp add: shrinks_def)
  have row: "shrinks ?P (mw_store v) (mw_store (gc_asset r v)) \<and> ?I (gc_asset r v)" if "r \<in> set (gc_rows_of (db w))" "?I v" for r v
  proof -
    have "shrinks ?P (mw_store v) (mw_store (gc_asset r v))"
      using gc_asset_shrinks [OF that(1), of v] that(2) by simp
    with I that(2) show ?thesis by blast
  qed
  have one: "shrinks ?P (mw_store v) (mw_store (gc_file ?ref p v)) \<and> ?I (gc_file ?ref p v)" if "?I v" for p v
  proof -
    have "shrinks ?P (mw_store v) (mw_store (gc_file ?ref p v))"
      using gc_file_shrinks [where w = v and p = p and referenced = ?ref] that by simp
    with I that show ?thesis by blast
  qed
  have sub: "shrinks ?P (mw_store v) (mw_store (gc_dir trees ?ref x v)) \<and> ?I (gc_dir trees ?ref x v)" if "?I v" for x v
    using shrinks_fold [where st = mw_store and I = ?I and P = ?P and f = "gc_file ?ref"] one that
    by (auto simp: gc_dir_def split: option.splits)
  have rows: "shrinks ?P (mw_store w2) (mw_store (fold gc_asset (gc_rows_of (db w)) w2)) \<and> ?I (fold gc_asset (gc_rows_of (db w)) w2)"
    by (rule shrinks_fold) (use row ran(1) in auto)
  let ?v = "fold gc_asset (gc_rows_of (db w)) w2"
  have "shrinks ?P (mw_store ?v) (mw_store (fold (gc_dir trees ?ref) [''original'', ''renditions''] ?v)) \<and>
      ?I (fold (gc_dir trees ?ref) [''original'', ''renditions''] ?v)"
    by (rule shrinks_fold [where I = ?I]) (use sub rows in blast)+
  then have "shrinks ?P (mw_store ?v) (mw_store (media_gc trees w))" unfolding ran(3) gc_rows_of_def by (rule conjunct1)
  with conjunct1 [OF rows, unfolded ran(1)] show ?thesis by (rule shrinks_trans)
qed simp

text \<open>C22: the collector spares live media. Whatever the directories list, wherever the database or the disk
  fail, a file that is there before a run is there after it, unchanged, unless it belongs to an asset of
  a soft-deleted clip, or no asset row names its relative path and it was last written an hour or more
  before.\<close>

theorem gc_spares_live_media:
  assumes "sto_files (mw_store w) p = Some f"
    and "\<not> list_ex (\<lambda>a. join_path (sto_root (mw_store w)) (ma_path a) = p \<and>
      list_ex (\<lambda>c. cl_id c = ma_clip_id a \<and> cl_deleted_at c \<noteq> None) (clips (db w))) (media_assets (db w))"
    and "(\<exists>a \<in> set (media_assets (db w)). rel_path (sto_root (mw_store w)) p = Some (ma_path a)) \<or>
      (\<forall>n. sto_clock (mw_store w) n < fl_mtime f + seconds 3600)"
  shows "sto_files (mw_store (media_gc trees w)) p = Some f"
proof -
  have "\<not> of_deleted_clip (sto_root (mw_store w)) (gc_rows_of (db w)) p"
    using assms(2) by (auto simp: of_deleted_clip_def gc_rows_of_def gc_rows_def select_def list_ex_iff)
  moreover have "\<not> old_orphan (sto_root (mw_store w)) (sto_clock (mw_store w)) (map ma_path (media_assets (db w))) p f"
    using assms(3) unfolding old_orphan_def
  proof
    assume "\<forall>n. sto_clock (mw_store w) n < fl_mtime f + seconds 3600"
    then show "\<not> ((\<exists>rel. rel_path (sto_root (mw_store w)) p = Some rel \<and> rel \<notin> set (map ma_path (media_assets (db w)))) \<and>
      (\<exists>n. fl_mtime f + seconds 3600 \<le> sto_clock (mw_store w) n))" by (simp add: not_le)
  qed auto
  ultimately show ?thesis using gc_run_shrinks [of w trees] assms(1) unfolding shrinks_def by metis
qed

section \<open>What is swept\<close>

text \<open>With the database and the disk working, a row that is processed is gone with its file if its clip is
  deleted, and neither comes back.\<close>

definition swept :: "int \<Rightarrow> string list \<Rightarrow> 'z media_world_scheme \<Rightarrow> bool" where
  "swept i p w \<longleftrightarrow> list_all (\<lambda>a. ma_id a \<noteq> i) (media_assets (db w)) \<and> sto_files (mw_store w) p = None"

definition gc_ready :: "string list \<Rightarrow> 'z media_world_scheme \<Rightarrow> bool" where
  "gc_ready base w \<longleftrightarrow> link w = all_up \<and> sto_root (mw_store w) = base \<and> (\<forall>n. sto_io (mw_store w) n = Io_Ok)"

lemma gc_asset_ready: "gc_ready base w \<Longrightarrow> gc_ready base (gc_asset row w)"
  unfolding gc_ready_def gc_asset_store Let_def
  by (auto simp: gc_asset_def on_store_def Let_def remove_file_def next_op_def case_prod_beta)

lemma gc_asset_sweeps:
  "gc_ready base w \<Longrightarrow> gr_clip_deleted row \<Longrightarrow> swept (gr_id row) (join_path base (gr_path row)) (gc_asset row w)"
  unfolding swept_def gc_asset_store Let_def
  by (auto simp: gc_ready_def gc_asset_def on_store_def Let_def case_prod_beta exec_up delete_asset_stmt_def delete_where_def
      remove_file_def next_op_def stat_file_def list_all_iff)

lemma gc_asset_keeps_swept: "gc_ready base w \<Longrightarrow> swept i p w \<Longrightarrow> swept i p (gc_asset row w)"
  unfolding swept_def gc_asset_store Let_def
  by (auto simp: gc_ready_def gc_asset_def on_store_def Let_def case_prod_beta exec_up delete_asset_stmt_def delete_where_def
      remove_file_def next_op_def list_all_iff)

lemma gc_fold_sweeps:
  assumes "gc_ready base w" and "row \<in> set rows" and "gr_clip_deleted row"
  shows "swept (gr_id row) (join_path base (gr_path row)) (fold gc_asset rows w)"
proof -
  have keep: "gc_ready base v \<Longrightarrow> swept i p v \<Longrightarrow> swept i p (fold gc_asset xs v)" for i p xs and v :: "'a media_world_scheme"
    by (induction xs arbitrary: v) (auto intro: gc_asset_ready gc_asset_keeps_swept)
  show ?thesis using assms
    by (induction rows arbitrary: w) (auto intro: keep gc_asset_ready gc_asset_sweeps)
qed

lemma gc_dirs_frame:
  "db (fold (gc_dir trees ref) subs w) = db w"
  "sto_files (mw_store w) p = None \<Longrightarrow> sto_files (mw_store (fold (gc_dir trees ref) subs w)) p = None"
proof -
  have one: "db (gc_file ref q v) = db v \<and> (sto_files (mw_store v) p = None \<longrightarrow> sto_files (mw_store (gc_file ref q v)) p = None)"
    for q and v :: "'a media_world_scheme"
    by (auto simp: gc_file_store gc_file_def on_store_def case_prod_beta remove_file_def next_op_def split: option.splits)
  have dir: "db (gc_dir trees ref x v) = db v \<and> (sto_files (mw_store v) p = None \<longrightarrow> sto_files (mw_store (gc_dir trees ref x v)) p = None)"
    for x and v :: "'a media_world_scheme"
  proof -
    have "db (fold (gc_file ref) fs v) = db v \<and> (sto_files (mw_store v) p = None \<longrightarrow> sto_files (mw_store (fold (gc_file ref) fs v)) p = None)" for fs
      by (induction fs arbitrary: v) (auto simp: one)
    then show ?thesis by (simp add: gc_dir_def split: option.splits)
  qed
  show "db (fold (gc_dir trees ref) subs w) = db w"
    by (induction subs arbitrary: w) (simp_all add: dir)
  show "sto_files (mw_store w) p = None \<Longrightarrow> sto_files (mw_store (fold (gc_dir trees ref) subs w)) p = None"
    by (induction subs arbitrary: w) (simp_all add: dir)
qed

text \<open>C23: the collector sweeps deleted clips. With the database and the disk working, after one run no asset
  row of a soft-deleted clip is left, and none of their files.\<close>

theorem gc_sweeps_deleted_clips:
  assumes up: "\<forall>n. link w n = Up" and disk: "\<forall>n. sto_io (mw_store w) n = Io_Ok"
    and row: "a \<in> set (media_assets (db w))" "c \<in> set (clips (db w))" "cl_id c = ma_clip_id a" "cl_deleted_at c \<noteq> None"
  shows "list_all (\<lambda>b. ma_id b \<noteq> ma_id a) (media_assets (db (media_gc trees w))) \<and>
    sto_files (mw_store (media_gc trees w)) (join_path (sto_root (mw_store w)) (ma_path a)) = None"
proof -
  define w2 where "w2 = w\<lparr>ticks := Suc (Suc (ticks w))\<rparr>"
  let ?base = "sto_root (mw_store w)"
  let ?row = "\<lparr>gr_id = ma_id a, gr_path = ma_path a, gr_clip_deleted = True\<rparr>"
  have ready: "gc_ready ?base w2" using up disk by (auto simp: gc_ready_def w2_def)
  have "media_gc trees w = fold (gc_dir trees (map ma_path (media_assets (db w)))) [''original'', ''renditions'']
      (fold gc_asset (gc_rows_of (db w)) w2)"
    using up by (simp add: media_gc_def exec_up gc_referenced_def gc_rows_def select_def gc_rows_of_def w2_def)
  moreover have "?row \<in> set (gc_rows_of (db w))"
    using row by (auto simp: gc_rows_of_def gc_rows_def select_def list_ex_iff image_iff intro!: bexI [of _ a])
  then have "swept (ma_id a) (join_path ?base (ma_path a)) (fold gc_asset (gc_rows_of (db w)) w2)"
    using gc_fold_sweeps [OF ready, of ?row] by simp
  ultimately show ?thesis using gc_dirs_frame unfolding swept_def by metis
qed

section \<open>Witnesses\<close>

definition demo_tree :: node where
  "demo_tree = Dir_Node [(''7.mp4'', File_Node), (''sub'', Dir_Node [(''8.mp4'', File_Node)])]"

definition demo_asset :: media_asset where
  "demo_asset = new_asset 3 7 \<lparr>as_kind = Video_Mp4, as_rendition = R_Orig, as_path = ''original/7.mp4'', as_mime = ''video/mp4'',
     as_size_bytes = None, as_bitrate_kbps = None, as_codec = None\<rparr>"

definition demo_file :: media_file where
  "demo_file = \<lparr>fl_data = ''data'', fl_mtime = 0\<rparr>"

definition demo_gc_world :: "clip \<Rightarrow> media_world" where
  "demo_gc_world c = (let w = demo_media_world demo_delivery c in
     w\<lparr>db := (db w)\<lparr>media_assets := [demo_asset]\<rparr>,
       mw_store := demo_store\<lparr>sto_files := [[''srv'', ''media'', ''original'', ''7.mp4''] \<mapsto> demo_file]\<rparr>\<rparr>)"

theorem walk_visits_every_file_witness:
  "\<exists>fs. walk_files [''original''] (Some demo_tree) = Some fs \<and>
     mset fs = mset [[''original'', ''7.mp4''], [''original'', ''sub'', ''8.mp4'']]"
proof -
  have "readable demo_tree" by code_simp
  then show ?thesis
    using walk_visits_every_file [of "[(''7.mp4'', File_Node), (''sub'', Dir_Node [(''8.mp4'', File_Node)])]" "[''original'']"]
    by (simp add: demo_tree_def)
qed

theorem gc_spares_live_media_witness:
  "sto_files (mw_store (media_gc (\<lambda>_. Some demo_tree) (demo_gc_world demo_clip))) [''srv'', ''media'', ''original'', ''7.mp4''] = Some demo_file"
proof (rule gc_spares_live_media)
  show "sto_files (mw_store (demo_gc_world demo_clip)) [''srv'', ''media'', ''original'', ''7.mp4''] = Some demo_file"
    by (simp add: demo_gc_world_def Let_def)
  show "\<not> list_ex (\<lambda>a. join_path (sto_root (mw_store (demo_gc_world demo_clip))) (ma_path a) = [''srv'', ''media'', ''original'', ''7.mp4''] \<and>
      list_ex (\<lambda>c. cl_id c = ma_clip_id a \<and> cl_deleted_at c \<noteq> None) (clips (db (demo_gc_world demo_clip)))) (media_assets (db (demo_gc_world demo_clip)))"
    by code_simp
  have "rel_path (sto_root (mw_store (demo_gc_world demo_clip))) [''srv'', ''media'', ''original'', ''7.mp4''] = Some (ma_path demo_asset)"
    by code_simp
  then show "(\<exists>a \<in> set (media_assets (db (demo_gc_world demo_clip))).
      rel_path (sto_root (mw_store (demo_gc_world demo_clip))) [''srv'', ''media'', ''original'', ''7.mp4''] = Some (ma_path a)) \<or>
    (\<forall>n. sto_clock (mw_store (demo_gc_world demo_clip)) n < fl_mtime demo_file + seconds 3600)"
    by (simp add: demo_gc_world_def Let_def)
qed

theorem gc_sweeps_deleted_clips_witness:
  "sto_files (mw_store (media_gc (\<lambda>_. None) (demo_gc_world (demo_clip\<lparr>cl_deleted_at := Some 1\<rparr>))))
     [''srv'', ''media'', ''original'', ''7.mp4''] = None"
proof -
  let ?w = "demo_gc_world (demo_clip\<lparr>cl_deleted_at := Some 1\<rparr>)"
  have up: "\<forall>n. link ?w n = Up" "\<forall>n. sto_io (mw_store ?w) n = Io_Ok"
    by (simp_all add: demo_gc_world_def demo_media_world_def demo_store_def Let_def)
  have mem: "demo_asset \<in> set (media_assets (db ?w))" "demo_clip\<lparr>cl_deleted_at := Some 1\<rparr> \<in> set (clips (db ?w))"
    by (simp_all add: demo_gc_world_def demo_media_world_def Let_def)
  have own: "cl_id (demo_clip\<lparr>cl_deleted_at := Some 1\<rparr>) = ma_clip_id demo_asset" "cl_deleted_at (demo_clip\<lparr>cl_deleted_at := Some 1\<rparr>) \<noteq> None"
    and path: "join_path (sto_root (mw_store ?w)) (ma_path demo_asset) = [''srv'', ''media'', ''original'', ''7.mp4'']"
    by code_simp+
  from gc_sweeps_deleted_clips [OF up mem own, of "\<lambda>_. None"] path show ?thesis by simp
qed

end
