(* ===== verification/Db_Feed.thy ===== *)
theory Db_Feed
  imports Db_Clips Db_Federation
begin

text \<open>
  The listing queries of \<^verbatim>\<open>crates/db/src\<close>: the feeds of \<^verbatim>\<open>feed.rs\<close>, \<^verbatim>\<open>clips_for_sound\<close> of
  \<^verbatim>\<open>sound.rs\<close>, \<^verbatim>\<open>list\<close> of \<^verbatim>\<open>bookmark.rs\<close>, and the hashtags of \<^verbatim>\<open>hashtag.rs\<close>. A feed is a table
  read backwards page by page: the cursor of a page is the key \<^verbatim>\<open>(created_at, id)\<close> of the last row
  of the page before it. The locale \<open>keyset_feed\<close> states what such a query promises and shows that
  a reader who follows exact keys sees the whole feed; every feed below is an instance.
  Parameters: the score Postgres computes for the trending feed, the collation of tags, and the
  Unicode lower-case mapping.
\<close>

section \<open>Keyset pages\<close>

type_synonym keyset = "timestamp \<times> int"

definition newest_first :: "('r \<Rightarrow> keyset) \<Rightarrow> 'r list \<Rightarrow> 'r list" where
  "newest_first k rs = sort_key (\<lambda>r. (- fst (k r), - snd (k r))) rs"

text \<open>\<^verbatim>\<open>(created_at, id) < ($a, $b)\<close>, when both halves of a cursor are given.\<close>

definition before_cursor :: "('r \<Rightarrow> keyset) \<Rightarrow> keyset option \<Rightarrow> 'r \<Rightarrow> bool" where
  "before_cursor k cur r = (case cur of None \<Rightarrow> True | Some c \<Rightarrow> k r < c)"

definition keyset_page ::
  "('r \<Rightarrow> keyset) \<Rightarrow> (db \<Rightarrow> 'r list) \<Rightarrow> timestamp option \<Rightarrow> int option \<Rightarrow> int \<Rightarrow> 'r list stmt" where
  "keyset_page k rows before_created_at before_id n = (\<lambda>t d.
     case limit_rows n (newest_first k (filter (before_cursor k (opt_zip before_created_at before_id)) (rows d))) of
       Inl e \<Rightarrow> Inl e | Inr rs \<Rightarrow> Inr (rs, d))"

section \<open>Feeds (\<^verbatim>\<open>feed.rs\<close>)\<close>

record feed_clip_row =
  fr_id :: int
  fr_ap_id :: string
  fr_caption_html :: "string option"
  fr_duration_s :: "f64 option"
  fr_width :: "int option"
  fr_height :: "int option"
  fr_like_count :: int
  fr_comment_count :: int
  fr_share_count :: int
  fr_clip_created_at :: timestamp
  fr_actor_id :: int
  fr_username :: string
  fr_display_name :: "string option"
  fr_avatar_path :: "string option"
  fr_domain :: "string option"
  fr_remote_media_url :: "string option"

text \<open>The columns every feed selects from \<^verbatim>\<open>clips c JOIN actors a\<close>.\<close>

definition feed_row :: "clip \<Rightarrow> actor \<Rightarrow> feed_clip_row" where
  "feed_row c a = \<lparr>fr_id = cl_id c, fr_ap_id = cl_ap_id c, fr_caption_html = cl_caption_html c,
     fr_duration_s = cl_duration_s c, fr_width = cl_width c, fr_height = cl_height c,
     fr_like_count = cl_like_count c, fr_comment_count = cl_comment_count c,
     fr_share_count = cl_share_count c, fr_clip_created_at = cl_created_at c, fr_actor_id = cl_actor_id c,
     fr_username = ac_username a, fr_display_name = ac_display_name a, fr_avatar_path = ac_avatar_path a,
     fr_domain = ac_domain a, fr_remote_media_url = cl_remote_media_url c\<rparr>"

definition feed_key :: "feed_clip_row \<Rightarrow> keyset" where
  "feed_key r = (fr_clip_created_at r, fr_id r)"

definition playable :: "clip \<Rightarrow> bool" where
  "playable c \<longleftrightarrow> cl_status c = Ready \<or> cl_origin c = Remote"

definition live_public :: "clip \<Rightarrow> bool" where
  "live_public c \<longleftrightarrow> cl_deleted_at c = None \<and> cl_visibility c = Public"

definition in_good_standing :: "actor \<Rightarrow> bool" where
  "in_good_standing a \<longleftrightarrow> ac_suspended_at a = None \<and> ac_deleted_at a = None"

definition listed :: "clip \<Rightarrow> actor \<Rightarrow> bool" where
  "listed c a \<longleftrightarrow> live_public c \<and> in_good_standing a \<and> playable c"

text \<open>\<^verbatim>\<open>feed_page\<close> without and with the follow join.\<close>

definition discover_rows :: "db \<Rightarrow> feed_clip_row list" where
  "discover_rows d = [feed_row c a. c \<leftarrow> clips d, a \<leftarrow> actors d, ac_id a = cl_actor_id c \<and> listed c a]"

definition following_rows :: "int \<Rightarrow> db \<Rightarrow> feed_clip_row list" where
  "following_rows viewer d = [feed_row c a. c \<leftarrow> clips d, a \<leftarrow> actors d, ac_id a = cl_actor_id c \<and> listed c a,
     f \<leftarrow> follows d, fo_target_actor_id f = cl_actor_id c \<and> fo_follower_actor_id f = viewer \<and> fo_state f = Accepted]"

definition feed_page :: "int option \<Rightarrow> timestamp option \<Rightarrow> int option \<Rightarrow> int \<Rightarrow> feed_clip_row list stmt" where
  "feed_page viewer_actor_id =
     keyset_page feed_key (case viewer_actor_id of Some v \<Rightarrow> following_rows v | None \<Rightarrow> discover_rows)"

definition following_feed :: "int \<Rightarrow> timestamp option \<Rightarrow> int option \<Rightarrow> int \<Rightarrow> feed_clip_row list stmt" where
  "following_feed viewer_actor_id = feed_page (Some viewer_actor_id)"

definition discover_feed :: "timestamp option \<Rightarrow> int option \<Rightarrow> int \<Rightarrow> feed_clip_row list stmt" where
  "discover_feed = feed_page None"

definition local_rows :: "db \<Rightarrow> feed_clip_row list" where
  "local_rows d = [feed_row c a. c \<leftarrow> clips d, a \<leftarrow> actors d,
     ac_id a = cl_actor_id c \<and> listed c a \<and> ac_domain a = None]"

definition feed_page_local :: "timestamp option \<Rightarrow> int option \<Rightarrow> int \<Rightarrow> feed_clip_row list stmt" where
  "feed_page_local = keyset_page feed_key local_rows"

definition local_feed :: "timestamp option \<Rightarrow> int option \<Rightarrow> int \<Rightarrow> feed_clip_row list stmt" where
  "local_feed = feed_page_local"

text \<open>\<^verbatim>\<open>h.tag = $1::text\<close> compares the stored tag with the lower-cased argument as texts.\<close>

definition tag_rows :: "string \<Rightarrow> db \<Rightarrow> feed_clip_row list" where
  "tag_rows tag d = [feed_row c a. c \<leftarrow> clips d, a \<leftarrow> actors d, ac_id a = cl_actor_id c \<and> listed c a,
     (clip_id, hashtag_id) \<leftarrow> clip_hashtags d, clip_id = cl_id c, h \<leftarrow> hashtags d, ht_id h = hashtag_id \<and> ht_tag h = tag]"

definition clips_by_tag ::
  "(string \<Rightarrow> string) \<Rightarrow> string \<Rightarrow> timestamp option \<Rightarrow> int option \<Rightarrow> int \<Rightarrow> feed_clip_row list stmt" where
  "clips_by_tag to_lowercase tag = keyset_page feed_key (tag_rows (to_lowercase tag))"

definition days :: "int \<Rightarrow> int" where
  "days n = seconds (n * 86400)"

text \<open>\<open>score e age\<close> is the double \<^verbatim>\<open>POWER(e / POWER(GREATEST(age / 3600, 0.25), 1.2), 1)\<close>.\<close>

definition engagement :: "feed_clip_row \<Rightarrow> int" where
  "engagement r = fr_like_count r + 3 * fr_comment_count r + 5 * fr_share_count r"

definition trending :: "(int \<Rightarrow> int \<Rightarrow> rat) \<Rightarrow> int \<Rightarrow> feed_clip_row list stmt" where
  "trending score n = (\<lambda>t d.
     case limit_rows n (sort_key (\<lambda>r. (- score (engagement r) (t - fr_clip_created_at r), - fr_clip_created_at r))
            (filter (\<lambda>r. fr_clip_created_at r > t - days 30) (discover_rows d))) of
       Inl e \<Rightarrow> Inl e | Inr rs \<Rightarrow> Inr (rs, d))"

definition tag_uses :: "timestamp \<Rightarrow> db \<Rightarrow> string list" where
  "tag_uses t d = [ht_tag h. (clip_id, hashtag_id) \<leftarrow> clip_hashtags d, h \<leftarrow> hashtags d, ht_id h = hashtag_id,
     c \<leftarrow> clips d, cl_id c = clip_id \<and> live_public c \<and> cl_created_at c > t - days 14]"

definition trending_tags :: "(string \<Rightarrow> 'k :: linorder) \<Rightarrow> int \<Rightarrow> (string \<times> int) list stmt" where
  "trending_tags collate n = (\<lambda>t d.
     let groups = map (\<lambda>tag. (tag, int (count_list (tag_uses t d) tag))) (remdups (tag_uses t d)) in
     case limit_rows n (sort_key (\<lambda>(tag, uses). (- uses, collate tag)) groups) of
       Inl e \<Rightarrow> Inl e | Inr rs \<Rightarrow> Inr (rs, d))"

section \<open>Sounds and bookmarks\<close>

definition sound_rows :: "int \<Rightarrow> db \<Rightarrow> feed_clip_row list" where
  "sound_rows sound_id d = [feed_row c a. c \<leftarrow> clips d, a \<leftarrow> actors d, ac_id a = cl_actor_id c \<and>
     sql_eq (cl_sound_id c) (Some sound_id) \<and> cl_deleted_at c = None \<and> playable c]"

definition clips_for_sound :: "int \<Rightarrow> timestamp option \<Rightarrow> int option \<Rightarrow> int \<Rightarrow> feed_clip_row list stmt" where
  "clips_for_sound sound_id = keyset_page feed_key (sound_rows sound_id)"

text \<open>The bookmark list is ordered by the time of the bookmark, which the selected columns do not contain.\<close>

definition bookmark_rows :: "int \<Rightarrow> db \<Rightarrow> (bookmark \<times> feed_clip_row) list" where
  "bookmark_rows actor_id d = [(b, feed_row c a). b \<leftarrow> bookmarks d, bk_actor_id b = actor_id,
     c \<leftarrow> clips d, cl_id c = bk_clip_id b \<and> cl_deleted_at c = None \<and> playable c, a \<leftarrow> actors d, ac_id a = cl_actor_id c]"

definition bookmark_key :: "bookmark \<times> feed_clip_row \<Rightarrow> keyset" where
  "bookmark_key r = (bk_created_at (fst r), bk_clip_id (fst r))"

definition bookmark_list :: "int \<Rightarrow> timestamp option \<Rightarrow> int option \<Rightarrow> int \<Rightarrow> feed_clip_row list stmt" where
  "bookmark_list actor_id before_created_at before_clip_id n = (\<lambda>t d.
     case keyset_page bookmark_key (bookmark_rows actor_id) before_created_at before_clip_id n t d of
       Inl e \<Rightarrow> Inl e | Inr (rs, d) \<Rightarrow> Inr (map snd rs, d))"

section \<open>Hashtags (\<^verbatim>\<open>hashtag.rs\<close>)\<close>

definition max_hashtags :: nat where
  "max_hashtags = 10"

definition is_tag_char :: "char \<Rightarrow> bool" where
  "is_tag_char c \<longleftrightarrow> is_ascii_alphanumeric c \<or> c = CHR ''_''"

definition add_tag :: "string \<Rightarrow> string list \<Rightarrow> string list" where
  "add_tag tag tags = (if tag \<noteq> [] \<and> tag \<notin> set tags then tags @ [tag] else tags)"

text \<open>The loop over the byte index \<open>i\<close>, on the rest of the caption from \<open>i\<close> on.\<close>

function scan_tags :: "string \<Rightarrow> string list \<Rightarrow> string list" where
  "scan_tags [] tags = tags"
| "scan_tags (b # rest) tags =
     (if length tags \<ge> max_hashtags then tags
      else if b \<noteq> CHR ''#'' then scan_tags rest tags
      else scan_tags (dropWhile is_tag_char rest) (add_tag (to_ascii_lowercase (takeWhile is_tag_char rest)) tags))"
  by pat_completeness auto
termination by (relation "measure (\<lambda>(rest, tags). length rest)") (auto simp: le_imp_less_Suc length_dropWhile_le)

definition extract_hashtags :: "string \<Rightarrow> string list" where
  "extract_hashtags caption = scan_tags caption []"

definition insert_hashtag :: "string \<Rightarrow> db \<Rightarrow> db" where
  "insert_hashtag tag d = (if list_ex (\<lambda>h. citext_eq (ht_tag h) tag) (hashtags d) then d
     else d\<lparr>hashtags := hashtags d @ [\<lparr>ht_id = next_id d, ht_tag = tag\<rparr>], next_id := next_id d + 1\<rparr>)"

definition link_hashtag :: "int \<Rightarrow> string \<Rightarrow> db \<Rightarrow> sql_error + db" where
  "link_hashtag clip_id tag d =
     (let d = insert_hashtag tag d in
      case fetch_optional (filter (\<lambda>h. citext_eq (ht_tag h) tag) (hashtags d)) of
        None \<Rightarrow> Inl RowNotFound
      | Some h \<Rightarrow> if \<not> has_clip clip_id d then Inl foreign_key_violation
          else if (clip_id, ht_id h) \<in> set (clip_hashtags d) then Inr d
          else Inr (d\<lparr>clip_hashtags := clip_hashtags d @ [(clip_id, ht_id h)]\<rparr>))"

fun link_all :: "int \<Rightarrow> string list \<Rightarrow> db \<Rightarrow> sql_error + db" where
  "link_all clip_id [] d = Inr d"
| "link_all clip_id (tag # tags) d = (case link_hashtag clip_id tag d of
     Inl e \<Rightarrow> Inl e | Inr d \<Rightarrow> link_all clip_id tags d)"

text \<open>One transaction: all links or none.\<close>

definition link_hashtags_to_clip :: "int \<Rightarrow> string \<Rightarrow> unit stmt" where
  "link_hashtags_to_clip clip_id caption = (\<lambda>t d. case link_all clip_id (extract_hashtags caption) d of
     Inl e \<Rightarrow> Inl e | Inr d \<Rightarrow> Inr ((), d))"

section \<open>What a reader of pages sees\<close>

text \<open>Keys sorted newest first, each once.\<close>

definition descending :: "('r \<Rightarrow> keyset) \<Rightarrow> 'r list \<Rightarrow> bool" where
  "descending k rs \<longleftrightarrow> sorted_wrt (\<lambda>r s. k s < k r) rs"

lemma newest_first_descending:
  assumes "distinct (map k rs)"
  shows "descending k (newest_first k rs)"
proof -
  let ?f = "\<lambda>r. (- fst (k r), - snd (k r))"
  have "map ?f rs = map (\<lambda>x. (- fst x, - snd x)) (map k rs)" by simp
  moreover have "inj (\<lambda>x :: keyset. (- fst x, - snd x))" by (auto simp: inj_def prod_eq_iff)
  ultimately have "distinct (map ?f rs)"
    using assms by (metis distinct_map inj_on_subset subset_UNIV)
  then have "distinct (map ?f (sort_key ?f rs))"
    by (simp add: distinct_map)
  then have "sorted_wrt (<) (map ?f (sort_key ?f rs))"
    by (intro strict_sorted_iff [THEN iffD2] conjI sorted_sort_key)
  then show ?thesis
    by (simp add: newest_first_def descending_def sorted_wrt_map less_prod_def)
qed

lemma filter_newest_first: "filter P (newest_first k rs) = newest_first k (filter P rs)"
  by (simp add: newest_first_def filter_sort)

lemma set_newest_first [simp]: "set (newest_first k rs) = set rs"
  and length_newest_first [simp]: "length (newest_first k rs) = length rs"
  by (simp_all add: newest_first_def)

lemma before_cursor_Some: "before_cursor k (Some c) = (\<lambda>r. k r < c)"
  and before_cursor_None: "before_cursor k None = (\<lambda>r. True)"
  by (simp_all add: before_cursor_def fun_eq_iff)

lemma full_page_last:
  assumes "0 < n" and "\<not> length ys < n"
  obtains zs z where "take n ys = zs @ [z]" and "Suc (length zs) = n"
proof (cases "take n ys" rule: rev_cases)
  case (snoc zs z)
  then have "length (zs @ [z]) = n" using assms(2) by (metis length_take min.absorb2 not_less)
  with snoc show thesis using that by simp
qed (use assms in auto)

text \<open>What lies before the key of an element of a descending list is what follows it.\<close>

lemma before_in_descending:
  assumes "descending k (xs @ x # ys)"
  shows "filter (before_cursor k (Some (k x))) (xs @ x # ys) = ys"
proof -
  have "filter (\<lambda>r. k r < k x) xs = []" and "filter (\<lambda>r. k r < k x) ys = ys"
    using assms by (auto simp: descending_def sorted_wrt_append filter_empty_conv filter_id_conv)
  then show ?thesis by (simp add: before_cursor_Some)
qed

text \<open>A reader asks for pages of \<open>n\<close> rows until one comes back short.\<close>

fun read_on :: "(keyset option \<Rightarrow> 'r list) \<Rightarrow> ('r \<Rightarrow> keyset) \<Rightarrow> nat \<Rightarrow> nat \<Rightarrow> keyset option \<Rightarrow> 'r list" where
  "read_on page k n 0 cur = []"
| "read_on page k n (Suc fuel) cur =
     (let rs = page cur in
      if length rs < n then rs else rs @ read_on page k n fuel (Some (k (last rs))))"

locale keyset_feed =
  fixes entries :: "db \<Rightarrow> 'r list" and key :: "'r \<Rightarrow> keyset"
    and page :: "db \<Rightarrow> nat \<Rightarrow> keyset option \<Rightarrow> 'r list" and well_keyed :: "db \<Rightarrow> bool"
  assumes page_is_prefix: "page d n cur = take n (filter (before_cursor key cur) (newest_first key (entries d)))"
    and keys_distinct: "well_keyed d \<Longrightarrow> distinct (map key (entries d))"
begin

lemma page_bound: "length (page d n cur) \<le> n"
  by (simp add: page_is_prefix)

lemma first_page: "page d n None = take n (newest_first key (entries d))"
  by (simp add: page_is_prefix before_cursor_def)

lemma page_after:
  assumes "well_keyed d" and "newest_first key (entries d) = xs @ x # ys"
  shows "page d n (Some (key x)) = take n ys"
proof -
  have "descending key (xs @ x # ys)"
    using newest_first_descending [OF keys_distinct [OF assms(1)]] assms(2) by simp
  then show ?thesis
    unfolding page_is_prefix assms(2) by (simp only: before_in_descending)
qed

text \<open>Reading on from a row gives the rows after it, as long as the fuel lasts.\<close>

lemma read_after:
  assumes "0 < n" and "well_keyed d" and "newest_first key (entries d) = xs @ x # ys" and "length ys < n * fuel"
  shows "read_on (page d n) key n fuel (Some (key x)) = ys"
  using assms(3,4)
proof (induction fuel arbitrary: xs x ys)
  case (Suc fuel)
  note page = page_after [OF \<open>well_keyed d\<close> Suc.prems(1)]
  show ?case
  proof (cases "length ys < n")
    case False
    then obtain zs z where split: "take n ys = zs @ [z]" "Suc (length zs) = n"
      using full_page_last [OF \<open>0 < n\<close>] by blast
    then have whole: "newest_first key (entries d) = (xs @ x # zs) @ z # drop n ys"
      using Suc.prems(1) append_take_drop_id [of n ys] by simp
    have "read_on (page d n) key n fuel (Some (key z)) = drop n ys"
      by (rule Suc.IH [OF whole]) (use Suc.prems(2) False in simp)
    with False page split show ?thesis
      using append_take_drop_id [of n ys] by (simp add: Let_def)
  qed (simp add: Let_def page)
qed simp

theorem reads_everything:
  assumes "0 < n" and "well_keyed d" and "length (entries d) < n * fuel"
  shows "read_on (page d n) key n fuel None = newest_first key (entries d)"
proof (cases fuel)
  case (Suc f)
  let ?S = "newest_first key (entries d)"
  show ?thesis
  proof (cases "length ?S < n")
    case False
    then obtain zs z where split: "take n ?S = zs @ [z]" "Suc (length zs) = n"
      using full_page_last [OF \<open>0 < n\<close>] by blast
    then have "?S = zs @ z # drop n ?S" using append_take_drop_id [of n ?S] by simp
    from read_after [OF \<open>0 < n\<close> \<open>well_keyed d\<close> this] have "read_on (page d n) key n f (Some (key z)) = drop n ?S"
      using assms(3) False Suc by simp
    with False split show ?thesis
      using append_take_drop_id [of n ?S] by (simp add: Suc Let_def first_page)
  qed (simp add: Suc Let_def first_page)
qed (use assms in simp)

end

lemma keyset_page_rows:
  "0 \<le> n \<Longrightarrow> keyset_page k rows (map_option fst cur) (map_option snd cur) n t d =
     Inr (take (nat n) (filter (before_cursor k cur) (newest_first k (rows d))), d)"
  by (cases cur) (auto simp: keyset_page_def limit_rows_def filter_newest_first)

text \<open>A join that gives at most one row per clip keeps the clip ids distinct.\<close>

lemma disjoint_from_singleton: "C \<subseteq> B \<Longrightarrow> x \<notin> B \<Longrightarrow> A \<subseteq> {x} \<Longrightarrow> A \<inter> C = {}"
  by blast

lemma distinct_join:
  assumes "distinct (map h xs)" and "\<And>x y. x \<in> set xs \<Longrightarrow> y \<in> set (g x) \<Longrightarrow> f y = h x"
    and "\<And>x. x \<in> set xs \<Longrightarrow> length (g x) \<le> 1"
  shows "distinct (map f (concat (map g xs)))"
  using assms
proof (induction xs)
  case (Cons x xs)
  have IH: "distinct (map f (concat (map g xs)))"
    by (rule Cons.IH) (use Cons.prems in \<open>simp_all\<close>)
  have "f ` set (concat (map g xs)) \<subseteq> h ` set xs"
  proof
    fix v assume "v \<in> f ` set (concat (map g xs))"
    then obtain x' y where "x' \<in> set xs" and "y \<in> set (g x')" and "v = f y" by auto
    with Cons.prems(2) [of x' y] show "v \<in> h ` set xs" by simp
  qed
  moreover have "h x \<notin> h ` set xs" using Cons.prems(1) by simp
  moreover have "f ` set (g x) \<subseteq> {h x}"
    using Cons.prems(2) [of x] by (intro image_subsetI) (simp only: singleton_iff list.set_intros)
  ultimately have "f ` set (g x) \<inter> f ` set (concat (map g xs)) = {}"
    by (rule disjoint_from_singleton)
  moreover have "distinct (map f (g x))"
    using Cons.prems(3) [of x] by (cases "g x") auto
  ultimately show ?case using IH by simp
qed simp

lemma at_most_one_join:
  assumes "length (filter P xs) \<le> 1" and "\<And>x. length (k x) \<le> 1"
  shows "length (concat (map (\<lambda>x. if P x then k x else []) xs)) \<le> 1"
  using assms(1)
proof (induction xs)
  case (Cons x xs)
  show ?case
  proof (cases "P x")
    case True
    then have "\<forall>y \<in> set xs. \<not> P y" using Cons.prems by (simp add: filter_empty_conv)
    then have "map (\<lambda>x. if P x then k x else []) xs = map (\<lambda>x. []) xs" by simp
    with True assms(2) [of x] show ?thesis by (simp only: list.map concat.simps if_True map_replicate_const concat_replicate_trivial) simp
  qed (use Cons in simp)
qed simp

lemma at_most_one:
  assumes "distinct (map h xs)" and "\<And>x. P x \<Longrightarrow> h x = v"
  shows "length (filter P xs) \<le> 1"
  using assms(1)
proof (induction xs)
  case (Cons x xs)
  show ?case
  proof (cases "P x")
    case True
    then have "filter P xs = []"
      using Cons.prems assms(2) by (fastforce simp: filter_empty_conv)
    with True show ?thesis by simp
  qed (use Cons in simp)
qed simp

definition feed_ids_ok :: "db \<Rightarrow> bool" where
  "feed_ids_ok d \<longleftrightarrow> distinct (map cl_id (clips d)) \<and> distinct (map ac_id (actors d)) \<and>
     distinct (map (\<lambda>f. (fo_follower_actor_id f, fo_target_actor_id f)) (follows d))"

lemma feed_key_distinct: "distinct (map fr_id rs) \<Longrightarrow> distinct (map feed_key rs)"
  by (induction rs) (auto simp: feed_key_def)

lemma one_author:
  "feed_ids_ok d \<Longrightarrow> (\<And>a. length (k a) \<le> 1) \<Longrightarrow>
     length (concat (map (\<lambda>a. if ac_id a = i \<and> Q a then k a else []) (actors d))) \<le> 1"
  by (rule at_most_one_join, rule at_most_one [of ac_id _ _ i]) (auto simp: feed_ids_ok_def)

lemma one_follow:
  "feed_ids_ok d \<Longrightarrow> length (concat (map (\<lambda>f. if fo_target_actor_id f = i \<and> fo_follower_actor_id f = v \<and>
       fo_state f = Accepted then [r] else []) (follows d))) \<le> 1"
  by (rule at_most_one_join,
      rule at_most_one [of "\<lambda>f. (fo_follower_actor_id f, fo_target_actor_id f)" _ _ "(v, i)"])
     (auto simp: feed_ids_ok_def)

lemma discover_keys: "feed_ids_ok d \<Longrightarrow> distinct (map feed_key (discover_rows d))"
  unfolding discover_rows_def
  by (rule feed_key_distinct, rule distinct_join [of cl_id])
     (auto simp: feed_ids_ok_def feed_row_def simp del: One_nat_def length_concat intro!: one_author split: if_splits)

lemma following_keys: "feed_ids_ok d \<Longrightarrow> distinct (map feed_key (following_rows v d))"
  unfolding following_rows_def
  by (rule feed_key_distinct, rule distinct_join [of cl_id])
     (auto simp: feed_ids_ok_def feed_row_def simp del: One_nat_def length_concat
       intro!: one_author one_follow split: if_splits)

lemma local_keys: "feed_ids_ok d \<Longrightarrow> distinct (map feed_key (local_rows d))"
  unfolding local_rows_def
  by (rule feed_key_distinct, rule distinct_join [of cl_id])
     (auto simp: feed_ids_ok_def feed_row_def simp del: One_nat_def length_concat intro!: one_author split: if_splits)

text \<open>The rows a listing query returns on the tables \<open>d\<close>; a page of the reader above.\<close>

definition rows_of :: "(timestamp option \<Rightarrow> int option \<Rightarrow> int \<Rightarrow> 'r list stmt) \<Rightarrow> db \<Rightarrow> nat \<Rightarrow> keyset option \<Rightarrow> 'r list" where
  "rows_of q d n cur = (case q (map_option fst cur) (map_option snd cur) (int n) 0 d of
     Inl e \<Rightarrow> [] | Inr (rs, _) \<Rightarrow> rs)"

lemma rows_of_keyset_page:
  "rows_of (keyset_page k rows) d n cur = take n (filter (before_cursor k cur) (newest_first k (rows d)))"
  by (simp add: rows_of_def keyset_page_rows)

interpretation discover: keyset_feed discover_rows feed_key "rows_of discover_feed" feed_ids_ok
  by unfold_locales (simp_all add: discover_feed_def feed_page_def rows_of_keyset_page discover_keys)

interpretation following: keyset_feed "following_rows v" feed_key "rows_of (following_feed v)" feed_ids_ok for v
  by unfold_locales (simp_all add: following_feed_def feed_page_def rows_of_keyset_page following_keys)

interpretation local_timeline: keyset_feed local_rows feed_key "rows_of local_feed" feed_ids_ok
  by unfold_locales (simp_all add: local_feed_def feed_page_local_def rows_of_keyset_page local_keys)

section \<open>Hashtags: what is extracted, and that linking is idempotent\<close>

definition tags_ok :: "string list \<Rightarrow> bool" where
  "tags_ok tags \<longleftrightarrow> length tags \<le> max_hashtags \<and> distinct tags \<and> [] \<notin> set tags"

lemma add_tag_ok: "tags_ok tags \<Longrightarrow> length tags < max_hashtags \<Longrightarrow> tags_ok (add_tag tag tags)"
  by (auto simp: tags_ok_def add_tag_def)

lemma scan_tags_ok: "tags_ok tags \<Longrightarrow> tags_ok (scan_tags s tags)"
  by (induction s tags rule: scan_tags.induct) (simp_all add: add_tag_ok)

lemma extract_hashtags_bounded: "length (extract_hashtags caption) \<le> 10"
  and extract_hashtags_distinct: "distinct (extract_hashtags caption)"
  and extract_hashtags_nonempty: "[] \<notin> set (extract_hashtags caption)"
  using scan_tags_ok [of "[]" caption] by (simp_all add: extract_hashtags_def tags_ok_def max_hashtags_def)

text \<open>The tag has a row and the clip is linked to it.\<close>

definition tag_row :: "string \<Rightarrow> db \<Rightarrow> hashtag option" where
  "tag_row tag d = fetch_optional (filter (\<lambda>h. citext_eq (ht_tag h) tag) (hashtags d))"

definition linked :: "int \<Rightarrow> string \<Rightarrow> db \<Rightarrow> bool" where
  "linked clip_id tag d = (case tag_row tag d of None \<Rightarrow> False | Some h \<Rightarrow> (clip_id, ht_id h) \<in> set (clip_hashtags d))"

lemma fetch_optional_append:
  "fetch_optional (xs @ ys) = (case fetch_optional xs of None \<Rightarrow> fetch_optional ys | Some x \<Rightarrow> Some x)"
  by (cases xs) simp_all

lemma insert_hashtag_frame [simp]:
  "clip_hashtags (insert_hashtag tag d) = clip_hashtags d" "clips (insert_hashtag tag d) = clips d"
  by (simp_all add: insert_hashtag_def)

lemma insert_hashtag_row:
  "tag_row tag' d = Some h \<Longrightarrow> tag_row tag' (insert_hashtag tag d) = Some h"
  by (simp add: tag_row_def insert_hashtag_def fetch_optional_append)

lemma insert_known_hashtag: "tag_row tag d = Some h \<Longrightarrow> insert_hashtag tag d = d"
  by (auto simp: tag_row_def insert_hashtag_def list_ex_iff dest!: fetch_optional_Some_mem)

lemma link_linked:
  "linked clip_id tag d \<Longrightarrow> has_clip clip_id d \<Longrightarrow> link_hashtag clip_id tag d = Inr d"
  by (auto simp: linked_def link_hashtag_def insert_known_hashtag tag_row_def [symmetric] split: option.splits)

lemma tag_row_links [simp]: "tag_row tag (clip_hashtags_update f d) = tag_row tag d"
  by (simp add: tag_row_def)

lemma link_links:
  assumes "link_hashtag clip_id tag d = Inr d'"
  shows "linked clip_id tag d'" and "has_clip clip_id d'" and "linked c tag' d \<Longrightarrow> linked c tag' d'"
proof -
  obtain h where h: "tag_row tag (insert_hashtag tag d) = Some h"
    using assms by (auto simp: link_hashtag_def Let_def tag_row_def [symmetric] split: option.splits)
  show "linked clip_id tag d'" and "has_clip clip_id d'"
    using assms h by (auto simp: link_hashtag_def linked_def Let_def tag_row_def [symmetric] has_clip_def split: if_splits)
  assume "linked c tag' d"
  then obtain h' where h': "tag_row tag' (insert_hashtag tag d) = Some h'" "(c, ht_id h') \<in> set (clip_hashtags d)"
    by (auto simp: linked_def dest: insert_hashtag_row split: option.splits)
  with assms h show "linked c tag' d'"
    by (auto simp: link_hashtag_def linked_def Let_def tag_row_def [symmetric] split: if_splits)
qed

lemma link_all_links:
  "link_all clip_id tags d = Inr d' \<Longrightarrow> (\<forall>tag \<in> set tags. linked clip_id tag d') \<and>
     (tags \<noteq> [] \<longrightarrow> has_clip clip_id d') \<and> (\<forall>c tag. linked c tag d \<longrightarrow> linked c tag d') \<and>
     (has_clip clip_id d \<longrightarrow> has_clip clip_id d')"
proof (induction tags arbitrary: d)
  case (Cons tag tags)
  then obtain d1 where step: "link_hashtag clip_id tag d = Inr d1" and rest: "link_all clip_id tags d1 = Inr d'"
    by (auto split: sum.splits)
  from Cons.IH [OF rest] link_links [OF step] show ?case by auto
qed simp

lemma link_all_linked:
  "(\<forall>tag \<in> set tags. linked clip_id tag d) \<Longrightarrow> (tags \<noteq> [] \<longrightarrow> has_clip clip_id d) \<Longrightarrow> link_all clip_id tags d = Inr d"
  by (induction tags) (auto simp: link_linked)

theorem linking_is_idempotent:
  assumes "link_hashtags_to_clip clip_id caption t d = Inr ((), d')"
  shows "link_hashtags_to_clip clip_id caption t' d' = Inr ((), d')"
proof -
  have "link_all clip_id (extract_hashtags caption) d = Inr d'"
    using assms by (simp add: link_hashtags_to_clip_def split: sum.splits)
  then have "link_all clip_id (extract_hashtags caption) d' = Inr d'"
    using link_all_links by (blast intro: link_all_linked)
  then show ?thesis by (simp add: link_hashtags_to_clip_def)
qed

end
