(* ===== verification/Web.thy ===== *)
theory Web
  imports Worker Db_Feed
begin

text \<open>
  What every request handler of \<^verbatim>\<open>crates/server/src\<close> shares: the answer to a request
  (\<^verbatim>\<open>problem.rs\<close>), the server's configuration and parameters, the session cookie and the
  extractor \<^verbatim>\<open>AuthUser\<close> (\<^verbatim>\<open>session.rs\<close>), and the CSRF middleware (\<^verbatim>\<open>csrf.rs\<close>). The world of a
  handler is the one of the workers, the mails sent so far (\<^verbatim>\<open>mail.rs\<close>) and the number of random
  tokens drawn. Parameters (record \<open>server_env\<close>): the random generator, SHA-256, argon2id, the key
  generator and the texts of database errors.
\<close>

section \<open>Answers (\<^verbatim>\<open>problem.rs\<close>)\<close>

record response =
  rs_status :: nat
  rs_body :: json
  rs_set_cookie :: "string option"

definition reply :: "nat \<Rightarrow> json \<Rightarrow> response" where
  "reply status body = \<lparr>rs_status = status, rs_body = body, rs_set_cookie = None\<rparr>"

definition problem :: "nat \<Rightarrow> string \<Rightarrow> string \<Rightarrow> response" where
  "problem status title detail = reply status (JObj [(''type'', JStr ''about:blank''), (''title'', JStr title),
     (''status'', JInt (int status)), (''detail'', JStr detail)])"

section \<open>The server\<close>

record server_env =
  sv_base_url :: string
  sv_behind_tls :: bool
  sv_has_pool :: bool
  sv_random :: "nat \<Rightarrow> string"
  sv_hash_token :: "string \<Rightarrow> string"
  sv_hash_password :: "nat \<Rightarrow> string \<Rightarrow> string + string"
  sv_verify_password :: "string \<Rightarrow> string \<Rightarrow> bool"
  sv_keypair :: "nat \<Rightarrow> string + (string \<times> string)"
  sv_db_text :: "db_error \<Rightarrow> string"
  sv_store_text :: "media_error \<Rightarrow> string"
  sv_rfc3339 :: "timestamp \<Rightarrow> string"

record mail =
  ml_to :: string
  ml_subject :: string
  ml_body :: string

record web_world = media_world +
  ww_draws :: nat
  ww_mails :: "mail list"

text \<open>\<^verbatim>\<open>random_urlsafe_token\<close> and the mailer.\<close>

definition random_urlsafe_token :: "'y server_env_scheme \<Rightarrow> 'z web_world_scheme \<Rightarrow> string \<times> 'z web_world_scheme" where
  "random_urlsafe_token env w = (sv_random env (ww_draws w), w\<lparr>ww_draws := Suc (ww_draws w)\<rparr>)"

definition send_mail :: "mail \<Rightarrow> 'z web_world_scheme \<Rightarrow> 'z web_world_scheme" where
  "send_mail m w = w\<lparr>ww_mails := ww_mails w @ [m]\<rparr>"

text \<open>The guards at the head of the handlers: no pool configured, and the answer to a failed statement.\<close>

definition unavailable :: response where
  "unavailable = problem 503 ''database unavailable'' ''database is not configured''"

definition db_problem :: "'y server_env_scheme \<Rightarrow> db_error \<Rightarrow> response" where
  "db_problem env e = problem 500 ''database error'' (sv_db_text env e)"

definition with_pool :: "'y server_env_scheme \<Rightarrow> 'w \<Rightarrow> ('w \<Rightarrow> response \<times> 'w) \<Rightarrow> response \<times> 'w" where
  "with_pool env w k = (if sv_has_pool env then k w else (unavailable, w))"

definition or_500 ::
  "'y server_env_scheme \<Rightarrow> (db_error + 'a) \<times> 'w \<Rightarrow> ('a \<Rightarrow> 'w \<Rightarrow> response \<times> 'w) \<Rightarrow> response \<times> 'w" where
  "or_500 env r k = (case r of (Inl e, w) \<Rightarrow> (db_problem env e, w) | (Inr a, w) \<Rightarrow> k a w)"

section \<open>Requests\<close>

datatype http_method = Get | Head | Options | Trace | Post | Put | Patch | Delete_Method

text \<open>Header names are lower case; \<^verbatim>\<open>HeaderMap::get\<close> gives the first value of a name.\<close>

record request =
  rq_method :: http_method
  rq_path :: string
  rq_headers :: "(string \<times> string) list"

text \<open>\<^verbatim>\<open>HeaderValue::to_str\<close>: visible ASCII, blank and tab.\<close>

definition header_to_str :: "string \<Rightarrow> string option" where
  "header_to_str v = (if list_all (\<lambda>c. (32 \<le> code c \<and> code c < 127) \<or> code c = 9) v then Some v else None)"

definition header_str :: "string \<Rightarrow> (string \<times> string) list \<Rightarrow> string option" where
  "header_str name headers = Option.bind (map_of headers name) header_to_str"

section \<open>Sessions (\<^verbatim>\<open>session.rs\<close>)\<close>

definition session_cookie_name :: string where
  "session_cookie_name = ''toottok_session''"

text \<open>\<^verbatim>\<open>splitn(2, '=')\<close>.\<close>

definition split_once :: "char \<Rightarrow> string \<Rightarrow> string \<times> string option" where
  "split_once c s = (takeWhile (\<lambda>x. x \<noteq> c) s, case dropWhile (\<lambda>x. x \<noteq> c) s of [] \<Rightarrow> None | _ # v \<Rightarrow> Some v)"

fun find_cookie :: "string list \<Rightarrow> string option" where
  "find_cookie [] = None"
| "find_cookie (pair # pairs) = (case split_once (CHR ''='') (trim pair) of
     (name, value) \<Rightarrow> if name = session_cookie_name then map_option trim value else find_cookie pairs)"

definition session_token_from_headers :: "(string \<times> string) list \<Rightarrow> string option" where
  "session_token_from_headers headers =
     Option.bind (header_str ''cookie'' headers) (\<lambda>cookie. find_cookie (split_on (CHR '';'') cookie))"

record auth_user =
  au_user :: user
  au_actor :: actor
  au_session :: session

definition unauthorized :: response where
  "unauthorized = problem 401 ''unauthorized'' ''a valid toottok_session cookie is required''"

text \<open>A statement of the extractor: its error ends the extraction with the answer.\<close>

definition or_reject ::
  "'y server_env_scheme \<Rightarrow> (db_error + 'a) \<times> 'w \<Rightarrow> ('a \<Rightarrow> 'w \<Rightarrow> (response + 'b) \<times> 'w) \<Rightarrow> (response + 'b) \<times> 'w" where
  "or_reject env r k = (case r of (Inl e, w) \<Rightarrow> (Inl (db_problem env e), w) | (Inr a, w) \<Rightarrow> k a w)"

definition admit_actor ::
  "'y server_env_scheme \<Rightarrow> session \<Rightarrow> user \<Rightarrow> 'z pool_scheme \<Rightarrow> (response + auth_user) \<times> 'z pool_scheme" where
  "admit_actor env session user w =
     or_reject env (exec (actor_fetch_by_id (us_actor_id user)) w) (\<lambda>found w. case found of
       None \<Rightarrow> (Inl unauthorized, w)
     | Some actor \<Rightarrow>
         if ac_deleted_at actor \<noteq> None \<or> ac_suspended_at actor \<noteq> None then (Inl unauthorized, w)
         else (Inr \<lparr>au_user = user, au_actor = actor, au_session = session\<rparr>, w))"

definition admit_user ::
  "'y server_env_scheme \<Rightarrow> session \<Rightarrow> 'z pool_scheme \<Rightarrow> (response + auth_user) \<times> 'z pool_scheme" where
  "admit_user env session w =
     or_reject env (exec (user_fetch_by_id (se_user_id session)) w) (\<lambda>found w. case found of
       None \<Rightarrow> (Inl unauthorized, w)
     | Some user \<Rightarrow>
         if us_deleted_at user \<noteq> None \<or> us_status user \<noteq> Active then (Inl unauthorized, w)
         else admit_actor env session user w)"

definition from_request_parts ::
  "'y server_env_scheme \<Rightarrow> (string \<times> string) list \<Rightarrow> 'z pool_scheme \<Rightarrow> (response + auth_user) \<times> 'z pool_scheme" where
  "from_request_parts env headers w = (case session_token_from_headers headers of
     None \<Rightarrow> (Inl unauthorized, w)
   | Some token \<Rightarrow>
       if \<not> sv_has_pool env then (Inl unavailable, w)
       else or_reject env (exec (session_fetch_by_id (sv_hash_token env token)) w) (\<lambda>found w. case found of
         None \<Rightarrow> (Inl unauthorized, w)
       | Some session \<Rightarrow>
           if se_expires_at session \<le> now w
           then (Inl unauthorized, snd (exec (session_delete_by_id (se_id session)) w))
           else admit_user env session w))"

text \<open>\<^verbatim>\<open>OptionalAuthUser\<close>.\<close>

definition optional_auth ::
  "'y server_env_scheme \<Rightarrow> (string \<times> string) list \<Rightarrow> 'z pool_scheme \<Rightarrow> auth_user option \<times> 'z pool_scheme" where
  "optional_auth env headers w = (case from_request_parts env headers w of
     (Inr auth, w) \<Rightarrow> (Some auth, w) | (Inl _, w) \<Rightarrow> (None, w))"

text \<open>A handler behind the extractor.\<close>

definition authenticated ::
  "'y server_env_scheme \<Rightarrow> (auth_user \<Rightarrow> 'z pool_scheme \<Rightarrow> response \<times> 'z pool_scheme) \<Rightarrow>
     (string \<times> string) list \<Rightarrow> 'z pool_scheme \<Rightarrow> response \<times> 'z pool_scheme" where
  "authenticated env handler headers w = (case from_request_parts env headers w of
     (Inl resp, w) \<Rightarrow> (resp, w) | (Inr auth, w) \<Rightarrow> handler auth w)"

section \<open>CSRF protection (\<^verbatim>\<open>csrf.rs\<close>)\<close>

definition csrf_exempt_paths :: "string list" where
  "csrf_exempt_paths = [''/api/v1/auth/login'', ''/api/v1/auth/register'']"

unbundle bit_operations_syntax

definition byte_of :: "char \<Rightarrow> 8 word" where
  "byte_of c = of_char c"

definition constant_time_eq :: "string \<Rightarrow> string \<Rightarrow> bool" where
  "constant_time_eq a b =
     (if length a \<noteq> length b then False
      else foldl (\<lambda>acc (x, y). acc OR (byte_of x XOR byte_of y)) 0 (zip a b) = 0)"

definition csrf_mismatch :: response where
  "csrf_mismatch = problem 403 ''csrf token mismatch''
     ''X-Toottok-CSRF header is required on cookie-authenticated state-changing requests''"

definition csrf_middleware ::
  "'y server_env_scheme \<Rightarrow> request \<Rightarrow> (request \<Rightarrow> 'z pool_scheme \<Rightarrow> response \<times> 'z pool_scheme) \<Rightarrow>
     'z pool_scheme \<Rightarrow> response \<times> 'z pool_scheme" where
  "csrf_middleware env req next_handler w =
     (if rq_method req \<in> {Get, Head, Options, Trace} then next_handler req w
      else if rq_path req \<in> set csrf_exempt_paths then next_handler req w
      else case session_token_from_headers (rq_headers req) of
        None \<Rightarrow> next_handler req w
      | Some token \<Rightarrow>
          if \<not> sv_has_pool env then (unavailable, w)
          else (case exec (session_fetch_by_id (sv_hash_token env token)) w of
            (Inr (Some session), w) \<Rightarrow>
              if \<not> constant_time_eq (unwrap_or '''' (header_str ''x-toottok-csrf'' (rq_headers req))) (se_csrf_token session)
              then (csrf_mismatch, w)
              else next_handler req w
          | (_, w) \<Rightarrow> next_handler req w))"

definition csrf_verify :: "string option \<Rightarrow> string \<Rightarrow> bool" where
  "csrf_verify provided expected = constant_time_eq (unwrap_or '''' provided) expected"

section \<open>The comparison is equality\<close>

lemma byte_of_eq: "byte_of c = byte_of d \<longleftrightarrow> c = d"
proof -
  have "unat (byte_of c) = of_char c" for c
    by (simp add: byte_of_def of_char_def unat_of_nat take_bit_eq_mod)
  then show ?thesis by (metis of_char_eq_iff)
qed

lemma or_zero: "a OR b = 0 \<longleftrightarrow> a = 0 \<and> b = (0 :: 8 word)"
  by (auto simp: bit_eq_iff bit_simps)

lemma xor_zero: "a XOR b = 0 \<longleftrightarrow> a = (b :: 8 word)"
  by (auto simp: bit_eq_iff bit_simps)

lemma fold_difference:
  "length a = length b \<Longrightarrow>
     foldl (\<lambda>acc (x, y). acc OR (byte_of x XOR byte_of y)) acc (zip a b) = 0 \<longleftrightarrow> acc = 0 \<and> a = b"
  by (induction a b arbitrary: acc rule: list_induct2) (auto simp: or_zero xor_zero byte_of_eq)

lemma constant_time_eq_iff: "constant_time_eq a b \<longleftrightarrow> a = b"
  by (auto simp: constant_time_eq_def fold_difference)

section \<open>Who is let in\<close>

lemma or_reject_InrE:
  assumes "or_reject env r k = (Inr a, w')"
  obtains x w where "r = (Inr x, w)" and "k x w = (Inr a, w')"
  using assms by (cases r; cases "fst r") (auto simp: or_reject_def)

lemma fetch_selected:
  assumes "exec (select (\<lambda>t d. fetch_optional (filter P (tab d)))) w = (Inr (Some r), w1)"
  shows "db w1 = db w \<and> r \<in> set (tab (db w)) \<and> P r"
  using exec_selectD [OF assms] fetch_optional_Some_mem [of "filter P (tab (db w))" r] by simp

lemma fetch_by:
  "exec (session_fetch_by_id i) w = (Inr (Some s), w1) \<Longrightarrow> db w1 = db w \<and> s \<in> set (sessions (db w)) \<and> se_id s = i"
  "exec (user_fetch_by_id j) w = (Inr (Some u), w2) \<Longrightarrow> db w2 = db w \<and> u \<in> set (users (db w)) \<and> us_id u = j"
  "exec (actor_fetch_by_id k) w = (Inr (Some a), w3) \<Longrightarrow> db w3 = db w \<and> a \<in> set (actors (db w)) \<and> ac_id a = k"
  unfolding session_fetch_by_id_def user_fetch_by_id_def user_by_def actor_fetch_by_id_def actor_by_def
  by (drule fetch_selected; simp)+

lemma admit_actor_InrD:
  assumes "admit_actor env s u w = (Inr auth, w')"
  shows "\<exists>a. auth = \<lparr>au_user = u, au_actor = a, au_session = s\<rparr> \<and> a \<in> set (actors (db w)) \<and>
    ac_id a = us_actor_id u \<and> in_good_standing a \<and> db w' = db w"
  using assms unfolding admit_actor_def
  by (elim or_reject_InrE) (auto simp: in_good_standing_def dest: fetch_by(3) split: option.splits if_splits)

lemma admit_user_InrD:
  assumes "admit_user env s w = (Inr auth, w')"
  shows "\<exists>u a. auth = \<lparr>au_user = u, au_actor = a, au_session = s\<rparr> \<and> u \<in> set (users (db w)) \<and>
    us_id u = se_user_id s \<and> us_status u = Active \<and> us_deleted_at u = None \<and>
    a \<in> set (actors (db w)) \<and> ac_id a = us_actor_id u \<and> in_good_standing a \<and> db w' = db w"
  using assms unfolding admit_user_def
  by (elim or_reject_InrE) (auto dest!: fetch_by(2) admit_actor_InrD split: option.splits if_splits)

lemma fetch_clock: "exec f w = (r, w') \<Longrightarrow> now w' = clock w (Suc (ticks w))"
  using exec_frame [of f w] by (simp add: now_def)

text \<open>C26: The extractor lets in only the holder of an unexpired session of an account that is active, not
  deleted and not suspended; the session is the one whose id is the hash of the cookie.\<close>

theorem authenticated_only_live:
  assumes "from_request_parts env headers w = (Inr auth, w')"
  shows "\<exists>token. session_token_from_headers headers = Some token \<and> se_id (au_session auth) = sv_hash_token env token \<and>
     au_session auth \<in> set (sessions (db w)) \<and> clock w (Suc (ticks w)) < se_expires_at (au_session auth) \<and>
     au_user auth \<in> set (users (db w)) \<and> us_id (au_user auth) = se_user_id (au_session auth) \<and>
     us_status (au_user auth) = Active \<and> us_deleted_at (au_user auth) = None \<and>
     au_actor auth \<in> set (actors (db w)) \<and> ac_id (au_actor auth) = us_actor_id (au_user auth) \<and>
     in_good_standing (au_actor auth)"
proof -
  obtain token where token: "session_token_from_headers headers = Some token"
    using assms by (auto simp: from_request_parts_def split: option.splits)
  then obtain s w1 where s: "exec (session_fetch_by_id (sv_hash_token env token)) w = (Inr (Some s), w1)"
      and live: "\<not> se_expires_at s \<le> now w1" and user: "admit_user env s w1 = (Inr auth, w')"
    using assms by (auto simp: from_request_parts_def elim!: or_reject_InrE split: option.splits if_splits)
  show ?thesis
    using token admit_user_InrD [OF user] fetch_by(1) [OF s] live fetch_clock [OF s] by auto
qed

section \<open>Cookies of plain characters\<close>

text \<open>The characters of a base64url token.\<close>

definition base64url :: "char \<Rightarrow> bool" where
  "base64url c \<longleftrightarrow> is_ascii_alphanumeric c \<or> c = CHR ''-'' \<or> c = CHR ''_''"

lemma base64url_plain:
  "base64url c \<Longrightarrow> graphic c" "base64url c \<Longrightarrow> c \<noteq> CHR '';''" "base64url c \<Longrightarrow> 32 \<le> code c \<and> code c < 127"
  by (auto simp: base64url_def is_ascii_alphanumeric_def graphic_def code_def Let_def)

lemma split_on_none: "c \<notin> set s \<Longrightarrow> split_on c s = [s]"
  by (induction s) auto

lemma cookie_round_trip:
  assumes "list_all base64url t"
  shows "session_token_from_headers [(''cookie'', session_cookie_name @ CHR ''='' # t)] = Some t"
proof -
  let ?v = "session_cookie_name @ CHR ''='' # t"
  have "list_all (\<lambda>c. (32 \<le> code c \<and> code c < 127) \<or> code c = 9) t"
    using assms by (auto simp: list_all_iff dest: base64url_plain(3))
  then have "header_to_str ?v = Some ?v"
    by (simp add: header_to_str_def session_cookie_name_def code_def)
  moreover have "CHR '';'' \<notin> set ?v"
    using assms by (auto simp: session_cookie_name_def list_all_iff dest: base64url_plain(2))
  moreover have "trim ?v = ?v"
    by (rule trim_graphic, cases t rule: rev_cases)
       (use assms in \<open>auto simp: session_cookie_name_def graphic_def code_def list_all_iff dest: base64url_plain(1)\<close>)
  moreover have "trim t = t"
    by (rule trim_graphic) (use assms in \<open>cases t; auto simp: list_all_iff dest: base64url_plain(1)\<close>)
  moreover have "split_once (CHR ''='') ?v = (session_cookie_name, Some t)"
    by (simp add: split_once_def session_cookie_name_def)
  ultimately show ?thesis
    by (simp add: session_token_from_headers_def header_str_def split_on_none)
qed

section \<open>A small server\<close>

definition demo_server_env :: server_env where
  "demo_server_env = \<lparr>sv_base_url = ''https://a.test'', sv_behind_tls = True, sv_has_pool = True,
     sv_random = (\<lambda>n. ''tok'' @ show_nat n), sv_hash_token = (\<lambda>s. CHR ''#'' # s),
     sv_hash_password = (\<lambda>n s. Inr (CHR ''$'' # s)), sv_verify_password = (\<lambda>s h. h = CHR ''$'' # s),
     sv_keypair = (\<lambda>n. Inr (''public'', ''private'')), sv_db_text = (\<lambda>_. ''db''), sv_store_text = (\<lambda>_. ''store''),
     sv_rfc3339 = show_int\<rparr>"

definition demo_user :: user where
  "demo_user = \<lparr>us_id = 11, us_actor_id = 1, us_email = Some ''alice@mail.test'', us_email_verified_at = None,
     us_password_hash = Some ''$correct horse'', us_totp_secret = None, us_totp_recovery_codes = None,
     us_is_admin = False, us_status = Active, us_deleted_at = None, us_created_at = 0\<rparr>"

definition demo_session :: session where
  "demo_session = \<lparr>se_id = ''#abc'', se_user_id = 11, se_expires_at = 1000, se_ip = None, se_ua = None,
     se_csrf_token = ''xyz''\<rparr>"

definition demo_web_world :: web_world where
  "demo_web_world = \<lparr>db = demo_inbox_db\<lparr>users := [demo_user], sessions := [demo_session]\<rparr>, clock = int, link = all_up,
     ticks = 0, dw_guard = egress_new False, mw_store = demo_store, ww_draws = 0, ww_mails = []\<rparr>"

definition demo_cookie :: "(string \<times> string) list" where
  "demo_cookie = [(''cookie'', session_cookie_name @ ''=abc'')]"

lemma demo_token: "session_token_from_headers demo_cookie = Some ''abc''"
  using cookie_round_trip [of "''abc''"]
  by (simp add: demo_cookie_def base64url_def is_ascii_alphanumeric_def code_def)

lemma demo_extraction: "\<exists>auth w'. from_request_parts demo_server_env demo_cookie demo_web_world = (Inr auth, w')"
  by (simp add: from_request_parts_def admit_user_def admit_actor_def demo_token or_reject_def exec_up demo_server_env_def
      demo_web_world_def session_fetch_by_id_def user_fetch_by_id_def user_by_def actor_fetch_by_id_def actor_by_def
      select_def demo_session_def demo_user_def demo_inbox_db_def demo_author_def now_def)

theorem authenticated_only_live_witness:
  "\<exists>auth :: auth_user. au_user auth \<in> set (users (db demo_web_world)) \<and> us_status (au_user auth) = Active \<and> in_good_standing (au_actor auth)"
proof -
  obtain auth w' where "from_request_parts demo_server_env demo_cookie demo_web_world = (Inr auth, w')"
    using demo_extraction by blast
  from authenticated_only_live [OF this] show ?thesis by blast
qed

section \<open>CSRF\<close>

lemma fetch_session_up:
  assumes "link w (ticks w) = Up" and "unique_on (\<lambda>s. Some (se_id s)) (sessions (db w))" and "s \<in> set (sessions (db w))"
  shows "exec (session_fetch_by_id (se_id s)) w = (Inr (Some s), w\<lparr>ticks := Suc (ticks w)\<rparr>)"
  using filter_unique_on [OF assms(2,3), of "se_id s"] assms(1)
  by (simp add: exec_up session_fetch_by_id_def select_def)

text \<open>A state-changing request that carries a session cookie but not the token of that session is turned
  away before any handler runs: it answers 403 and changes no table.\<close>

theorem csrf_blocks_forgery:
  assumes "rq_method req \<notin> {Get, Head, Options, Trace}" and "rq_path req \<notin> set csrf_exempt_paths"
    and "session_token_from_headers (rq_headers req) = Some token" and "sv_has_pool env"
    and "unique_on (\<lambda>s. Some (se_id s)) (sessions (db w))" and "s \<in> set (sessions (db w))"
    and "se_id s = sv_hash_token env token" and "link w (ticks w) = Up"
    and "unwrap_or '''' (header_str ''x-toottok-csrf'' (rq_headers req)) \<noteq> se_csrf_token s"
  shows "csrf_middleware env req next_handler w = (csrf_mismatch, w\<lparr>ticks := Suc (ticks w)\<rparr>)"
  using assms fetch_session_up [OF assms(8,5,6)] by (simp add: csrf_middleware_def constant_time_eq_iff)

definition demo_forged :: request where
  "demo_forged = \<lparr>rq_method = Delete_Method, rq_path = ''/api/v1/accounts/me'', rq_headers = demo_cookie\<rparr>"

theorem csrf_blocks_forgery_witness:
  "fst (csrf_middleware demo_server_env demo_forged (\<lambda>req w. (reply 204 JNull, w\<lparr>db := empty_db\<rparr>)) demo_web_world) = csrf_mismatch"
proof -
  have "session_token_from_headers (rq_headers demo_forged) = Some ''abc''"
    and "header_str ''x-toottok-csrf'' (rq_headers demo_forged) = None"
    using demo_token by (simp_all add: demo_forged_def header_str_def demo_cookie_def)
  then show ?thesis
    by (subst csrf_blocks_forgery [where token = "''abc''" and s = demo_session])
       (simp_all add: demo_forged_def demo_web_world_def demo_session_def demo_server_env_def csrf_exempt_paths_def
         unwrap_or_def unique_on_def List.map_filter_simps)
qed

text \<open>The check fails open: when the session cannot be read, the request goes on unchecked.\<close>

lemma csrf_fails_open:
  assumes "link w (ticks w) = Down" and "sv_has_pool env"
  shows "\<exists>w'. csrf_middleware env req next_handler w = next_handler req w'"
  using assms by (auto simp: csrf_middleware_def exec_down split: option.splits)

end
