(* ===== verification/Auth.thy ===== *)
theory Auth
  imports Web
begin

text \<open>
  Account creation, login and logout, and the e-mail token flows: \<^verbatim>\<open>crates/server/src/auth.rs\<close>.
  A handler takes the decoded request body and the world, and gives the answer and the new world.
  The dummy verification that \<^verbatim>\<open>request_reset\<close> performs to equalise timing has no effect and no
  definition.
\<close>

section \<open>Constants, tokens and cookies\<close>

definition session_lifetime_secs :: int where
  "session_lifetime_secs = 30 * 24 * 60 * 60"

definition email_token_ttl_secs :: int where
  "email_token_ttl_secs = 60 * 60"

definition session_cookie :: "string \<Rightarrow> bool \<Rightarrow> string" where
  "session_cookie token behind_tls = session_cookie_name @ ''='' @ token @
     ''; Path=/; HttpOnly; SameSite=Lax; Max-Age='' @ show_int session_lifetime_secs @
     (if behind_tls then ''; Secure'' else [])"

definition clear_cookie :: string where
  "clear_cookie = session_cookie_name @ ''=; Path=/; HttpOnly; SameSite=Lax; Max-Age=0''"

text \<open>The calls that draw randomness: the salt of a password hash and a key pair.\<close>

definition hash_password :: "'y server_env_scheme \<Rightarrow> string \<Rightarrow> 'z web_world_scheme \<Rightarrow> (string + string) \<times> 'z web_world_scheme" where
  "hash_password env plaintext w = (sv_hash_password env (ww_draws w) plaintext, w\<lparr>ww_draws := Suc (ww_draws w)\<rparr>)"

definition generate_actor_keypair ::
  "'y server_env_scheme \<Rightarrow> 'z web_world_scheme \<Rightarrow> (string + string \<times> string) \<times> 'z web_world_scheme" where
  "generate_actor_keypair env w = (sv_keypair env (ww_draws w), w\<lparr>ww_draws := Suc (ww_draws w)\<rparr>)"

section \<open>Validation\<close>

text \<open>\<^verbatim>\<open>chars().any(char::is_whitespace)\<close> on UTF-8 bytes.\<close>

definition has_whitespace :: "string \<Rightarrow> bool" where
  "has_whitespace s = list_ex (\<lambda>p. contains_sub p s) unicode_ws"

definition is_ascii_alphabetic :: "char \<Rightarrow> bool" where
  "is_ascii_alphabetic c = (let n = code c in (65 \<le> n \<and> n \<le> 90) \<or> (97 \<le> n \<and> n \<le> 122))"

text \<open>\<^verbatim>\<open>rsplit_once\<close>: what is before and after the last separator.\<close>

definition rsplit_once :: "char \<Rightarrow> string \<Rightarrow> (string \<times> string) option" where
  "rsplit_once c s = (case dropWhile (\<lambda>x. x \<noteq> c) (rev s) of
     [] \<Rightarrow> None | _ # base \<Rightarrow> Some (rev base, rev (takeWhile (\<lambda>x. x \<noteq> c) (rev s))))"

definition is_valid_email :: "string \<Rightarrow> bool" where
  "is_valid_email email =
     (if has_whitespace email then False
      else case split_on (CHR ''@'') email of
        [local_part, domain] \<Rightarrow>
          if local_part = [] then False
          else (case rsplit_once (CHR ''.'') domain of
            None \<Rightarrow> False
          | Some (base, tld) \<Rightarrow> base \<noteq> [] \<and> length tld \<ge> 2 \<and> list_all is_ascii_alphabetic tld)
      | _ \<Rightarrow> False)"

record register_request =
  rr_username :: string
  rr_email :: "string option"
  rr_password :: string

definition is_username_char :: "char \<Rightarrow> bool" where
  "is_username_char c = (let n = code c in (97 \<le> n \<and> n \<le> 122) \<or> (48 \<le> n \<and> n \<le> 57) \<or> c = CHR ''_'')"

definition invalid_username :: response where
  "invalid_username = problem 400 ''invalid username''
     (''username must be 3'' @ [CHR 0xE2, CHR 0x80, CHR 0x93] @ ''30 chars of lowercase a-z, 0-9, or _'')"

definition weak_password :: response where
  "weak_password = problem 400 ''weak password'' ''password must be at least 10 characters''"

definition invalid_email :: response where
  "invalid_email = problem 400 ''invalid email'' ''email address is not valid''"

definition validate_register :: "register_request \<Rightarrow> response + unit" where
  "validate_register body =
     (let username = trim (rr_username body) in
      if \<not> (3 \<le> length username \<and> length username \<le> 30 \<and> list_all is_username_char username)
      then Inl invalid_username
      else if length (rr_password body) < 10 then Inl weak_password
      else case rr_email body of
        None \<Rightarrow> Inr ()
      | Some email \<Rightarrow> let email = trim email in
          if email \<noteq> [] \<and> \<not> is_valid_email email then Inl invalid_email else Inr ())"

section \<open>E-mail tokens\<close>

definition kind_text :: "token_kind \<Rightarrow> string" where
  "kind_text kind = (case kind of Verify \<Rightarrow> ''verify'' | Password_Reset \<Rightarrow> ''password_reset'')"

definition token_mail :: "string \<Rightarrow> token_kind \<Rightarrow> string \<Rightarrow> mail" where
  "token_mail email kind token = \<lparr>ml_to = email,
     ml_subject = (case kind of Verify \<Rightarrow> ''TootTok email verification'' | _ \<Rightarrow> ''TootTok password reset''),
     ml_body = ''TootTok '' @ kind_text kind @ '' code: '' @ token @ [CHR 0x0A] @ ''This code expires in 1 hour.'' @ [CHR 0x0A]\<rparr>"

definition issue_email_token ::
  "'y server_env_scheme \<Rightarrow> int \<Rightarrow> string \<Rightarrow> token_kind \<Rightarrow> 'z web_world_scheme \<Rightarrow> 'z web_world_scheme" where
  "issue_email_token env user_id email kind w = (case random_urlsafe_token env w of
     (token, w) \<Rightarrow>
       let expires_at = now w + seconds email_token_ttl_secs in
       (case exec (email_token_create user_id kind (sv_hash_token env token) expires_at) w of
          (Inl e, w) \<Rightarrow> w
        | (Inr row, w) \<Rightarrow> send_mail (token_mail email kind token) w))"

section \<open>Registration\<close>

definition registration_mode :: "'z pool_scheme \<Rightarrow> (db_error + string) \<times> 'z pool_scheme" where
  "registration_mode w = try_then (exec (setting_fetch_by_key ''registration_mode'') w)
     (\<lambda>row w. (Inr (case row of Some s \<Rightarrow> unwrap_or ''open'' (json_as_str (st_value s)) | None \<Rightarrow> ''open''), w))"

definition registration_status :: "string \<Rightarrow> response + user_status" where
  "registration_status mode =
     (if mode = ''open'' then Inr Active
      else if mode = ''approval'' then Inr Pending_Approval
      else if mode = ''invite'' then Inl (problem 403 ''registration closed'' ''this instance is invite-only'')
      else Inl (problem 500 ''invalid setting'' (''unknown registration_mode: '' @ mode)))"

definition status_text :: "user_status \<Rightarrow> string" where
  "status_text s = (case s of Active \<Rightarrow> ''active'' | Pending_Approval \<Rightarrow> ''pending'')"

text \<open>\<^verbatim>\<open>DELETE FROM actors WHERE id = $1\<close> with the foreign keys of the migrations: refused while the actor
  has clips, cascading to the rows it owns, clearing the references that may be null.\<close>

definition delete_actor :: "int \<Rightarrow> unit stmt" where
  "delete_actor i = (\<lambda>t d.
     if list_ex (\<lambda>c. cl_actor_id c = i) (clips d) then Inl foreign_key_violation
     else let owned = (\<lambda>u. list_ex (\<lambda>x. us_id x = u \<and> us_actor_id x = i) (users d)) in
     Inr ((), d\<lparr>actors := delete_where (\<lambda>a. ac_id a = i) (actors d),
       users := delete_where (\<lambda>u. us_actor_id u = i) (users d),
       sessions := delete_where (\<lambda>s. owned (se_user_id s)) (sessions d),
       email_tokens := delete_where (\<lambda>e. owned (et_user_id e)) (email_tokens d),
       comments := delete_where (\<lambda>c. cm_actor_id c = i) (comments d),
       likes := delete_where (\<lambda>r. re_actor_id r = i) (likes d),
       announces := delete_where (\<lambda>r. re_actor_id r = i) (announces d),
       follows := delete_where (\<lambda>f. fo_follower_actor_id f = i \<or> fo_target_actor_id f = i) (follows d),
       bookmarks := delete_where (\<lambda>b. bk_actor_id b = i) (bookmarks d),
       notifications := delete_where (\<lambda>n. nt_actor_id n = i \<or> nt_source_actor_id n = i) (notifications d),
       sounds := update_where (\<lambda>s. sn_author_actor_id s = Some i) (\<lambda>s. s\<lparr>sn_author_actor_id := None\<rparr>) (sounds d),
       reports := update_where (\<lambda>r. rp_reporter_actor_id r = Some i) (\<lambda>r. r\<lparr>rp_reporter_actor_id := None\<rparr>) (reports d),
       audit_log := update_where (\<lambda>a. au_admin_actor_id a = Some i) (\<lambda>a. a\<lparr>au_admin_actor_id := None\<rparr>) (audit_log d)\<rparr>))"

definition username_taken :: "string \<Rightarrow> response" where
  "username_taken username = problem 409 ''username taken'' (''username @'' @ username @ '' is already taken'')"

definition email_taken :: response where
  "email_taken = problem 409 ''email taken'' ''an account with this email already exists''"

text \<open>The user row of a fresh actor; if it is refused the actor goes again.\<close>

definition register_user ::
  "'y server_env_scheme \<Rightarrow> register_request \<Rightarrow> string \<Rightarrow> user_status \<Rightarrow> string \<Rightarrow> actor \<Rightarrow>
     'z web_world_scheme \<Rightarrow> response \<times> 'z web_world_scheme" where
  "register_user env body mode status password_hash actor w =
     (let email = opt_filter (\<lambda>e. e \<noteq> []) (map_option trim (rr_email body)) in
      case exec (user_create_with_status (ac_id actor) email password_hash status) w of
        (Inl e, w) \<Rightarrow>
          (let w = snd (exec (delete_actor (ac_id actor)) w)
           in (if is_unique_violation e then email_taken else db_problem env e, w))
      | (Inr user, w) \<Rightarrow>
          let w = (if mode = ''open'' then case us_email user of
                       Some email \<Rightarrow> issue_email_token env (us_id user) email Verify w | None \<Rightarrow> w
                   else w)
          in (reply 201 (JObj [(''actor_id'', JInt (ac_id actor)), (''username'', JStr (rr_username body)),
                (''status'', JStr (status_text status))]), w))"

definition register_actor ::
  "'y server_env_scheme \<Rightarrow> register_request \<Rightarrow> string \<Rightarrow> user_status \<Rightarrow> string \<Rightarrow> string \<times> string \<Rightarrow>
     'z web_world_scheme \<Rightarrow> response \<times> 'z web_world_scheme" where
  "register_actor env body mode status password_hash keys w =
     (let ap_id = sv_base_url env @ ''/users/'' @ rr_username body;
          shared_inbox = sv_base_url env @ ''/ap/inbox'' in
      case exec (actor_create (rr_username body) None Person (fst keys) (Some (snd keys)) (ap_id @ ''/inbox'')
             (Some shared_inbox) (ap_id @ ''/outbox'') (ap_id @ ''/followers'') ap_id) w of
        (Inl e, w) \<Rightarrow> (if is_unique_violation e then username_taken (rr_username body) else db_problem env e, w)
      | (Inr actor, w) \<Rightarrow> register_user env body mode status password_hash actor w)"

definition register :: "'y server_env_scheme \<Rightarrow> register_request \<Rightarrow> 'z web_world_scheme \<Rightarrow> response \<times> 'z web_world_scheme" where
  "register env body w = with_pool env w (\<lambda>w.
     case validate_register body of
       Inl resp \<Rightarrow> (resp, w)
     | Inr _ \<Rightarrow> or_500 env (registration_mode w) (\<lambda>mode w.
         case registration_status mode of
           Inl resp \<Rightarrow> (resp, w)
         | Inr status \<Rightarrow> (case hash_password env (rr_password body) w of
             (Inl e, w) \<Rightarrow> (problem 500 ''password hashing failed'' e, w)
           | (Inr password_hash, w) \<Rightarrow> (case generate_actor_keypair env w of
               (Inl e, w) \<Rightarrow> (problem 500 ''key generation failed'' e, w)
             | (Inr keys, w) \<Rightarrow> register_actor env body mode status password_hash keys w))))"

section \<open>Login and logout\<close>

record login_request =
  lr_username_or_email :: string
  lr_password :: string

definition invalid_credentials :: response where
  "invalid_credentials = problem 401 ''invalid credentials'' ''invalid username or password''"

definition find_user_for_login :: "string \<Rightarrow> 'z pool_scheme \<Rightarrow> (db_error + user option) \<times> 'z pool_scheme" where
  "find_user_for_login login w = try_then (exec (actor_fetch_by_username_local login) w) (\<lambda>found w. case found of
       Some actor \<Rightarrow> exec (user_fetch_by_actor_id (ac_id actor)) w
     | None \<Rightarrow> exec (user_fetch_by_email login) w)"

definition forwarded_ip :: "(string \<times> string) list \<Rightarrow> string option" where
  "forwarded_ip headers = opt_filter (\<lambda>s. s \<noteq> [])
     (map_option (\<lambda>s. trim (hd (split_on (CHR '','') s))) (header_str ''x-forwarded-for'' headers))"

definition open_session ::
  "'y server_env_scheme \<Rightarrow> (string \<times> string) list \<Rightarrow> user \<Rightarrow> actor \<Rightarrow> 'z web_world_scheme \<Rightarrow> response \<times> 'z web_world_scheme" where
  "open_session env headers user actor w =
     (case random_urlsafe_token env w of (token, w) \<Rightarrow>
      case random_urlsafe_token env w of (csrf_token, w) \<Rightarrow>
        let expires_at = now w + seconds session_lifetime_secs in
        or_500 env (exec (session_create (sv_hash_token env token) (us_id user) expires_at (forwarded_ip headers)
              (header_str ''user-agent'' headers) csrf_token) w) (\<lambda>row w.
          ((reply 200 (JObj [(''actor_id'', JInt (ac_id actor)), (''username'', JStr (ac_username actor)),
              (''status'', JStr (status_text (us_status user))), (''csrf_token'', JStr csrf_token)]))
             \<lparr>rs_set_cookie := Some (session_cookie token (sv_behind_tls env))\<rparr>, w)))"

definition login_actor ::
  "'y server_env_scheme \<Rightarrow> (string \<times> string) list \<Rightarrow> user \<Rightarrow> 'z web_world_scheme \<Rightarrow> response \<times> 'z web_world_scheme" where
  "login_actor env headers user w =
     or_500 env (exec (actor_fetch_by_id (us_actor_id user)) w) (\<lambda>found w. case found of
       None \<Rightarrow> (invalid_credentials, w)
     | Some actor \<Rightarrow>
         if ac_deleted_at actor \<noteq> None then (invalid_credentials, w)
         else if ac_suspended_at actor \<noteq> None
         then (problem 403 ''account suspended'' ''this account has been suspended'', w)
         else open_session env headers user actor w)"

definition login ::
  "'y server_env_scheme \<Rightarrow> (string \<times> string) list \<Rightarrow> login_request \<Rightarrow> 'z web_world_scheme \<Rightarrow> response \<times> 'z web_world_scheme" where
  "login env headers body w = with_pool env w (\<lambda>w.
     or_500 env (find_user_for_login (lr_username_or_email body) w) (\<lambda>found w. case found of
       None \<Rightarrow> (invalid_credentials, w)
     | Some user \<Rightarrow>
         if us_deleted_at user \<noteq> None then (invalid_credentials, w)
         else if us_status user \<noteq> Active
         then (problem 403 ''account pending approval'' ''this account is still awaiting admin approval'', w)
         else (case us_password_hash user of
           None \<Rightarrow> (invalid_credentials, w)
         | Some stored_hash \<Rightarrow>
             if \<not> sv_verify_password env (lr_password body) stored_hash then (invalid_credentials, w)
             else login_actor env headers user w)))"

definition logout :: "'y server_env_scheme \<Rightarrow> auth_user \<Rightarrow> 'z web_world_scheme \<Rightarrow> response \<times> 'z web_world_scheme" where
  "logout env auth w = with_pool env w (\<lambda>w.
     or_500 env (exec (session_delete_by_id (se_id (au_session auth))) w) (\<lambda>done_row w.
       ((reply 204 JNull)\<lparr>rs_set_cookie := Some clear_cookie\<rparr>, w)))"

section \<open>Password reset and e-mail verification\<close>

definition request_reset :: "'y server_env_scheme \<Rightarrow> string \<Rightarrow> 'z web_world_scheme \<Rightarrow> response \<times> 'z web_world_scheme" where
  "request_reset env email w = with_pool env w (\<lambda>w.
     let email = trim email in
     if \<not> is_valid_email email then (invalid_email, w)
     else (reply 202 (JObj []), case exec (user_fetch_by_email email) w of
       (Inr (Some user), w) \<Rightarrow>
         if us_deleted_at user = None \<and> us_status user = Active
         then (case us_email user of
           Some email \<Rightarrow> issue_email_token env (us_id user) email Password_Reset w
         | None \<Rightarrow> w)
         else w
     | (_, w) \<Rightarrow> w))"

definition reset :: "'y server_env_scheme \<Rightarrow> string \<Rightarrow> string \<Rightarrow> 'z web_world_scheme \<Rightarrow> response \<times> 'z web_world_scheme" where
  "reset env token new_password w = with_pool env w (\<lambda>w.
     if length new_password < 10 then (weak_password, w)
     else or_500 env (email_token_consume (sv_hash_token env token) Password_Reset w) (\<lambda>found w. case found of
       None \<Rightarrow> (problem 400 ''invalid token'' ''reset token is invalid, expired, or already used'', w)
     | Some user \<Rightarrow> (case hash_password env new_password w of
         (Inl e, w) \<Rightarrow> (problem 500 ''password hashing failed'' e, w)
       | (Inr new_hash, w) \<Rightarrow>
           or_500 env (exec (user_set_password (us_id user) new_hash) w) (\<lambda>row w.
           or_500 env (exec (email_token_invalidate_for_user (us_id user) Password_Reset) w) (\<lambda>done_row w.
           or_500 env (exec (session_delete_for_user (us_id user)) w) (\<lambda>done_row w.
             (reply 204 JNull, w)))))))"

definition verify_email :: "'y server_env_scheme \<Rightarrow> string \<Rightarrow> 'z web_world_scheme \<Rightarrow> response \<times> 'z web_world_scheme" where
  "verify_email env token w = with_pool env w (\<lambda>w.
     or_500 env (email_token_consume (sv_hash_token env token) Verify w) (\<lambda>found w. case found of
       None \<Rightarrow> (problem 400 ''invalid token'' ''verification token is invalid, expired, or already used'', w)
     | Some user \<Rightarrow> or_500 env (exec (user_set_email_verified (us_id user)) w) (\<lambda>row w.
         (reply 204 JNull, w))))"

section \<open>Answers\<close>

lemma response_status [simp]:
  "rs_status (reply n b) = n" "rs_status (problem n t x) = n" "rs_status unavailable = 503"
  "rs_status (db_problem env e) = 500" "rs_status invalid_username = 400" "rs_status weak_password = 400"
  "rs_status invalid_email = 400" "rs_status (username_taken u) = 409" "rs_status email_taken = 409"
  "rs_status invalid_credentials = 401" "rs_status (r\<lparr>rs_set_cookie := c\<rparr>) = rs_status r"
  by (simp_all add: reply_def problem_def unavailable_def db_problem_def invalid_username_def weak_password_def
      invalid_email_def username_taken_def email_taken_def invalid_credentials_def)

lemma or_500_cases:
  assumes "\<And>e q. r = (Inl e, q) \<Longrightarrow> P (db_problem env e, q)" and "\<And>a q. r = (Inr a, q) \<Longrightarrow> P (k a q)"
  shows "P (or_500 env r k)"
  using assms by (cases r; cases "fst r") (auto simp: or_500_def)

text \<open>An answer other than 500 means that the statement succeeded.\<close>

lemma or_500_okE:
  assumes "or_500 env r k = (resp, w')" and "rs_status resp \<noteq> 500"
  obtains a w1 where "r = (Inr a, w1)" and "k a w1 = (resp, w')"
  using assms by (cases r; cases "fst r") (auto simp: or_500_def)

lemma with_pool_okE:
  assumes "with_pool env w k = (resp, w')" and "rs_status resp \<noteq> 503"
  shows "sv_has_pool env \<and> k w = (resp, w')"
  using assms by (auto simp: with_pool_def split: if_splits)

lemma validation_answers: "validate_register body = Inl resp \<Longrightarrow> rs_status resp = 400"
  by (auto simp: validate_register_def Let_def split: if_splits option.splits)

lemma mode_answers: "registration_status mode = Inl resp \<Longrightarrow> rs_status resp = 403 \<or> rs_status resp = 500"
  by (auto simp: registration_status_def split: if_splits)

section \<open>What the account handlers keep\<close>

text \<open>
  An invariant of the tables that the statements of the account handlers keep is kept by the handlers,
  whatever they answer and wherever the connection fails.
\<close>

locale account_invariant =
  fixes I :: "db \<Rightarrow> bool"
  assumes keeps_actor_create: "keeps I (actor_create un None ty pub priv inbox shared outbox followers ap_id)"
    and keeps_user_create: "keeps I (user_create_with_status i email h st)"
    and keeps_delete_actor: "keeps I (delete_actor i)"
    and keeps_session_create: "keeps I (session_create s i t ip ua csrf)"
    and keeps_session_delete: "keeps I (session_delete_by_id s)"
    and keeps_sessions_delete: "keeps I (session_delete_for_user i)"
    and keeps_token_create: "keeps I (email_token_create i kind s t)"
    and keeps_consume: "keeps I (consume_stmt s kind)"
    and keeps_invalidate: "keeps I (email_token_invalidate_for_user i kind)"
    and keeps_set_password: "keeps I (user_set_password i h)"
    and keeps_verified: "keeps I (user_set_email_verified i)"
begin

lemmas account_stmts = keeps_actor_create keeps_user_create keeps_delete_actor keeps_session_create
  keeps_session_delete keeps_sessions_delete keeps_token_create keeps_invalidate keeps_set_password keeps_verified

lemmas stmts_kept = account_stmts [THEN keeps_exec]

lemma reads_kept: "I (db w) \<Longrightarrow> I (db (snd (exec (select f) w)))"
  by simp

lemma select_stmts_kept:
  "I (db w) \<Longrightarrow> I (db (snd (exec (user_fetch_by_id i) w)))"
  "I (db w) \<Longrightarrow> I (db (snd (exec (user_fetch_by_actor_id i) w)))"
  "I (db w) \<Longrightarrow> I (db (snd (exec (user_fetch_by_email e) w)))"
  "I (db w) \<Longrightarrow> I (db (snd (exec (actor_fetch_by_id i) w)))"
  "I (db w) \<Longrightarrow> I (db (snd (exec (actor_fetch_by_username_local n) w)))"
  "I (db w) \<Longrightarrow> I (db (snd (exec (setting_fetch_by_key k) w)))"
  by (simp_all add: user_fetch_by_id_def user_fetch_by_actor_id_def user_fetch_by_email_def user_by_def
      actor_fetch_by_id_def actor_fetch_by_username_local_def actor_by_def setting_fetch_by_key_def)

lemma then_kept:
  assumes "I (db (snd r))" and "\<And>a q. I (db q) \<Longrightarrow> I (db (snd (k a q)))"
  shows "I (db (snd (try_then r k)))"
  using assms by (rule try_then_keeps)

lemma or_500_kept:
  assumes "I (db (snd r))" and "\<And>a q. I (db q) \<Longrightarrow> I (db (snd (k a q)))"
  shows "I (db (snd (or_500 env r k)))"
  using assms by (cases r; cases "fst r") (auto simp: or_500_def)

lemma result_kept:
  assumes "I (db (snd r))" and "\<And>e q. I (db q) \<Longrightarrow> I (db (g e q))" and "\<And>a q. I (db q) \<Longrightarrow> I (db (h a q))"
  shows "I (db (case r of (Inl e, q) \<Rightarrow> g e q | (Inr a, q) \<Rightarrow> h a q))"
  using assms by (cases r; cases "fst r") auto

lemma answer_kept:
  assumes "I (db (snd r))" and "\<And>e q. I (db q) \<Longrightarrow> I (db (snd (g e q)))" and "\<And>a q. I (db q) \<Longrightarrow> I (db (snd (h a q)))"
  shows "I (db (snd (case r of (Inl e, q) \<Rightarrow> g e q | (Inr a, q) \<Rightarrow> h a q)))"
  using assms by (cases r; cases "fst r") auto

lemma issue_kept: "I (db w) \<Longrightarrow> I (db (issue_email_token env u e kind w))"
  by (auto simp: issue_email_token_def random_urlsafe_token_def send_mail_def Let_def intro!: result_kept stmts_kept)

lemma consume_kept: "I (db w) \<Longrightarrow> I (db (snd (email_token_consume h kind w)))"
  by (auto simp: email_token_consume_def intro!: then_kept keeps_exec [OF keeps_consume] select_stmts_kept split: option.split)

lemma register_user_kept: "I (db w) \<Longrightarrow> I (db (snd (register_user env body mode st h actor w)))"
  unfolding register_user_def Let_def
  by (rule answer_kept) (auto intro!: stmts_kept issue_kept split: option.split)

lemma register_actor_kept: "I (db w) \<Longrightarrow> I (db (snd (register_actor env body mode st h keys w)))"
  unfolding register_actor_def Let_def
  by (rule answer_kept) (auto intro!: stmts_kept register_user_kept)

theorem register_kept: "I (db w) \<Longrightarrow> I (db (snd (register env body w)))"
  unfolding register_def with_pool_def registration_mode_def hash_password_def generate_actor_keypair_def
  by (auto intro!: or_500_kept then_kept select_stmts_kept register_actor_kept split: sum.split)

lemma open_session_kept: "I (db w) \<Longrightarrow> I (db (snd (open_session env hs u a w)))"
  by (auto simp: open_session_def random_urlsafe_token_def Let_def intro!: or_500_kept stmts_kept)

theorem login_kept: "I (db w) \<Longrightarrow> I (db (snd (login env hs body w)))"
  unfolding login_def with_pool_def find_user_for_login_def login_actor_def
  by (auto intro!: or_500_kept then_kept select_stmts_kept open_session_kept split: option.split)

theorem logout_kept: "I (db w) \<Longrightarrow> I (db (snd (logout env auth w)))"
  by (auto simp: logout_def with_pool_def intro!: or_500_kept stmts_kept)

theorem request_reset_kept: "I (db w) \<Longrightarrow> I (db (snd (request_reset env email w)))"
  unfolding request_reset_def with_pool_def Let_def
  by (auto intro!: result_kept select_stmts_kept issue_kept split: option.split)

theorem reset_kept: "I (db w) \<Longrightarrow> I (db (snd (reset env token pw w)))"
  unfolding reset_def with_pool_def hash_password_def
  by (auto intro!: or_500_kept consume_kept stmts_kept split: option.split sum.split)

theorem verify_email_kept: "I (db w) \<Longrightarrow> I (db (snd (verify_email env token w)))"
  unfolding verify_email_def with_pool_def
  by (auto intro!: or_500_kept consume_kept stmts_kept split: option.split)

end

section \<open>Well-formed account tables\<close>

text \<open>
  The account tables are well formed: the unique keys hold, ids are distinct and were drawn from the
  sequence, and every user, session and e-mail token refers to an existing row.
\<close>

definition account_keys_ok :: "db \<Rightarrow> bool" where
  "account_keys_ok d \<longleftrightarrow> actors_unique (actors d) \<and> users_unique (users d) \<and>
     unique_on (\<lambda>s. Some (se_id s)) (sessions d) \<and> unique_on (\<lambda>e. Some (et_token_hash e)) (email_tokens d)"

definition account_refs_ok :: "db \<Rightarrow> bool" where
  "account_refs_ok d \<longleftrightarrow> list_all (\<lambda>u. us_actor_id u \<in> set (map ac_id (actors d))) (users d) \<and>
     list_all (\<lambda>s. se_user_id s \<in> set (map us_id (users d))) (sessions d) \<and>
     list_all (\<lambda>e. et_user_id e \<in> set (map us_id (users d))) (email_tokens d)"

definition account_ids_ok :: "db \<Rightarrow> bool" where
  "account_ids_ok d \<longleftrightarrow> distinct (map ac_id (actors d)) \<and> distinct (map us_id (users d)) \<and>
     list_all (\<lambda>a. ac_id a < next_id d) (actors d) \<and> list_all (\<lambda>u. us_id u < next_id d) (users d)"

definition accounts_ok :: "db \<Rightarrow> bool" where
  "accounts_ok d \<longleftrightarrow> account_keys_ok d \<and> account_refs_ok d \<and> account_ids_ok d"

lemmas account_defs = accounts_ok_def account_keys_ok_def account_refs_ok_def account_ids_ok_def

lemma has_user_iff: "has_user i d \<longleftrightarrow> i \<in> set (map us_id (users d))"
  and has_actor_iff: "has_actor i d \<longleftrightarrow> i \<in> set (map ac_id (actors d))"
  by (auto simp: has_user_def has_actor_def list_ex_iff)

lemma list_all_weaken: "list_all P xs \<Longrightarrow> (\<And>x. P x \<Longrightarrow> Q x) \<Longrightarrow> list_all Q xs"
  by (auto simp: list_all_iff)

lemma list_all_update_every [simp]:
  "(\<And>x. P (f x) = P x) \<Longrightarrow> list_all P (update_where Q f xs) = list_all P xs"
  by (rule list_all_update_where)

lemma image_update_where: "(\<And>r. P r \<Longrightarrow> g (f r) = g r) \<Longrightarrow> g ` set (update_where P f rs) = g ` set rs"
  using map_update_where [of P g f rs] by (metis list.set_map)

lemma keeps_accounts_actor_create:
  "keeps accounts_ok (actor_create un None ty pub priv inbox shared outbox followers ap_id)"
  by (rule keepsI)
     (auto simp: account_defs actor_create_def insert_actor_def put_actors_def list_all_iff new_actor_def
       split: if_splits)

lemma keeps_accounts_user_create: "keeps accounts_ok (user_create_with_status i email h st)"
  by (rule keepsI)
     (auto simp: account_defs user_create_with_status_def insert_user_def put_users_def list_all_iff Let_def
       has_actor_iff split: if_splits)

lemma keeps_accounts_session_create: "keeps accounts_ok (session_create s i t ip ua csrf)"
  by (rule keepsI)
     (auto simp: account_defs session_create_def Let_def list_all_iff list_ex_iff has_user_iff unique_on_snoc
       split: if_splits)

lemma keeps_accounts_token_create: "keeps accounts_ok (email_token_create i kind s t)"
  by (rule keepsI)
     (auto simp: account_defs email_token_create_def Let_def list_all_iff list_ex_iff has_user_iff unique_on_snoc
       split: if_splits)

lemma keeps_accounts_session_delete:
  "keeps accounts_ok (session_delete_by_id s)" "keeps accounts_ok (session_delete_for_user i)"
  by (auto intro!: keepsI simp: account_defs session_delete_by_id_def session_delete_for_user_def list_all_iff
      delete_where_def unique_on_filter)

lemma keeps_accounts_tokens:
  "keeps accounts_ok (consume_stmt s kind)" "keeps accounts_ok (email_token_invalidate_for_user i kind)"
  by (auto intro!: keepsI simp: account_defs consume_stmt_def email_token_invalidate_for_user_def Let_def
      unique_on_update_where)

lemma keeps_accounts_update_user:
  assumes "\<And>t u. us_id (f t u) = us_id u" and "\<And>t u. us_actor_id (f t u) = us_actor_id u"
  shows "keeps accounts_ok (update_user i f)"
  by (rule keepsI)
     (auto simp: account_defs update_user_def put_users_def map_update_where assms list_all_iff
       mem_update_where image_update_where split: if_splits)

lemma keeps_accounts_delete_actor: "keeps accounts_ok (delete_actor i)"
proof (rule keepsI)
  fix t d a d'
  assume ok: "accounts_ok d" and "delete_actor i t d = Inr (a, d')"
  then have d': "actors d' = filter (\<lambda>a. ac_id a \<noteq> i) (actors d)" "users d' = filter (\<lambda>u. us_actor_id u \<noteq> i) (users d)"
    "sessions d' = filter (\<lambda>s. \<not> list_ex (\<lambda>x. us_id x = se_user_id s \<and> us_actor_id x = i) (users d)) (sessions d)"
    "email_tokens d' = filter (\<lambda>e. \<not> list_ex (\<lambda>x. us_id x = et_user_id e \<and> us_actor_id x = i) (users d)) (email_tokens d)"
    "next_id d' = next_id d"
    by (auto simp: delete_actor_def Let_def delete_where_def split: if_splits)
  have "account_keys_ok d'" using ok
    by (simp add: account_defs d' actors_unique_def users_unique_def unique_on_filter)
  moreover have "account_ids_ok d'" using ok
    by (auto simp: account_defs d' list_all_iff distinct_map_filter)
  moreover have "account_refs_ok d'" using ok
    by (auto simp: account_defs d' list_all_iff list_ex_iff image_iff) metis+
  ultimately show "accounts_ok d'" by (simp add: accounts_ok_def)
qed

interpretation accounts: account_invariant accounts_ok
  by unfold_locales
     (auto intro: keeps_accounts_actor_create keeps_accounts_user_create keeps_accounts_delete_actor
       keeps_accounts_session_create keeps_accounts_session_delete keeps_accounts_token_create keeps_accounts_tokens
       keeps_accounts_update_user simp: user_set_password_def user_set_email_verified_def)

section \<open>Sequences of requests\<close>

datatype account_request =
    Register register_request
  | Login "(string \<times> string) list" login_request
  | Logout auth_user
  | Request_Reset string
  | Reset string string
  | Verify_Email string

fun serve :: "'y server_env_scheme \<Rightarrow> account_request \<Rightarrow> 'z web_world_scheme \<Rightarrow> response \<times> 'z web_world_scheme" where
  "serve env (Register body) w = register env body w"
| "serve env (Login headers body) w = login env headers body w"
| "serve env (Logout auth) w = logout env auth w"
| "serve env (Request_Reset email) w = request_reset env email w"
| "serve env (Reset token new_password) w = reset env token new_password w"
| "serve env (Verify_Email token) w = verify_email env token w"

fun serve_all :: "'y server_env_scheme \<Rightarrow> account_request list \<Rightarrow> 'z web_world_scheme \<Rightarrow> 'z web_world_scheme" where
  "serve_all env [] w = w"
| "serve_all env (r # rs) w = serve_all env rs (snd (serve env r w))"

lemma serve_keeps_accounts: "accounts_ok (db w) \<Longrightarrow> accounts_ok (db (snd (serve env r w)))"
  by (cases r) (simp_all add: accounts.register_kept accounts.login_kept accounts.logout_kept
    accounts.request_reset_kept accounts.reset_kept accounts.verify_email_kept)


definition demo_signup :: register_request where
  "demo_signup = \<lparr>rr_username = ''carol'', rr_email = None, rr_password = ''0123456789''\<rparr>"

lemma demo_accounts: "accounts_ok (db demo_web_world)"
  by (simp add: account_defs demo_web_world_def demo_inbox_db_def demo_user_def demo_session_def demo_bob_def
      demo_author_def empty_db_def actors_unique_def users_unique_def unique_on_def List.map_filter_simps
      local_username_key_def)


section \<open>Registration is all or nothing\<close>

lemma token_create_frame:
  "exec (email_token_create u kind h t) w = (r, w') \<Longrightarrow> actors (db w') = actors (db w) \<and> users (db w') = users (db w) \<and> link w' = link w"
  by (cases rule: exec_cases [of "email_token_create u kind h t" w])
     (auto simp: email_token_create_def Let_def split: if_splits)

lemma issue_frame [simp]:
  "actors (db (issue_email_token env u e kind w)) = actors (db w)"
  "users (db (issue_email_token env u e kind w)) = users (db w)"
  "link (issue_email_token env u e kind w) = link w"
  by (auto simp: issue_email_token_def random_urlsafe_token_def send_mail_def Let_def dest!: token_create_frame
      split: prod.splits sum.splits)

lemma delete_fresh_actor:
  assumes "link w (ticks w) = Up" and "list_all (\<lambda>c. cl_actor_id c \<noteq> i) (clips (db w))"
    and "list_all (\<lambda>u. us_actor_id u \<noteq> i) (users (db w))"
  shows "actors (db (snd (exec (delete_actor i) w))) = delete_where (\<lambda>a. ac_id a = i) (actors (db w))"
    and "users (db (snd (exec (delete_actor i) w))) = users (db w)"
  using assms by (auto simp: exec_up delete_actor_def list_ex_iff list_all_iff Let_def delete_where_def filter_id_conv)

text \<open>Both rows of the account, or neither.\<close>

definition account_added :: "db \<Rightarrow> db \<Rightarrow> user_status \<Rightarrow> bool" where
  "account_added d d' status \<longleftrightarrow> (\<exists>a u. actors d' = actors d @ [a] \<and> users d' = users d @ [u] \<and>
     ac_domain a = None \<and> us_actor_id u = ac_id a \<and> us_status u = status \<and> us_is_admin u = False)"

definition no_account_added :: "db \<Rightarrow> db \<Rightarrow> bool" where
  "no_account_added d d' \<longleftrightarrow> actors d' = actors d \<and> users d' = users d"

text \<open>No row refers to an actor id that the sequence has not given out.\<close>

definition fresh_ids :: "db \<Rightarrow> bool" where
  "fresh_ids d \<longleftrightarrow> list_all (\<lambda>a. ac_id a < next_id d) (actors d) \<and> list_all (\<lambda>u. us_actor_id u < next_id d) (users d) \<and>
     list_all (\<lambda>c. cl_actor_id c < next_id d) (clips d)"

lemma register_user_outcome:
  assumes "link w = all_up" and "actors (db w) = as @ [actor]"
    and "list_all (\<lambda>a. ac_id a \<noteq> ac_id actor) as" and "list_all (\<lambda>u. us_actor_id u \<noteq> ac_id actor) (users (db w))"
    and "list_all (\<lambda>c. cl_actor_id c \<noteq> ac_id actor) (clips (db w))" and "ac_domain actor = None"
    and "register_user env body mode status h actor w = (resp, w')"
  shows "(rs_status resp = 201 \<and> (\<exists>u. actors (db w') = as @ [actor] \<and> users (db w') = users (db w) @ [u] \<and>
       us_actor_id u = ac_id actor \<and> us_status u = status \<and> us_is_admin u = False)) \<or>
     (rs_status resp \<in> {409, 500} \<and> actors (db w') = as \<and> users (db w') = users (db w))"
proof -
  let ?s = "user_create_with_status (ac_id actor) (opt_filter (\<lambda>e. e \<noteq> []) (map_option trim (rr_email body))) h status"
  show ?thesis
  proof (cases "?s (now w) (db w)")
    case (Inl e)
    let ?w = "w\<lparr>ticks := Suc (ticks w)\<rparr>"
    have "w' = snd (exec (delete_actor (ac_id actor)) ?w)" and "rs_status resp \<in> {409, 500}"
      using assms(1,7) Inl by (auto simp: register_user_def exec_up Let_def split: if_splits)
    then show ?thesis
      using delete_fresh_actor [of ?w "ac_id actor"] assms(1-5) by (simp add: delete_where_def list_all_iff filter_id_conv)
  next
    case (Inr r)
    obtain u d where r: "r = (u, d)" by (cases r)
    then have d: "actors d = actors (db w)" "users d = users (db w) @ [u]" and
        u: "us_actor_id u = ac_id actor" "us_status u = status" "us_is_admin u = False"
      using Inr by (auto simp: user_create_with_status_def insert_user_def put_users_def Let_def split: if_splits)
    have "rs_status resp = 201" and "actors (db w') = actors d" and "users (db w') = users d"
      using assms(1,7) Inr r by (auto simp: register_user_def exec_up Let_def split: if_splits option.splits)
    with d u assms(2) show ?thesis by auto
  qed
qed

lemma register_actor_outcome:
  assumes "link w = all_up" and "fresh_ids (db w)" and "register_actor env body mode status h keys w = (resp, w')"
  shows "(rs_status resp = 201 \<and> account_added (db w) (db w') status) \<or>
     (rs_status resp \<in> {409, 500} \<and> no_account_added (db w) (db w'))"
proof -
  let ?ap = "sv_base_url env @ ''/users/'' @ rr_username body"
  let ?s = "actor_create (rr_username body) None Person (fst keys) (Some (snd keys)) (?ap @ ''/inbox'')
     (Some (sv_base_url env @ ''/ap/inbox'')) (?ap @ ''/outbox'') (?ap @ ''/followers'') ?ap"
  show ?thesis
  proof (cases "?s (now w) (db w)")
    case (Inl e)
    then show ?thesis using assms(1,3)
      by (auto simp: register_actor_def exec_up Let_def no_account_added_def split: if_splits)
  next
    case (Inr r)
    obtain a d where r: "r = (a, d)" by (cases r)
    then have d: "actors d = actors (db w) @ [a]" "users d = users (db w)" "clips d = clips (db w)"
        and a: "ac_id a = next_id (db w)" "ac_domain a = None"
      using Inr by (auto simp: actor_create_def insert_actor_def put_actors_def new_actor_def split: if_splits)
    let ?w = "w\<lparr>ticks := Suc (ticks w), db := d\<rparr>"
    have "register_user env body mode status h a ?w = (resp, w')"
      using assms(1,3) Inr r by (simp add: register_actor_def exec_up Let_def)
    moreover have "list_all (\<lambda>b. ac_id b \<noteq> ac_id a) (actors (db w))"
      "list_all (\<lambda>u. us_actor_id u \<noteq> ac_id a) (users (db ?w))" "list_all (\<lambda>c. cl_actor_id c \<noteq> ac_id a) (clips (db ?w))"
      using assms(2) d a by (auto simp: fresh_ids_def list_all_iff)
    ultimately show ?thesis
      using register_user_outcome [of ?w "actors (db w)" a env body mode status h resp w'] assms(1) d a
      by (auto simp: account_added_def no_account_added_def)
  qed
qed



section \<open>Login opens a session that works\<close>

text \<open>What the browser sends back of a \<^verbatim>\<open>Set-Cookie\<close>: the text before the first semicolon.\<close>

definition cookie_pair :: "string \<Rightarrow> string" where
  "cookie_pair set_cookie = takeWhile (\<lambda>c. c \<noteq> CHR '';'') set_cookie"

lemma cookie_pair_session:
  assumes "list_all base64url token"
  shows "cookie_pair (session_cookie token tls) = session_cookie_name @ CHR ''='' # token"
proof -
  let ?p = "session_cookie_name @ CHR ''='' # token"
  have "\<forall>c \<in> set ?p. c \<noteq> CHR '';''"
    using assms by (auto simp: session_cookie_name_def list_all_iff dest: base64url_plain(2))
  moreover have "session_cookie token tls = ?p @ CHR '';'' # ('' Path=/; HttpOnly; SameSite=Lax; Max-Age='' @
      show_int session_lifetime_secs @ (if tls then ''; Secure'' else []))"
    by (simp add: session_cookie_def)
  ultimately show ?thesis by (simp add: cookie_pair_def takeWhile_append2)
qed

lemma fetch_user_up:
  assumes "link w (ticks w) = Up" and "distinct (map us_id (users (db w)))" and "u \<in> set (users (db w))"
  shows "exec (user_fetch_by_id (us_id u)) w = (Inr (Some u), w\<lparr>ticks := Suc (ticks w)\<rparr>)"
proof -
  have "unique_on (\<lambda>u. Some (us_id u)) (users (db w))"
    using assms(2) by (simp add: unique_on_def map_filter_def comp_def)
  from filter_unique_on [OF this assms(3), of "us_id u"] assms(1) show ?thesis
    by (simp add: exec_up user_fetch_by_id_def user_by_def select_def)
qed

lemma fetch_actor_up:
  assumes "link w (ticks w) = Up" and "distinct (map ac_id (actors (db w)))" and "a \<in> set (actors (db w))"
  shows "exec (actor_fetch_by_id (ac_id a)) w = (Inr (Some a), w\<lparr>ticks := Suc (ticks w)\<rparr>)"
proof -
  have "unique_on (\<lambda>a. Some (ac_id a)) (actors (db w))"
    using assms(2) by (simp add: unique_on_def map_filter_def comp_def)
  from filter_unique_on [OF this assms(3), of "ac_id a"] assms(1) show ?thesis
    by (simp add: exec_up actor_fetch_by_id_def actor_by_def select_def)
qed

text \<open>A live session of a live account lets its holder in.\<close>

lemma live_session_authenticates:
  assumes "link w = all_up" and "sv_has_pool env" and "accounts_ok (db w)"
    and "s \<in> set (sessions (db w))" and "se_id s = sv_hash_token env token" and "clock w (Suc (ticks w)) < se_expires_at s"
    and "u \<in> set (users (db w))" and "us_id u = se_user_id s" and "us_status u = Active" and "us_deleted_at u = None"
    and "a \<in> set (actors (db w))" and "ac_id a = us_actor_id u" and "in_good_standing a"
    and "session_token_from_headers headers = Some token"
  shows "\<exists>w'. from_request_parts env headers w = (Inr \<lparr>au_user = u, au_actor = a, au_session = s\<rparr>, w')"
proof -
  have ids: "unique_on (\<lambda>s. Some (se_id s)) (sessions (db w))" "distinct (map us_id (users (db w)))"
    "distinct (map ac_id (actors (db w)))"
    using assms(3) by (simp_all add: account_defs)
  show ?thesis
    using assms(1,2,5,6,8,9,10,12,13,14) fetch_session_up [OF _ ids(1) assms(4)]
      fetch_user_up [of "w\<lparr>ticks := Suc (ticks w)\<rparr>" u] fetch_actor_up [of "w\<lparr>ticks := Suc (Suc (ticks w))\<rparr>" a]
      ids(2,3) assms(7,11)
    by (simp add: from_request_parts_def admit_user_def admit_actor_def or_reject_def now_def in_good_standing_def)
qed

text \<open>The parts of a login that is answered 200.\<close>

lemma exec_frameD: "exec f w = (r, w') \<Longrightarrow> clock w' = clock w \<and> link w' = link w \<and> ticks w' = Suc (ticks w)"
  using exec_frame [of f w] by simp

lemma fetched_user:
  "exec (user_by P) w = (Inr (Some u), w') \<Longrightarrow> db w' = db w \<and> clock w' = clock w \<and> link w' = link w \<and> u \<in> set (users (db w))"
  using fetch_selected [of P users w u w'] exec_frameD [of "user_by P" w] by (simp add: user_by_def)

lemma find_user_InrD:
  assumes "find_user_for_login name w = (Inr (Some u), w1)"
  shows "db w1 = db w \<and> clock w1 = clock w \<and> link w1 = link w \<and> u \<in> set (users (db w))"
proof -
  obtain found w0 where found: "exec (actor_fetch_by_username_local name) w = (Inr found, w0)"
    and next_step: "(case found of Some actor \<Rightarrow> exec (user_fetch_by_actor_id (ac_id actor)) w0
      | None \<Rightarrow> exec (user_fetch_by_email name) w0) = (Inr (Some u), w1)"
    using assms unfolding find_user_for_login_def
    by (cases "exec (actor_fetch_by_username_local name) w"; cases "fst (exec (actor_fetch_by_username_local name) w)") auto
  have "db w0 = db w"
    using found by (auto simp: actor_fetch_by_username_local_def actor_by_def dest: exec_selectD)
  moreover obtain P where "exec (user_by P) w0 = (Inr (Some u), w1)"
    using next_step by (cases found) (auto simp: user_fetch_by_actor_id_def user_fetch_by_email_def)
  ultimately show ?thesis
    using fetched_user [of P w0 u w1] exec_frameD [OF found] by simp
qed

lemma session_create_InrD:
  "session_create i u t ip ua csrf t0 d = Inr (s, d') \<Longrightarrow> d' = d\<lparr>sessions := sessions d @ [s]\<rparr> \<and>
     se_id s = i \<and> se_user_id s = u \<and> se_expires_at s = t"
  by (auto simp: session_create_def Let_def split: if_splits)

text \<open>The session row a successful \<open>open_session\<close> has written.\<close>

lemma open_session_okD:
  assumes "open_session env headers u a w = (resp, w')" and "rs_status resp = 200"
  shows "\<exists>s. rs_set_cookie resp = Some (session_cookie (sv_random env (ww_draws w)) (sv_behind_tls env)) \<and>
    s \<in> set (sessions (db w')) \<and> se_id s = sv_hash_token env (sv_random env (ww_draws w)) \<and> se_user_id s = us_id u \<and>
    se_expires_at s = now w + seconds session_lifetime_secs \<and>
    users (db w') = users (db w) \<and> actors (db w') = actors (db w) \<and> link w' = link w \<and> clock w' = clock w \<and> ticks w' = Suc (ticks w)"
proof -
  define w1 where "w1 = w\<lparr>ww_draws := Suc (Suc (ww_draws w))\<rparr>"
  define st where "st = session_create (sv_hash_token env (sv_random env (ww_draws w))) (us_id u)
    (now w + seconds session_lifetime_secs) (forwarded_ip headers) (header_str ''user-agent'' headers)
    (sv_random env (Suc (ww_draws w)))"
  obtain row where row: "exec st w1 = (Inr row, w')"
      and cookie: "rs_set_cookie resp = Some (session_cookie (sv_random env (ww_draws w)) (sv_behind_tls env))"
    using assms unfolding open_session_def random_urlsafe_token_def
    by (auto simp: st_def w1_def now_def Let_def elim!: or_500_okE)
  from exec_InrD [OF row] have "st (now w1) (db w1) = Inr (row, db w')" by simp
  from session_create_InrD [OF this [unfolded st_def]] cookie exec_frameD [OF row] show ?thesis
    by (intro exI [of _ row]) (simp add: w1_def)
qed

lemma login_okD:
  assumes "login env headers body w = (resp, w')" and "rs_status resp = 200"
  shows "\<exists>u a w2. sv_has_pool env \<and> u \<in> set (users (db w)) \<and> us_status u = Active \<and> us_deleted_at u = None \<and>
    (\<exists>h. us_password_hash u = Some h \<and> sv_verify_password env (lr_password body) h) \<and>
    a \<in> set (actors (db w)) \<and> ac_id a = us_actor_id u \<and> in_good_standing a \<and>
    db w2 = db w \<and> clock w2 = clock w \<and> link w2 = link w \<and> open_session env headers u a w2 = (resp, w')"
proof -
  obtain u w1 where pool: "sv_has_pool env"
      and u: "find_user_for_login (lr_username_or_email body) w = (Inr (Some u), w1)"
      and live: "us_deleted_at u = None" "us_status u = Active"
      and pw: "\<exists>h. us_password_hash u = Some h \<and> sv_verify_password env (lr_password body) h"
      and rest: "login_actor env headers u w1 = (resp, w')"
    using assms unfolding login_def
    by (auto dest!: with_pool_okE elim!: or_500_okE split: option.splits if_splits)
  obtain a w2 where a: "exec (actor_fetch_by_id (us_actor_id u)) w1 = (Inr (Some a), w2)"
      and good: "in_good_standing a" and op: "open_session env headers u a w2 = (resp, w')"
    using rest assms(2) unfolding login_actor_def
    by (auto simp: in_good_standing_def elim!: or_500_okE split: option.splits if_splits)
  show ?thesis
    using find_user_InrD [OF u] fetch_by(3) [OF a] exec_frameD [OF a] pool live pw good op by auto
qed

text \<open>C30: A login that is answered 200 sets a cookie with which the extractor lets the browser in until the
  session expires, as the account whose password was verified; the session lasts thirty days.\<close>

theorem login_then_authenticated:
  assumes "link w = all_up" and "accounts_ok (db w)" and "\<And>n. list_all base64url (sv_random env n)"
    and "login env headers body w = (resp, w')" and "rs_status resp = 200"
    and "clock w (Suc (ticks w')) < clock w (ticks w' - 1) + seconds session_lifetime_secs"
  shows "\<exists>set_cookie auth w'' h. rs_set_cookie resp = Some set_cookie \<and>
     from_request_parts env [(''cookie'', cookie_pair set_cookie)] w' = (Inr auth, w'') \<and>
     us_password_hash (au_user auth) = Some h \<and> sv_verify_password env (lr_password body) h"
proof -
  obtain u a w2 h where pool: "sv_has_pool env" and u: "u \<in> set (users (db w))" "us_status u = Active" "us_deleted_at u = None"
      and h: "us_password_hash u = Some h" "sv_verify_password env (lr_password body) h"
      and a: "a \<in> set (actors (db w))" "ac_id a = us_actor_id u" "in_good_standing a"
      and w2: "db w2 = db w" "clock w2 = clock w" "link w2 = link w" and op: "open_session env headers u a w2 = (resp, w')"
    using login_okD [OF assms(4,5)] by auto
  obtain s where s: "rs_set_cookie resp = Some (session_cookie (sv_random env (ww_draws w2)) (sv_behind_tls env))"
      "s \<in> set (sessions (db w'))" "se_id s = sv_hash_token env (sv_random env (ww_draws w2))" "se_user_id s = us_id u"
      "se_expires_at s = now w2 + seconds session_lifetime_secs"
      "users (db w') = users (db w2)" "actors (db w') = actors (db w2)" "link w' = link w2" "clock w' = clock w2" "ticks w' = Suc (ticks w2)"
    using open_session_okD [OF op assms(5)] by auto
  have "accounts_ok (db w')"
    using accounts.login_kept [OF assms(2), of env headers body] assms(4) by simp
  moreover have "clock w' (Suc (ticks w')) < se_expires_at s"
    using assms(6) s w2 by (simp add: now_def)
  ultimately show ?thesis
    using live_session_authenticates [of w' env s "sv_random env (ww_draws w2)" u a
        "[(''cookie'', cookie_pair (session_cookie (sv_random env (ww_draws w2)) (sv_behind_tls env)))]"]
      assms(1,3) pool u a w2 s h cookie_round_trip by (auto simp: cookie_pair_session)
qed

definition demo_login_env :: server_env where
  "demo_login_env = demo_server_env\<lparr>sv_random := (\<lambda>_. ''token'')\<rparr>"

definition demo_login :: "response \<times> web_world" where
  "demo_login = login demo_login_env [] \<lparr>lr_username_or_email = ''alice'', lr_password = ''correct horse''\<rparr> demo_web_world"

theorem login_then_authenticated_witness:
  "\<exists>set_cookie auth w''. rs_set_cookie (fst demo_login) = Some set_cookie \<and>
     from_request_parts demo_login_env [(''cookie'', cookie_pair set_cookie)] (snd demo_login) = (Inr auth, w'')"
proof -
  have run: "login demo_login_env [] \<lparr>lr_username_or_email = ''alice'', lr_password = ''correct horse''\<rparr> demo_web_world =
      (fst demo_login, snd demo_login)"
    by (simp add: demo_login_def)
  have ok: "rs_status (fst demo_login) = 200" and at: "ticks (snd demo_login) = 4"
    by (simp_all add: demo_login_def login_def with_pool_def find_user_for_login_def login_actor_def open_session_def
        random_urlsafe_token_def or_500_def exec_up Let_def select_def actor_fetch_by_username_local_def
        user_fetch_by_actor_id_def user_by_def actor_fetch_by_id_def actor_by_def session_create_def has_user_def
        demo_login_env_def demo_server_env_def demo_web_world_def demo_inbox_db_def demo_user_def demo_session_def
        demo_author_def citext_eq_def empty_db_def demo_bob_def)
  have "link demo_web_world = all_up" and "clock demo_web_world = int"
    by (simp_all add: demo_web_world_def)
  then show ?thesis
    using login_then_authenticated [OF _ demo_accounts _ run ok] at
    by (auto simp: demo_login_env_def base64url_def is_ascii_alphanumeric_def code_def session_lifetime_secs_def)
qed

section \<open>Password reset\<close>

lemma consume_stmt_InrD:
  assumes "consume_stmt h kind t d = Inr (Some uid, d')"
  shows "users d' = users d \<and> (\<exists>e. e \<in> set (email_tokens d) \<and> consumable h kind t e \<and> uid = et_user_id e) \<and>
    (\<forall>t' \<ge> t. \<not> list_ex (consumable h kind t') (email_tokens d'))"
proof -
  let ?f = "\<lambda>e. e\<lparr>et_used_at := Some t\<rparr>"
  have d': "d' = d\<lparr>email_tokens := update_where (consumable h kind t) ?f (email_tokens d)\<rparr>"
    using assms by (simp add: consume_stmt_def Let_def)
  have "\<not> consumable h kind t' (if consumable h kind t e then ?f e else e)" if "t \<le> t'" for t' e
    using that by (auto simp: consumable_def)
  then show ?thesis
    using assms
    by (auto simp: d' consume_stmt_def Let_def returning_def list_ex_iff mem_update_where dest!: fetch_optional_Some_mem)
       metis+
qed

lemma consume_okD:
  assumes "email_token_consume h kind w = (Inr (Some u), w')"
  shows "(\<exists>e. e \<in> set (email_tokens (db w)) \<and> consumable h kind (now w) e \<and> us_id u = et_user_id e) \<and>
    u \<in> set (users (db w)) \<and> users (db w') = users (db w) \<and>
    (\<forall>t \<ge> now w. \<not> list_ex (consumable h kind t) (email_tokens (db w')))"
proof -
  obtain uid w1 where c: "exec (consume_stmt h kind) w = (Inr (Some uid), w1)"
      and f: "exec (user_fetch_by_id uid) w1 = (Inr (Some u), w')"
    using assms unfolding email_token_consume_def
    by (cases "exec (consume_stmt h kind) w"; cases "fst (exec (consume_stmt h kind) w)") (auto split: option.splits)
  have "consume_stmt h kind (now w) (db w) = Inr (Some uid, db w1)" using exec_InrD [OF c] by simp
  from consume_stmt_InrD [OF this] fetch_by(2) [OF f] show ?thesis by auto
qed

lemma exec_draws: "exec f w = (r, w') \<Longrightarrow> ww_draws w' = ww_draws w"
  by (cases rule: exec_cases [of f w]) auto

lemma consume_draws: "ww_draws (snd (email_token_consume h kind w)) = ww_draws w"
  unfolding email_token_consume_def
proof (rule try_then_cases [where P = "\<lambda>q. ww_draws q = ww_draws w"])
  fix a q assume q: "exec (consume_stmt h kind) w = (Inr a, q)"
  show "ww_draws (snd (case a of Some uid \<Rightarrow> exec (user_fetch_by_id uid) q | None \<Rightarrow> (Inr None, q))) = ww_draws w"
    using exec_draws [OF q] by (simp add: exec_draws [OF surjective_pairing] split: option.split)
qed (rule exec_draws)

lemma list_all_update_whereI:
  "(\<And>x. Q x \<Longrightarrow> P (f x)) \<Longrightarrow> (\<And>x. \<not> Q x \<Longrightarrow> P x) \<Longrightarrow> list_all P (update_where Q f xs)"
  by (induction xs) auto

lemma set_password_InrD:
  "user_set_password i h t d = Inr (r, d') \<Longrightarrow> users d' = update_where (\<lambda>u. us_id u = i) (\<lambda>u. u\<lparr>us_password_hash := Some h\<rparr>) (users d) \<and>
     email_tokens d' = email_tokens d \<and> sessions d' = sessions d"
  by (auto simp: user_set_password_def update_user_def put_users_def split: if_splits)

lemma invalidate_InrD:
  "email_token_invalidate_for_user i k t d = Inr (r, d') \<Longrightarrow> users d' = users d \<and> sessions d' = sessions d \<and>
     list_all (\<lambda>e. et_user_id e = i \<and> et_kind e = k \<longrightarrow> et_used_at e \<noteq> None) (email_tokens d')"
  by (auto simp: email_token_invalidate_for_user_def intro!: list_all_update_whereI)

lemma sessions_delete_InrD:
  "session_delete_for_user i t d = Inr (r, d') \<Longrightarrow> users d' = users d \<and> email_tokens d' = email_tokens d \<and>
     list_all (\<lambda>s. se_user_id s \<noteq> i) (sessions d')"
  by (auto simp: session_delete_for_user_def delete_where_def list_all_iff)

text \<open>C31: A reset that is answered 204 has spent a live reset token, stored the hash of the new password for the
  owner of that token and for nobody else, and left the owner without a session and without a reset
  token that is still good.\<close>

theorem reset_revokes_everything:
  assumes "reset env token new_password w = (resp, w')" and "rs_status resp = 204"
  shows "\<exists>e h. e \<in> set (email_tokens (db w)) \<and> consumable (sv_hash_token env token) Password_Reset (now w) e \<and>
     sv_hash_password env (ww_draws w) new_password = Inr h \<and>
     users (db w') = update_where (\<lambda>u. us_id u = et_user_id e) (\<lambda>u. u\<lparr>us_password_hash := Some h\<rparr>) (users (db w)) \<and>
     list_all (\<lambda>s. se_user_id s \<noteq> et_user_id e) (sessions (db w')) \<and>
     \<not> list_ex (\<lambda>x. et_user_id x = et_user_id e \<and> et_kind x = Password_Reset \<and> et_used_at x = None) (email_tokens (db w'))"
proof -
  obtain u w1 where c: "email_token_consume (sv_hash_token env token) Password_Reset w = (Inr (Some u), w1)"
      and rest: "(case hash_password env new_password w1 of
         (Inl e, w) \<Rightarrow> (problem 500 ''password hashing failed'' e, w)
       | (Inr new_hash, w) \<Rightarrow>
           or_500 env (exec (user_set_password (us_id u) new_hash) w) (\<lambda>row w.
           or_500 env (exec (email_token_invalidate_for_user (us_id u) Password_Reset) w) (\<lambda>done_row w.
           or_500 env (exec (session_delete_for_user (us_id u)) w) (\<lambda>done_row w.
             (reply 204 JNull, w))))) = (resp, w')"
    using assms unfolding reset_def
    by (auto dest!: with_pool_okE elim!: or_500_okE split: option.splits if_splits)
  have draws: "ww_draws w1 = ww_draws w" using consume_draws [of "sv_hash_token env token" Password_Reset w] c by simp
  obtain h where h: "sv_hash_password env (ww_draws w) new_password = Inr h"
    using rest assms(2) draws by (cases "sv_hash_password env (ww_draws w) new_password") (auto simp: hash_password_def)
  obtain r2 w2 r3 w3 r4 where "exec (user_set_password (us_id u) h) (w1\<lparr>ww_draws := Suc (ww_draws w1)\<rparr>) = (Inr r2, w2)"
      and "exec (email_token_invalidate_for_user (us_id u) Password_Reset) w2 = (Inr r3, w3)"
      and "exec (session_delete_for_user (us_id u)) w3 = (Inr r4, w')"
    using rest assms(2) h draws by (auto simp: hash_password_def elim!: or_500_okE)
  then have "user_set_password (us_id u) h (now w1) (db w1) = Inr (r2, db w2)"
      and "email_token_invalidate_for_user (us_id u) Password_Reset (now w2) (db w2) = Inr (r3, db w3)"
      and "session_delete_for_user (us_id u) (now w3) (db w3) = Inr (r4, db w')"
    by (auto dest!: exec_InrD simp: now_def)
  from set_password_InrD [OF this(1)] invalidate_InrD [OF this(2)] sessions_delete_InrD [OF this(3)] consume_okD [OF c] h
  show ?thesis by (auto simp: list_all_iff list_ex_iff)
qed

text \<open>C33: The answer to a reset request does not depend on the database, on the connection or on the clock: it
  tells nobody which addresses have an account.\<close>

theorem request_reset_reveals_nothing:
  "fst (request_reset env email w1) = fst (request_reset env email w2)"
  by (simp add: request_reset_def with_pool_def Let_def)

definition demo_reset_world :: web_world where
  "demo_reset_world = demo_web_world\<lparr>db := (db demo_web_world)\<lparr>email_tokens :=
     [\<lparr>et_id = 15, et_user_id = 11, et_kind = Password_Reset, et_token_hash = ''#r'', et_expires_at = 500, et_used_at = None,
       et_created_at = 0\<rparr>]\<rparr>\<rparr>"

theorem reset_revokes_everything_witness:
  "list_all (\<lambda>s. se_user_id s \<noteq> 11) (sessions (db (snd (reset demo_server_env ''r'' ''new password'' demo_reset_world))))"
proof -
  have "rs_status (fst (reset demo_server_env ''r'' ''new password'' demo_reset_world)) = 204"
    by (simp add: reset_def with_pool_def or_500_def email_token_consume_def exec_up consume_stmt_def returning_def
        consumable_def user_fetch_by_id_def user_by_def select_def hash_password_def user_set_password_def update_user_def
        put_users_def users_unique_def unique_on_def List.map_filter_simps email_token_invalidate_for_user_def
        session_delete_for_user_def demo_reset_world_def demo_web_world_def demo_server_env_def demo_user_def now_def Let_def)
  from reset_revokes_everything [OF surjective_pairing this] show ?thesis
    by (auto simp: demo_reset_world_def consumable_def)
qed

end
