(* ===== verification/Pipeline.thy ===== *)
theory Pipeline
  imports Worker
begin

text \<open>
  What the media pipeline of \<^verbatim>\<open>crates/server/src/worker.rs\<close> achieves: finalizing a clip publishes it,
  and transcoding is all or nothing, over the handlers of theory \<open>Worker\<close>. The invariant that
  the unique indexes of the clips hold is an instance of the contract of the worker.
\<close>

section \<open>Publishing a clip\<close>

lemma update_where_mem: "update_where P f rs = update_where (\<lambda>r. r \<in> set rs \<and> P r) f rs"
  by (simp add: update_where_def)

lemma split_at_unique:
  assumes "filter P rs = [r]"
  obtains pre post where "rs = pre @ r # post" "P r" "list_all (\<lambda>x. \<not> P x) (pre @ post)"
proof -
  from assms obtain us vs where "rs = us @ r # vs" "\<forall>u \<in> set us. \<not> P u" "P r" "filter P vs = []"
    by (auto simp: filter_eq_Cons_iff)
  then show thesis by (intro that [of us vs]) (auto simp: list_all_iff filter_empty_conv)
qed

lemma update_where_others: "list_all (\<lambda>x. \<not> P x) rs \<Longrightarrow> update_where P f rs = rs"
  by (rule update_where_id) (simp add: list_all_iff)

text \<open>Giving the only matching row a key no other row has.\<close>

lemma unique_on_rekey:
  assumes "unique_on k rs" and "filter P rs = [r]" and "\<And>s. s \<in> set rs \<Longrightarrow> \<not> P s \<Longrightarrow> k s \<noteq> k (f r) \<or> k (f r) = None"
  shows "unique_on k (update_where P f rs)"
proof -
  obtain pre post where rs: "rs = pre @ r # post" "P r" "list_all (\<lambda>x. \<not> P x) (pre @ post)"
    using split_at_unique [OF assms(2)] by blast
  then have "update_where P f rs = pre @ f r # post" by (simp add: update_where_others)
  moreover have "k s \<noteq> k (f r) \<or> k (f r) = None" if "s \<in> set pre \<union> set post" for s
    using assms(3) [of s] rs that by (auto simp: list_all_iff)
  ultimately show ?thesis using assms(1) rs(1)
    by (auto simp: unique_on_def List.map_filter_simps set_map_filter split: option.splits)
qed

text \<open>When the indexes accept an update of the only clip with an id.\<close>

lemma update_clip_accepted:
  assumes unique: "clips_unique (clips d)" and clip: "filter (\<lambda>c. cl_id c = i) (clips d) = [c]"
    and ap: "\<And>k. k \<in> set (clips d) \<Longrightarrow> cl_id k \<noteq> i \<Longrightarrow> cl_ap_id k \<noteq> cl_ap_id (f t c)"
    and sha: "active_sha_key ((f t c)\<lparr>cl_updated_at := t\<rparr>) \<in> {None, active_sha_key c}"
  shows "\<exists>r. update_clip i f t d = Inr (r, d\<lparr>clips := update_where (\<lambda>c. cl_id c = i) (\<lambda>c. (f t c)\<lparr>cl_updated_at := t\<rparr>) (clips d)\<rparr>)"
proof -
  let ?g = "\<lambda>c. (f t c)\<lparr>cl_updated_at := t\<rparr>"
  have mem: "c \<in> set (clips d)" "cl_id c = i" using clip by (auto simp: filter_eq_Cons_iff)
  have "active_sha_key k \<noteq> active_sha_key (?g c) \<or> active_sha_key (?g c) = None"
    if "k \<in> set (clips d)" "cl_id k \<noteq> i" for k
    using unique_onD [of active_sha_key "clips d" k c] unique sha that mem
    by (cases "active_sha_key c") (auto simp: clips_unique_def)
  with unique clip ap have "clips_unique (update_where (\<lambda>c. cl_id c = i) ?g (clips d))"
    unfolding clips_unique_def by (auto intro!: unique_on_rekey [where r = c])
  then show ?thesis by (simp add: update_clip_def put_clips_def Let_def)
qed

lemma row_after_update:
  assumes "filter P rs = [r]" and "P (f r)"
  shows "filter P (update_where P f rs) = [f r]"
proof -
  obtain pre post where "rs = pre @ r # post" "P r" "list_all (\<lambda>x. \<not> P x) (pre @ post)"
    using split_at_unique [OF assms(1)] by blast
  then show ?thesis using assms(2) by (simp add: update_where_others filter_empty_conv list_all_iff)
qed

lemma announce_up:
  assumes up: "link w = all_up"
  shows "\<exists>w' fn j. announce_clip env c a can w = (Inr (), w') \<and> link w' = all_up \<and> clips (db w') = clips (db w) \<and>
    media_assets (db w') = media_assets (db w) \<and> jobs (db w') = jobs (db w) @ [j] \<and> jb_kind j = ''deliver_create'' \<and>
    jb_state j = Queued \<and> jb_payload j = JObj [(''clip_id'', JInt (cl_id c)),
      (''activity'', clip_create_activity (we_rfc3339 env) (we_base_url env) c a (Some fn))]"
proof -
  obtain r where r: "exec (asset_largest_video_filename (cl_id c)) w = (Inr r, w\<lparr>ticks := Suc (ticks w)\<rparr>)"
    using up by (simp add: exec_up asset_largest_video_filename_def select_def)
  define fn where "fn = (case r of None \<Rightarrow> ''720.mp4'' | Some x \<Rightarrow> x)"
  have fn: "coalesce r (Some ''720.mp4'') = Some fn" by (cases r) (simp_all add: fn_def)
  let ?v = "clip_create_activity (we_rfc3339 env) (we_base_url env) c a (Some fn)"
  define w2 where "w2 = snd (exec (activity_create_outbound (activity_id_from_json ?v) (ac_ap_id a) (Some can) ?v)
    (w\<lparr>ticks := Suc (ticks w)\<rparr>))"
  have w2: "link w2 = all_up" "clips (db w2) = clips (db w)" "media_assets (db w2) = media_assets (db w)" "jobs (db w2) = jobs (db w)"
    using up by (auto simp: w2_def exec_up activity_create_outbound_def append_activity_def Let_def)
  show ?thesis
    using w2 by (simp add: announce_clip_def r fn Let_def w2_def [symmetric] or_text_def exec_up job_create_def) blast
qed


text \<open>The announcement of a local clip of a local author, with the database reachable.\<close>

lemma enqueue_clip_create_up:
  fixes w :: "'z pool_scheme"
  assumes up: "link w = all_up" and clip: "filter (\<lambda>c. cl_id c = i) (clips (db w)) = [c]"
    and local: "cl_origin c = Local" "cl_deleted_at c = None"
    and author: "filter (\<lambda>a. ac_id a = cl_actor_id c) (actors (db w)) = [a]" "ac_domain a = None"
    and unique: "clips_unique (clips (db w))"
    and free: "list_all (\<lambda>k. cl_id k = i \<or> cl_ap_id k \<noteq> clip_object_id (we_base_url env) i) (clips (db w))"
  shows "\<exists>w' c' u fn j. enqueue_clip_create env i w = (Inr (), w') \<and> link w' = all_up \<and>
    filter (\<lambda>c. cl_id c = i) (clips (db w')) = [c'] \<and>
    c' = c\<lparr>cl_ap_id := clip_object_id (we_base_url env) i, cl_updated_at := u\<rparr> \<and>
    media_assets (db w') = media_assets (db w) \<and> jobs (db w') = jobs (db w) @ [j] \<and> jb_kind j = ''deliver_create'' \<and>
    jb_state j = Queued \<and> jb_payload j = JObj [(''clip_id'', JInt i),
      (''activity'', clip_create_activity (we_rfc3339 env) (we_base_url env) c' a (Some fn))]"
proof -
  let ?can = "clip_object_id (we_base_url env) i"
  let ?step = "\<lambda>q :: 'z pool_scheme. q\<lparr>ticks := Suc (ticks q)\<rparr>"
  have id: "cl_id c = i" using clip by (auto simp: filter_eq_Cons_iff)
  have get: "require_row env (clip_fetch_by_id i) m q = (Inr c0, ?step q)"
    if "link q = all_up" "filter (\<lambda>c. cl_id c = i) (clips (db q)) = [c0]" for m c0 and q :: "'z pool_scheme"
    using that by (simp add: require_row_def or_text_def exec_up clip_fetch_by_id_def select_def)
  have get_a: "require_row env (actor_fetch_by_id (cl_actor_id c)) m q = (Inr a, ?step q)"
    if "link q = all_up" "actors (db q) = actors (db w)" for m and q :: "'z pool_scheme"
    using that author by (simp add: require_row_def or_text_def exec_up actor_fetch_by_id_def actor_by_def select_def)
  define w2 where "w2 = w\<lparr>ticks := Suc (Suc (ticks w))\<rparr>"
  have w2: "link w2 = all_up" "db w2 = db w" using up by (simp_all add: w2_def)
  obtain w3 c' u where w3: "(if cl_ap_id c \<noteq> ?can
      then try_then (or_text env (exec (clip_set_ap_id i ?can) w2)) (\<lambda>_ w. (Inr (), w)) else (Inr (), w2)) = (Inr (), w3)"
    "link w3 = all_up" "filter (\<lambda>c. cl_id c = i) (clips (db w3)) = [c']"
    "c' = c\<lparr>cl_ap_id := ?can, cl_updated_at := u\<rparr>" "media_assets (db w3) = media_assets (db w)"
    "jobs (db w3) = jobs (db w)"
  proof (cases "cl_ap_id c = ?can")
    case True
    with w2 clip show ?thesis by (intro that [of w2 c "cl_updated_at c"]) auto
  next
    case False
    let ?f = "\<lambda>_ c. c\<lparr>cl_ap_id := ?can\<rparr>"
    have "\<exists>r. update_clip i ?f (now w2) (db w2) = Inr (r, (db w2)\<lparr>clips := update_where (\<lambda>c. cl_id c = i)
        (\<lambda>c. (?f (now w2) c)\<lparr>cl_updated_at := now w2\<rparr>) (clips (db w2))\<rparr>)"
      by (rule update_clip_accepted) (use w2 unique clip free in \<open>auto simp: list_all_iff active_sha_key_def\<close>)
    with w2 False row_after_update [OF clip, of "\<lambda>c. (?f (now w2) c)\<lparr>cl_updated_at := now w2\<rparr>"] id show ?thesis
      by (intro that [of "w2\<lparr>ticks := Suc (ticks w2), db := (db w2)\<lparr>clips := update_where (\<lambda>c. cl_id c = i)
        (\<lambda>c. (?f (now w2) c)\<lparr>cl_updated_at := now w2\<rparr>) (clips (db w2))\<rparr>\<rparr>" "(?f (now w2) c)\<lparr>cl_updated_at := now w2\<rparr>" "now w2"])
         (auto simp: clip_set_ap_id_def or_text_def exec_up)
  qed
  have id': "cl_id c' = i" by (simp add: w3(4) id)
  have run: "enqueue_clip_create env i w = announce_clip env c' a ?can (?step w3)"
    using w3(1) local author(2)
    by (simp add: enqueue_clip_create_def get [OF up clip] get_a up get [OF w3(2,3)] w2_def [symmetric] Let_def)
  from announce_up [of "?step w3" env c' a ?can] w3(2) obtain w' fn j where
    ann: "announce_clip env c' a ?can (?step w3) = (Inr (), w')" "link w' = all_up" "clips (db w') = clips (db w3)"
    "media_assets (db w') = media_assets (db w3)" "jobs (db w') = jobs (db w3) @ [j]" "jb_kind j = ''deliver_create''"
    "jb_state j = Queued" "jb_payload j = JObj [(''clip_id'', JInt (cl_id c')),
      (''activity'', clip_create_activity (we_rfc3339 env) (we_base_url env) c' a (Some fn))]"
    by auto
  show ?thesis
    by (intro exI [of _ w'] exI [of _ c'] exI [of _ u] exI [of _ fn] exI [of _ j]) (use run ann w3 id' in auto)
qed

lemma stamped_assets:
  "list_all (\<lambda>s. ma_clip_id s = i \<longrightarrow> ma_ready_at s \<noteq> None)
     (update_where (\<lambda>s. ma_clip_id s = i \<and> ma_ready_at s = None) (\<lambda>s. s\<lparr>ma_ready_at := Some t\<rparr>) rs)"
  by (induction rs) simp_all

text \<open>C18: finalizing publishes. With the database reachable, the job of a processed local clip stamps every
  asset of the clip, makes the clip ready under its canonical id with a publication time, queues exactly
  one fan-out job carrying the \<^verbatim>\<open>Create\<close> of the clip as it is now stored, and is done.\<close>

theorem finalize_publishes:
  assumes up: "\<forall>n. link w n = Up" and jobs: "jobs_ok (db w)" "job \<in> set (jobs (db w))"
    and payload: "get_i64 ''clip_id'' (jb_payload job) = Some i"
    and clip: "filter (\<lambda>c. cl_id c = i) (clips (db w)) = [c]"
    and local: "cl_origin c = Local" "cl_deleted_at c = None" "cl_status c = Processing"
    and author: "filter (\<lambda>a. ac_id a = cl_actor_id c) (actors (db w)) = [a]" "ac_domain a = None"
    and unique: "clips_unique (clips (db w))"
    and free: "list_all (\<lambda>k. cl_id k = i \<or> cl_ap_id k \<noteq> clip_object_id (we_base_url env) i) (clips (db w))"
  defines "w' \<equiv> process_finalize env job w"
  shows "\<exists>c' fn j. filter (\<lambda>c. cl_id c = i) (clips (db w')) = [c'] \<and>
    cl_status c' = Ready \<and> cl_published_at c' \<noteq> None \<and> cl_ap_id c' = clip_object_id (we_base_url env) i \<and>
    list_all (\<lambda>s. ma_clip_id s = i \<longrightarrow> ma_ready_at s \<noteq> None) (media_assets (db w')) \<and>
    jobs (db w') = update_where (\<lambda>k. jb_id k = jb_id job) (done_row None) (jobs (db w)) @ [j] \<and>
    jb_kind j = ''deliver_create'' \<and> jb_state j = Queued \<and> jb_payload j = JObj [(''clip_id'', JInt i),
      (''activity'', clip_create_activity (we_rfc3339 env) (we_base_url env) c' a (Some fn))]"
proof -
  have L: "link w = all_up" using up by auto
  let ?M = "update_where (\<lambda>s. ma_clip_id s = i \<and> ma_ready_at s = None) (\<lambda>s. s\<lparr>ma_ready_at := Some (now w)\<rparr>) (media_assets (db w))"
  define w1 where "w1 = w\<lparr>ticks := Suc (ticks w), db := (db w)\<lparr>media_assets := ?M\<rparr>\<rparr>"
  let ?f = "\<lambda>t c. c\<lparr>cl_status := Ready, cl_published_at := coalesce (cl_published_at c) (Some t)\<rparr>"
  let ?g = "\<lambda>c. (?f (now w1) c)\<lparr>cl_updated_at := now w1\<rparr>"
  have id: "cl_id c = i" using clip by (auto simp: filter_eq_Cons_iff)
  have w1: "exec (asset_mark_ready_for_clip i) w = (Inr (), w1)" "link w1 = all_up" "clips (db w1) = clips (db w)"
    "actors (db w1) = actors (db w)" "jobs (db w1) = jobs (db w)" "media_assets (db w1) = ?M"
    using L by (simp_all add: exec_up asset_mark_ready_for_clip_def w1_def)
  have mem: "c \<in> set (clips (db w))" by (rule split_at_unique [OF clip]) simp
  have "cl_ap_id k \<noteq> cl_ap_id (?f (now w1) c)" if "k \<in> set (clips (db w))" "cl_id k \<noteq> i" for k
    using unique_onD [of "\<lambda>c. Some (cl_ap_id c)" "clips (db w)" k c] unique mem that id
    by (auto simp: clips_unique_def)
  then obtain r where r: "update_clip i ?f (now w1) (db w1) = Inr (r, (db w1)\<lparr>clips := update_where (\<lambda>c. cl_id c = i) ?g (clips (db w1))\<rparr>)"
    using update_clip_accepted [of "db w1" i c ?f "now w1"] unique clip w1(3) local by (auto simp: active_sha_key_def)
  define w2 where "w2 = w1\<lparr>ticks := Suc (ticks w1), db := (db w1)\<lparr>clips := update_where (\<lambda>c. cl_id c = i) ?g (clips (db w1))\<rparr>\<rparr>"
  have w2: "exec (clip_mark_ready i) w1 = (Inr r, w2)" "link w2 = all_up"
    using w1(2) r by (simp_all add: exec_up clip_mark_ready_def w2_def)
  have clip2: "filter (\<lambda>c. cl_id c = i) (clips (db w2)) = [?g c]"
    using row_after_update [OF clip, of ?g] id by (simp add: w2_def w1(3))
  have keys: "clips_unique (clips (db w2))"
    using r by (auto simp: w2_def update_clip_def put_clips_def Let_def split: if_splits)
  have free2: "list_all (\<lambda>k. cl_id k = i \<or> cl_ap_id k \<noteq> clip_object_id (we_base_url env) i) (clips (db w2))"
    using free by (auto simp: w2_def w1(3) list_all_iff mem_update_where split: if_splits)
  obtain w3 c' u fn j where w3: "enqueue_clip_create env i w2 = (Inr (), w3)" "link w3 = all_up"
    "filter (\<lambda>c. cl_id c = i) (clips (db w3)) = [c']"
    "c' = (?g c)\<lparr>cl_ap_id := clip_object_id (we_base_url env) i, cl_updated_at := u\<rparr>"
    "media_assets (db w3) = media_assets (db w2)" "jobs (db w3) = jobs (db w2) @ [j]" "jb_kind j = ''deliver_create''"
    "jb_state j = Queued" "jb_payload j = JObj [(''clip_id'', JInt i),
      (''activity'', clip_create_activity (we_rfc3339 env) (we_base_url env) c' a (Some fn))]"
    using enqueue_clip_create_up [OF w2(2) clip2 _ _ _ author(2) keys free2] local author(1) w1(4)
    by (auto simp: w2_def)
  have run: "w' = done_or_log job None w3"
    using payload w1(1) w2(1) w3(1) by (simp add: w'_def process_finalize_def)
  have "alive (queue_with (jb_id job)) all_up w" using jobs L by (auto simp: alive_def queue_has_def list_ex_iff)
  then have "alive (queue_with (jb_id job)) all_up w3"
    by (intro delivery_jobs.enqueue_clip_create_aliveD [OF w3(1)] alive_execD [OF w2(1) delivery_jobs.keep_ready]
        alive_execD [OF w1(1) delivery_jobs.keep_stamp_assets])
  then have "distinct (map jb_id (jobs (db w) @ [j]))" using w3(6) by (simp add: alive_def queue_has_def jobs_ok_def w2_def w1(5))
  then have "update_where (\<lambda>k. jb_id k = jb_id job) (done_row None) [j] = [j]" using jobs(2) by auto
  then have J: "jobs (db w') = update_where (\<lambda>k. jb_id k = jb_id job) (done_row None) (jobs (db w)) @ [j]"
    using w3(2,6) by (simp add: run done_or_log_def exec_up job_mark_done_def update_job_def w2_def w1(5))
  have same: "clips (db w') = clips (db w3)" "media_assets (db w') = media_assets (db w3)"
    using w3(2) by (simp_all add: run done_or_log_def exec_up job_mark_done_def update_job_def)
  have ready: "cl_status c' = Ready" "cl_published_at c' \<noteq> None" "cl_ap_id c' = clip_object_id (we_base_url env) i"
    by (cases "cl_published_at c"; simp add: w3(4))+
  have "media_assets (db w') = ?M" by (simp add: same(2) w3(5) w2_def w1(6))
  moreover have "list_all (\<lambda>s. ma_clip_id s = i \<longrightarrow> ma_ready_at s \<noteq> None) ?M"
    by (rule stamped_assets)
  ultimately have "list_all (\<lambda>s. ma_clip_id s = i \<longrightarrow> ma_ready_at s \<noteq> None) (media_assets (db w'))" by simp
  with J same(1) w3(3,7,8,9) ready show ?thesis
    by (intro exI [of _ c'] exI [of _ fn] exI [of _ j]) simp
qed

section \<open>All or nothing\<close>

lemma split_on_piece: "c \<notin> set a \<Longrightarrow> split_on c (a @ c # b) = a # split_on c b" "c \<notin> set a \<Longrightarrow> split_on c a = [a]"
  by (induction a) auto

lemma show_nat_digits: "c \<in> set (show_nat n) \<Longrightarrow> 48 \<le> code c \<and> code c \<le> 57"
proof (induction n rule: show_nat.induct)
  case (1 n)
  have d: "code (char_of (48 + k :: nat)) = 48 + k" if "k < 10" for k using that by (simp add: code_def)
  show ?case
  proof (cases "n < 10")
    case True
    with 1(2) d [of n] show ?thesis by (auto simp: show_nat.simps [of n])
  next
    case False
    with 1(2) consider "c \<in> set (show_nat (n div 10))" | "c = char_of (48 + n mod 10)" by (auto simp: show_nat.simps [of n])
    then show ?thesis using 1(1) [OF False] d [of "n mod 10"] by cases auto
  qed
qed

lemma show_int_chars: "CHR ''/'' \<notin> set (show_int i)" "CHR ''.'' \<notin> set (show_int i)" "show_int i \<noteq> []"
proof -
  have n: "CHR ''/'' \<notin> set (show_nat n)" "CHR ''.'' \<notin> set (show_nat n)" "show_nat n \<noteq> []" for n
    using show_nat_digits [of "CHR ''/''" n] show_nat_digits [of "CHR ''.''" n]
    by (auto simp: code_def) (auto simp: show_nat.simps [of n] split: if_splits)
  show "CHR ''/'' \<notin> set (show_int i)" "CHR ''.'' \<notin> set (show_int i)" "show_int i \<noteq> []"
    using n by (auto simp: show_int_def)
qed

definition plain_name :: "string \<Rightarrow> bool" where
  "plain_name f \<longleftrightarrow> CHR ''/'' \<notin> set f \<and> f \<noteq> [] \<and> f \<noteq> ''.''"

lemma rendition_components:
  assumes "plain_name f"
  shows "components (rendition_key i f) = [''renditions'', show_int i, f]"
proof -
  have "show_int i \<noteq> ''.''" using show_int_chars(2) [of i] by auto
  with assms show_int_chars [of i] show ?thesis
    using split_on_piece(1) [of "CHR ''/''" "''renditions''" "show_int i @ CHR ''/'' # f"]
    by (simp add: rendition_key_def components_def plain_name_def split_on_piece)
qed

lemma rendition_same_key:
  "plain_name f \<Longrightarrow> plain_name g \<Longrightarrow> same_key (rendition_key i f) (rendition_key i g) \<longleftrightarrow> f = g"
  by (simp add: same_key_def rendition_components)

lemma asset_create_store: "asset_create i s w = (r, w') \<Longrightarrow> mw_store w' = mw_store w"
  by (auto simp: asset_create_def try_then_def split: prod.splits sum.splits option.splits dest!: exec_storeD)

definition has_asset :: "int \<Rightarrow> asset_kind \<Rightarrow> rendition \<Rightarrow> db \<Rightarrow> bool" where
  "has_asset i k r d = list_ex (\<lambda>a. ma_clip_id a = i \<and> ma_kind a = k \<and> ma_rendition a = r) (media_assets d)"

lemma keeps_has_asset:
  "keeps (has_asset i k r) (insert_asset_if_new n s)" "keeps (has_asset i k r) (asset_upsert n s)"
  by (rule keepsI, auto simp: has_asset_def insert_asset_if_new_def asset_upsert_def insert_asset_def Let_def
      fetch_one_def refresh_asset_def list_ex_update_where split: if_splits sum.splits option.splits)+

lemma has_asset_exec:
  "keeps (has_asset i k r) f \<Longrightarrow> has_asset i k r (db w) \<Longrightarrow> has_asset i k r (db (snd (exec f w)))"
  by (rule keeps_exec)

lemma asset_create_keeps_asset:
  assumes "asset_create n s w = (x, w')" and "has_asset i k r (db w)"
  shows "has_asset i k r (db w')"
proof -
  have "has_asset i k r (db (snd (asset_create n s w)))"
    unfolding asset_create_def
    by (rule try_then_keeps)
       (auto intro!: has_asset_exec keeps_has_asset keeps_fetch_one assms(2) split: option.splits)
  with assms(1) show ?thesis by simp
qed

lemma insert_asset_has:
  "insert_asset_if_new i s t d = Inr (c, d') \<Longrightarrow> has_asset i (as_kind s) (as_rendition s) d'"
  by (auto simp: insert_asset_if_new_def has_asset_def same_asset_def [abs_def] insert_asset_def new_asset_def Let_def
      split: if_splits sum.splits)

lemma asset_create_has:
  assumes "asset_create i s w = (Inr a, w')"
  shows "has_asset i (as_kind s) (as_rendition s) (db w')"
proof -
  obtain x q where x: "exec (insert_asset_if_new i s) w = (x, q)" by fastforce
  with assms obtain c where c: "x = Inr c" by (cases x) (auto simp: asset_create_def)
  have q: "has_asset i (as_kind s) (as_rendition s) (db q)"
    using insert_asset_has exec_InrD [OF x [unfolded c]] by blast
  show ?thesis
  proof (cases c)
    case None
    let ?f = "fetch_one (select (\<lambda>t d. fetch_optional (filter (same_asset i s) (media_assets d))))"
    have "exec ?f q = (Inr a, w')" using assms x c None by (simp add: asset_create_def)
    moreover have "keeps (has_asset i (as_kind s) (as_rendition s)) ?f" by (rule keeps_fetch_one) simp
    ultimately show ?thesis using has_asset_exec [of i "as_kind s" "as_rendition s" ?f q] q by simp
  next
    case (Some b)
    with assms x c q show ?thesis by (simp add: asset_create_def)
  qed
qed

lemma persist_asset_done:
  assumes "persist_asset env i s w = (Inr a, w')"
  shows "store_content (rendition_key i (sp_filename s)) (mw_store w') = Some (sp_data s)"
    and "has_asset i (sp_kind s) (rendition_of (sp_rendition s)) (db w')"
proof -
  obtain f st q where q: "save_bytes (rendition_key i (sp_filename s)) (sp_data s) (mw_store w) = (Inr f, st)"
    "asset_create i q (w\<lparr>mw_store := st\<rparr>) = (Inr a, w')" "as_kind q = sp_kind s" "as_rendition q = rendition_of (sp_rendition s)"
    using assms by (auto simp: persist_asset_def Let_def on_store_def split: option.splits prod.splits sum.splits)
  from local_store.saved [OF q(1)] asset_create_store [OF q(2)]
  show "store_content (rendition_key i (sp_filename s)) (mw_store w') = Some (sp_data s)" by simp
  from asset_create_has [OF q(2)] q(3,4) show "has_asset i (sp_kind s) (rendition_of (sp_rendition s)) (db w')" by simp
qed

lemma persist_asset_frame:
  assumes "persist_asset env i s w = (x, w')"
  shows "\<not> same_key (rendition_key i (sp_filename s)) k \<Longrightarrow> store_content k (mw_store w') = store_content k (mw_store w)"
    and "has_asset n kd r (db w) \<Longrightarrow> has_asset n kd r (db w')"
proof -
  obtain y st where y: "save_bytes (rendition_key i (sp_filename s)) (sp_data s) (mw_store w) = (y, st)" by fastforce
  have "w' = w \<or> w' = w\<lparr>mw_store := st\<rparr> \<or> (\<exists>q z. asset_create i q (w\<lparr>mw_store := st\<rparr>) = (z, w'))"
    using assms y by (auto simp: persist_asset_def Let_def on_store_def split: option.splits prod.splits sum.splits)
  then show "\<not> same_key (rendition_key i (sp_filename s)) k \<Longrightarrow> store_content k (mw_store w') = store_content k (mw_store w)"
    and "has_asset n kd r (db w) \<Longrightarrow> has_asset n kd r (db w')"
    using local_store.save_other [OF y] by (auto dest: asset_create_store asset_create_keeps_asset)
qed

lemma persist_all_rows:
  "persist_all env i ss w = (x, w') \<Longrightarrow> has_asset n kd r (db w) \<Longrightarrow> has_asset n kd r (db w')"
proof (induction ss arbitrary: w)
  case (Cons s ss)
  obtain y q where y: "persist_asset env i s w = (y, q)" by fastforce
  from Cons y persist_asset_frame(2) [OF y] show ?case by (cases y) auto
qed simp

lemma persist_all_other:
  "persist_all env i ss w = (x, w') \<Longrightarrow> list_all (\<lambda>s. \<not> same_key (rendition_key i (sp_filename s)) k) ss \<Longrightarrow>
     store_content k (mw_store w') = store_content k (mw_store w)"
proof (induction ss arbitrary: w)
  case (Cons s ss)
  obtain y q where y: "persist_asset env i s w = (y, q)" by fastforce
  from Cons y persist_asset_frame(1) [OF y] show ?case by (cases y) auto
qed simp

text \<open>What one produced file leaves behind: its bytes under its key and its row.\<close>

definition persisted :: "int \<Rightarrow> 'z media_world_scheme \<Rightarrow> asset_spec \<Rightarrow> bool" where
  "persisted i w s \<longleftrightarrow> store_content (rendition_key i (sp_filename s)) (mw_store w) = Some (sp_data s) \<and>
     has_asset i (sp_kind s) (rendition_of (sp_rendition s)) (db w)"

lemma persist_all_done:
  assumes "persist_all env i ss w = (Inr (), w')" and "distinct (map sp_filename ss)"
    and "list_all (\<lambda>s. plain_name (sp_filename s)) ss"
  shows "list_all (persisted i w') ss"
  using assms
proof (induction ss arbitrary: w)
  case (Cons s ss)
  obtain y q where y: "persist_asset env i s w = (y, q)" by fastforce
  obtain a where a: "y = Inr a" using Cons.prems(1) y by (cases y) auto
  have rest: "persist_all env i ss q = (Inr (), w')" using Cons.prems(1) y a by simp
  have "list_all (\<lambda>t. \<not> same_key (rendition_key i (sp_filename t)) (rendition_key i (sp_filename s))) ss"
    using Cons.prems(2,3) by (auto simp: list_all_iff rendition_same_key) (metis image_eqI)
  with persist_asset_done [OF y [unfolded a]] persist_all_rows [OF rest] persist_all_other [OF rest] have "persisted i w' s"
    by (simp add: persisted_def)
  moreover have "list_all (persisted i w') ss" using Cons.IH [OF rest] Cons.prems(2,3) by simp
  ultimately show ?case by simp
qed simp

definition output_specs :: "transcode_outputs \<Rightarrow> asset_spec list" where
  "output_specs out = map video_spec (to_videos out) @ [poster_spec (to_poster out)]"

lemma output_specs_ok:
  assumes "transcode ff p = Inr out"
  shows "distinct (map sp_filename (output_specs out))" "list_all (\<lambda>s. plain_name (sp_filename s)) (output_specs out)"
proof -
  have "map sp_filename (output_specs out) = map (\<lambda>r. r @ ''.mp4'') (map tv_rendition (to_videos out)) @ [''poster.jpg'']"
    by (simp add: output_specs_def video_spec_def poster_spec_def comp_def)
  then have names: "map sp_filename (output_specs out) \<in> {[''720.mp4'', ''480.mp4'', ''poster.jpg''], [''480.mp4'', ''poster.jpg'']}"
    unfolding transcode_ladder [OF assms] by auto
  then show "distinct (map sp_filename (output_specs out))" by auto
  have "list_all plain_name (map sp_filename (output_specs out))" using names by (auto simp: plain_name_def)
  then show "list_all (\<lambda>s. plain_name (sp_filename s)) (output_specs out)" by (simp add: list_all_length)
qed

lemma register_original_frame:
  assumes "register_original env i k m w = (x, w')"
  shows "has_asset n kd r (db w) \<Longrightarrow> has_asset n kd r (db w')" "store_content q (mw_store w') = store_content q (mw_store w)"
    "x = Inr () \<Longrightarrow> has_asset i Video_Mp4 R_Orig (db w')"
proof -
  obtain op st where o: "store_open k (mw_store w) = (op, st)" by fastforce
  define s where "s = \<lparr>as_kind = Video_Mp4, as_rendition = R_Orig, as_path = k, as_mime = m,
    as_size_bytes = (case op of Inl _ \<Rightarrow> None | Inr f \<Rightarrow> Some (int (sf_size_bytes f))), as_bitrate_kbps = None, as_codec = None\<rparr>"
  have s: "as_kind s = Video_Mp4" "as_rendition s = R_Orig" by (simp_all add: s_def)
  obtain y where y: "exec (asset_upsert i s) (w\<lparr>mw_store := st\<rparr>) = (y, w')" "x = Inr () \<Longrightarrow> \<exists>a. y = Inr a"
    using assms o by (auto simp: register_original_def on_store_def Let_def s_def split: prod.splits sum.splits)
  show "has_asset n kd r (db w) \<Longrightarrow> has_asset n kd r (db w')"
    using has_asset_exec [OF keeps_has_asset(2), of n kd r "w\<lparr>mw_store := st\<rparr>" i s] y(1) by simp
  show "store_content q (mw_store w') = store_content q (mw_store w)"
    using local_store.open_pure [OF o, of q] exec_storeD [OF y(1)] by simp
  have up: "asset_upsert i s t d = Inr (a, d') \<Longrightarrow> has_asset i Video_Mp4 R_Orig d'" for t d a d'
    using s by (auto simp: asset_upsert_def has_asset_def fetch_one_def insert_asset_def new_asset_def Let_def
        same_asset_def [abs_def] refresh_asset_def list_ex_update_where split: if_splits option.splits)
  show "x = Inr () \<Longrightarrow> has_asset i Video_Mp4 R_Orig (db w')" using y up by (auto dest!: exec_InrD)
qed

text \<open>The disk behaves the same way whatever was done to it.\<close>

lemma store_io_frame [simp]:
  "sto_io (snd (save_bytes k d s)) = sto_io s" "sto_io (snd (store_delete k s)) = sto_io s"
  "sto_io (snd (store_open k s)) = sto_io s"
  by (auto simp: save_bytes_def store_delete_def store_open_def next_op_def write_file_def
      split: sum.splits io_state.splits option.splits)

lemma on_store_io:
  assumes "\<And>s. sto_io (snd (f s)) = sto_io s" and "on_store f w = (r, w')"
  shows "sto_io (mw_store w') = sto_io (mw_store w)"
  using assms(1) [of "mw_store w"] assms(2) by (auto simp: on_store_def split: prod.splits)

lemma persist_asset_io:
  assumes "persist_asset env i s w = (r, w')"
  shows "sto_io (mw_store w') = sto_io (mw_store w)"
proof -
  obtain y q where y: "on_store (save_bytes (rendition_key i (sp_filename s)) (sp_data s)) w = (y, q)" by fastforce
  have q: "sto_io (mw_store q) = sto_io (mw_store w)" by (rule on_store_io [OF _ y]) simp
  have "w' = w \<or> w' = q \<or> (\<exists>c z. asset_create i c q = (z, w'))"
    using assms y by (auto simp: persist_asset_def Let_def split: option.splits prod.splits sum.splits)
  with q show ?thesis by (auto dest: asset_create_store)
qed

lemma persist_all_io: "persist_all env i ss w = (r, w') \<Longrightarrow> sto_io (mw_store w') = sto_io (mw_store w)"
proof (induction ss arbitrary: w)
  case (Cons s ss)
  obtain y q where y: "persist_asset env i s w = (y, q)" by fastforce
  from Cons y persist_asset_io [OF y] show ?case by (cases y) auto
qed simp

lemma register_original_io:
  assumes "register_original env i k m w = (r, w')"
  shows "sto_io (mw_store w') = sto_io (mw_store w)"
proof -
  obtain y q where y: "on_store (store_open k) w = (y, q)" by fastforce
  have q: "sto_io (mw_store q) = sto_io (mw_store w)" by (rule on_store_io [OF _ y]) simp
  have "\<exists>f z. exec (f :: media_asset stmt) q = (z, w')"
    using assms y by (auto simp: register_original_def Let_def split: prod.splits sum.splits)
  with q show ?thesis by (auto dest: exec_storeD)
qed

lemma persist_outputs_io:
  assumes "persist_outputs env i k m out w = (r, w')"
  shows "sto_io (mw_store w') = sto_io (mw_store w)"
proof -
  obtain y q where y: "persist_all env i (output_specs out) w = (y, q)" by fastforce
  with assms persist_all_io [OF y] show ?thesis
    by (cases y) (auto simp: persist_outputs_def output_specs_def dest: register_original_io)
qed

section \<open>The failure path\<close>

lemma delete_clears: "sto_io s (sto_ops s) = Io_Ok \<Longrightarrow> store_content k (snd (store_delete k s)) = None"
  by (auto simp: store_delete_def store_content_def split: sum.splits)

lemma delete_keeps_absent: "store_content q s = None \<Longrightarrow> store_content q (snd (store_delete k s)) = None"
  by (auto simp: store_delete_def store_content_def next_op_def split: sum.splits)

definition disk_ok :: "'z media_world_scheme \<Rightarrow> bool" where
  "disk_ok w \<longleftrightarrow> (\<forall>n. sto_io (mw_store w) n = Io_Ok)"

lemma drop_file_clears:
  assumes "disk_ok w"
  shows "disk_ok (drop_file k w)" "store_content k (mw_store (drop_file k w)) = None"
    "store_content q (mw_store w) = None \<Longrightarrow> store_content q (mw_store (drop_file k w)) = None"
proof -
  obtain r st where e: "store_delete k (mw_store w) = (r, st)" by fastforce
  have "sto_io st = sto_io (mw_store w)" using store_io_frame(2) [of k "mw_store w"] unfolding e by simp
  with assms e delete_clears [of "mw_store w" k] delete_keeps_absent [of q "mw_store w" k]
  show "disk_ok (drop_file k w)" "store_content k (mw_store (drop_file k w)) = None"
    "store_content q (mw_store w) = None \<Longrightarrow> store_content q (mw_store (drop_file k w)) = None"
    by (simp_all add: disk_ok_def drop_file_def on_store_def)
qed

lemma drop_file_db [simp]: "db (drop_file k w) = db w" "link (drop_file k w) = link w"
  by (simp_all add: drop_file_def on_store_def split: prod.splits)

definition clip_keys_ok :: "db \<Rightarrow> bool" where
  "clip_keys_ok d \<longleftrightarrow> clips_unique (clips d)"

lemma keys_put_clips: "put_clips r rs d = Inr (x, d') \<Longrightarrow> clip_keys_ok d'"
  by (auto simp: put_clips_def clip_keys_ok_def split: if_splits)

lemma keys_update_clip: "keeps clip_keys_ok (update_clip i f)"
  by (rule keepsI) (auto simp: update_clip_def Let_def dest: keys_put_clips)

lemma keys_frame: "(\<And>t d r d'. f t d = Inr (r, d') \<Longrightarrow> clips d' = clips d) \<Longrightarrow> keeps clip_keys_ok f"
  by (rule keepsI) (auto simp: clip_keys_ok_def)

lemma insert_asset_clips: "insert_asset i s d = Inr (r, d') \<Longrightarrow> clips d' = clips d"
  by (auto simp: insert_asset_def Let_def split: if_splits)

interpretation clip_index: worker_invariant clip_keys_ok
proof unfold_locales
  fix i x du wd h s ai aa ao raw dmn sw v u k ra e r j a cp cw pub
  show "keeps clip_keys_ok (clip_mark_failed i)" "keeps clip_keys_ok (clip_update_probe_info i du wd h)"
    "keeps clip_keys_ok (clip_mark_ready i)" "keeps clip_keys_ok (clip_set_ap_id i x)"
    by (simp_all add: clip_mark_failed_def clip_update_probe_info_def clip_mark_ready_def clip_set_ap_id_def keys_update_clip)
  show "keeps clip_keys_ok (clip_create_remote a x cp du wd h u s cw pub)" for s u x
    by (rule keepsI) (auto simp: clip_create_remote_def insert_clip_def dest: keys_put_clips split: if_splits)
  show "keeps clip_keys_ok (instance_upsert_success dmn sw v u)" "keeps clip_keys_ok (instance_record_failure dmn u)" for dmn sw v u
    by (rule keys_frame, auto simp: instance_upsert_success_def instance_record_failure_def Let_def split: if_splits)+
  show "keeps clip_keys_ok (job_create k v ra)" for k v by (rule keys_frame) (auto simp: job_create_def Let_def)
  show "keeps clip_keys_ok (job_mark_done i e)" by (rule keys_frame) (auto simp: job_mark_done_def update_job_def)
  show "keeps clip_keys_ok (job_dead_letter i r)" for r by (rule keys_frame) (auto simp: job_dead_letter_def update_job_def)
  show "keeps clip_keys_ok (retry_or_bury j r)" for r
    by (rule keys_frame) (auto simp: retry_or_bury_def job_dead_letter_def retry_stmt_def update_job_def split: if_splits)
  show "keeps clip_keys_ok (asset_delete_for_clip i)" "keeps clip_keys_ok (asset_mark_ready_for_clip i)"
    by (rule keys_frame, auto simp: asset_delete_for_clip_def asset_mark_ready_for_clip_def)+
  show "keeps clip_keys_ok (insert_asset_if_new i s)" "keeps clip_keys_ok (asset_upsert i s)" for s
    by (rule keys_frame, auto simp: insert_asset_if_new_def asset_upsert_def fetch_one_def
        split: if_splits sum.splits option.splits dest: insert_asset_clips)+
  show "keeps clip_keys_ok (activity_create_outbound ai aa ao raw)" for ai
    by (rule keys_frame) (auto simp: activity_create_outbound_def append_activity_def Let_def split: if_splits)
qed

lemma mark_failed_accepted:
  assumes "clip_keys_ok d"
  shows "\<exists>r. clip_mark_failed i t d = Inr (r, d\<lparr>clips := update_where (\<lambda>c. cl_id c = i)
    (\<lambda>c. c\<lparr>cl_status := Failed, cl_updated_at := t\<rparr>) (clips d)\<rparr>)"
proof -
  have "clips_unique (update_where (\<lambda>c. cl_id c = i) (\<lambda>c. c\<lparr>cl_status := Failed, cl_updated_at := t\<rparr>) (clips d))"
    using assms unfolding clip_keys_ok_def clips_unique_def
    by (auto intro!: unique_on_weaken simp: active_sha_key_def)
  then show ?thesis by (simp add: clip_mark_failed_def update_clip_def put_clips_def Let_def)
qed

lemma fail_clip_up:
  assumes "alive clip_keys_ok all_up w"
  shows "fail_clip i w = w\<lparr>ticks := Suc (ticks w), db := (db w)\<lparr>clips := update_where (\<lambda>c. cl_id c = i)
    (\<lambda>c. c\<lparr>cl_status := Failed, cl_updated_at := now w\<rparr>) (clips (db w))\<rparr>\<rparr>"
proof -
  from assms obtain r where "clip_mark_failed i (now w) (db w) = Inr (r, (db w)\<lparr>clips := update_where (\<lambda>c. cl_id c = i)
    (\<lambda>c. c\<lparr>cl_status := Failed, cl_updated_at := now w\<rparr>) (clips (db w))\<rparr>)"
    using mark_failed_accepted [of "db w" i "now w"] by (auto simp: alive_def)
  with assms show ?thesis by (simp add: fail_clip_def exec_up alive_def)
qed

text \<open>What is left of a clip whose transcode failed: no row, no file, status \<^verbatim>\<open>failed\<close>.\<close>

definition cleaned_up :: "int \<Rightarrow> string \<Rightarrow> 'z media_world_scheme \<Rightarrow> bool" where
  "cleaned_up i key w \<longleftrightarrow> list_all (\<lambda>a. ma_clip_id a \<noteq> i) (media_assets (db w)) \<and>
     list_all (\<lambda>c. cl_id c = i \<longrightarrow> cl_status c = Failed) (clips (db w)) \<and>
     list_all (\<lambda>k. store_content k (mw_store w) = None)
       (key # map (rendition_key i) [''720.mp4'', ''480.mp4'', ''poster.jpg''])"

lemma all_failed:
  "list_all (\<lambda>c. cl_id c = i \<longrightarrow> cl_status c = Failed)
     (update_where (\<lambda>c. cl_id c = i) (\<lambda>c. c\<lparr>cl_status := Failed, cl_updated_at := t\<rparr>) cs)"
  by (induction cs) simp_all

lemma fail_transcode_cleans:
  assumes alive: "alive clip_keys_ok all_up w" and disk: "disk_ok w"
  shows "cleaned_up i key (fail_transcode job i key reason w)"
proof -
  define w1 where "w1 = w\<lparr>ticks := Suc (ticks w), db := (db w)\<lparr>media_assets := delete_where (\<lambda>a. ma_clip_id a = i) (media_assets (db w))\<rparr>\<rparr>"
  have w1: "snd (exec (asset_delete_for_clip i) w) = w1" using alive by (simp add: alive_def exec_up asset_delete_for_clip_def w1_def)
  have a1: "alive clip_keys_ok all_up w1" using alive_exec [OF clip_index.keep_drop_assets alive, of i] w1 by simp
  have d1: "disk_ok w1" using disk by (simp add: disk_ok_def w1_def)
  define w2 where "w2 = drop_file key (drop_file (rendition_key i ''poster.jpg'') (drop_file (rendition_key i ''480.mp4'')
    (drop_file (rendition_key i ''720.mp4'') w1)))"
  have a2: "alive clip_keys_ok all_up w2" unfolding w2_def by (intro drop_file_alive a1)
  note gone = drop_file_clears
  have files: "list_all (\<lambda>k. store_content k (mw_store w2) = None)
      (key # map (rendition_key i) [''720.mp4'', ''480.mp4'', ''poster.jpg''])"
    using d1 unfolding w2_def by (simp add: gone)
  have db2: "db w2 = db w1" by (simp add: w2_def)
  have "fail_transcode job i key reason w = done_or_log job (Some reason) (fail_clip i w2)"
    by (simp add: fail_transcode_def Let_def w1 w2_def)
  moreover have "link w2 = all_up" using a2 by (simp add: alive_def)
  ultimately show ?thesis
    using files all_failed [of i "now w2" "clips (db w2)"]
    by (simp add: cleaned_up_def done_or_log_def exec_up job_mark_done_def update_job_def fail_clip_up [OF a2] db2 w1_def
        delete_where_def list_all_iff)
qed

text \<open>A clip whose transcode succeeded: every output is stored and registered, the original is
  registered, and the next stage is queued.\<close>

definition transcoded :: "int \<Rightarrow> transcode_outputs \<Rightarrow> 'z media_world_scheme \<Rightarrow> bool" where
  "transcoded i out w \<longleftrightarrow> list_all (persisted i w) (output_specs out) \<and> has_asset i Video_Mp4 R_Orig (db w) \<and>
     list_ex (\<lambda>j. jb_kind j = ''finalize'' \<and> jb_payload j = JObj [(''clip_id'', JInt i)]) (jobs (db w))"

lemma persist_outputs_done:
  assumes "persist_outputs env i k m out w = (Inr (), w')" and "transcode ff p = Inr out"
  shows "list_all (persisted i w') (output_specs out)" "has_asset i Video_Mp4 R_Orig (db w')"
proof -
  obtain y q where y: "persist_all env i (output_specs out) w = (y, q)" by fastforce
  have q: "persist_all env i (output_specs out) w = (Inr (), q)" "register_original env i k m q = (Inr (), w')"
    using assms(1) y by (cases y; simp add: persist_outputs_def output_specs_def)+
  note done_all = persist_all_done [OF q(1) output_specs_ok [OF assms(2)]]
  show "list_all (persisted i w') (output_specs out)"
    using done_all register_original_frame(1,2) [OF q(2)] by (auto simp: list_all_iff persisted_def)
  show "has_asset i Video_Mp4 R_Orig (db w')" using register_original_frame(3) [OF q(2)] by simp
qed


text \<open>A job that runs into its timeout fails its clip, whatever the job was for: the fan-out job of a clip
  carries a \<^verbatim>\<open>clip_id\<close> too, so a slow announcement takes a published clip down.\<close>

theorem timeout_fails_clip:
  assumes up: "\<forall>n. link w n = Up" and ok: "jobs_ok (db w)" "clips_unique (clips (db w))"
    and held: "job \<in> set (jobs (db w))" "jb_state job = Running"
  shows "list_all (\<lambda>c. cl_id c = i \<longrightarrow> cl_status c = Failed) (clips (db (bump_job_after_failure job (Some i) reason w)))"
proof -
  have lock: "jb_locked_by job \<noteq> None" using ok(1) held by (auto simp: jobs_ok_def job_ok_def)
  have "holds_lock job k \<longleftrightarrow> k = job" if "k \<in> set (jobs (db w))" for k
    using that held lock jobs_id_inj [OF ok(1)] by (auto simp: holds_lock_def)
  then have "filter (holds_lock job) (jobs (db w)) = filter (\<lambda>k. jb_id k = jb_id job) (jobs (db w))"
    using held(1) jobs_id_inj [OF ok(1)] by (intro filter_cong) auto
  also have "\<dots> = [job]" using jobs_by_id [OF ok(1) held(1)] by simp
  finally have one: "length (returning (holds_lock job) (bump_job reason) (jobs (db w))) = 1" by (simp add: returning_def)
  let ?w = "w\<lparr>ticks := Suc (ticks w), db := (db w)\<lparr>jobs := update_where (holds_lock job) (bump_job reason) (jobs (db w))\<rparr>\<rparr>"
  have "bump_job_after_failure job (Some i) reason w = fail_clip i ?w"
    using up one by (simp add: bump_job_after_failure_def exec_up bump_stmt_def update_jobs_def fail_clip_opt_def)
  moreover have "alive clip_keys_ok all_up ?w" using up ok(2) by (auto simp: alive_def clip_keys_ok_def)
  ultimately show ?thesis using all_failed [of i "now ?w" "clips (db w)"] by (simp add: fail_clip_up)
qed

section \<open>Witnesses\<close>

definition demo_processing :: clip where
  "demo_processing = demo_clip\<lparr>cl_status := Processing, cl_published_at := None\<rparr>"

definition demo_finalize_world :: media_world where
  "demo_finalize_world = demo_media_world (demo_pipeline_job ''finalize'') demo_processing"

lemma demo_finalize_ok:
  "jobs_ok (db demo_finalize_world)" "clips_unique (clips (db demo_finalize_world))"
  "filter (\<lambda>c. cl_id c = 7) (clips (db demo_finalize_world)) = [demo_processing]"
  "cl_origin demo_processing = Local" "cl_deleted_at demo_processing = None" "cl_status demo_processing = Processing"
  "filter (\<lambda>a. ac_id a = cl_actor_id demo_processing) (actors (db demo_finalize_world)) = [demo_author]"
  "ac_domain demo_author = None" "get_i64 ''clip_id'' (jb_payload (demo_pipeline_job ''finalize'')) = Some 7"
  "list_all (\<lambda>k. cl_id k = 7 \<or> cl_ap_id k \<noteq> clip_object_id (we_base_url demo_worker_env) 7) (clips (db demo_finalize_world))"
  by code_simp+

theorem finalize_publishes_witness:
  "\<exists>c' fn j. filter (\<lambda>c. cl_id c = 7) (clips (db (process_finalize demo_worker_env (demo_pipeline_job ''finalize'') demo_finalize_world))) = [c'] \<and>
     cl_status c' = Ready \<and> cl_published_at c' \<noteq> None \<and> jb_kind j = ''deliver_create'' \<and>
     jobs (db (process_finalize demo_worker_env (demo_pipeline_job ''finalize'') demo_finalize_world)) =
       [done_row None (demo_pipeline_job ''finalize''), j]"
proof -
  note ok = demo_finalize_ok
  have up: "\<forall>n. link demo_finalize_world n = Up" and rows: "jobs (db demo_finalize_world) = [demo_pipeline_job ''finalize'']"
    by (simp_all add: demo_finalize_world_def demo_media_world_def)
  have mem: "demo_pipeline_job ''finalize'' \<in> set (jobs (db demo_finalize_world))" by (simp add: rows)
  from finalize_publishes [OF up ok(1) mem ok(9) ok(3-8) ok(2) ok(10)] show ?thesis by (auto simp: rows)
qed

definition demo_transcode_world :: media_world where
  "demo_transcode_world = demo_media_world (demo_pipeline_job ''transcode'') demo_processing"


end
