(* ===== verification/Feed_Api.thy ===== *)
theory Feed_Api
  imports Auth Pipeline
begin

text \<open>
  The listing endpoints of \<^verbatim>\<open>crates/server/src/social.rs\<close>: the cursor texts, the feed cards, the
  feeds, tags, sounds and the bookmark list. The properties compare what a client that
  follows \<^verbatim>\<open>next_cursor\<close> sees with the feed itself. Further parameters (record \<open>api_env\<close>): the
  range of the time stamps of \<^verbatim>\<open>chrono\<close>, Unicode lower-casing, the collation of the database, the
  trending score and the generator of UUIDs.
\<close>

record api_env = server_env +
  ap_time_ok :: "int \<Rightarrow> bool"
  ap_to_lowercase :: "string \<Rightarrow> string"
  ap_collate :: "string \<Rightarrow> rat"
  ap_score :: "int \<Rightarrow> int \<Rightarrow> rat"
  ap_uuid :: "nat \<Rightarrow> string"

section \<open>Integers in texts\<close>

definition is_ascii_digit :: "char \<Rightarrow> bool" where
  "is_ascii_digit c \<longleftrightarrow> 48 \<le> code c \<and> code c \<le> 57"

definition digits_value :: "string \<Rightarrow> int" where
  "digits_value s = foldl (\<lambda>n c. n * 10 + int (code c - 48)) 0 s"

text \<open>\<^verbatim>\<open>str::parse::<i64>()\<close>: an optional sign, at least one digit, no overflow.\<close>

definition parse_digits :: "string \<Rightarrow> int option" where
  "parse_digits s = (if s \<noteq> [] \<and> list_all is_ascii_digit s then Some (digits_value s) else None)"

definition parse_i64 :: "string \<Rightarrow> int option" where
  "parse_i64 s = opt_filter (\<lambda>n. - (2 ^ 63) \<le> n \<and> n < 2 ^ 63)
     (case s of
        [] \<Rightarrow> None
      | c # r \<Rightarrow> if c = CHR ''-'' then map_option uminus (parse_digits r)
          else if c = CHR ''+'' then parse_digits r else parse_digits s)"

section \<open>Pages and cursors\<close>

record feed_params =
  fp_cursor :: "string option"
  fp_page :: "64 word option"

text \<open>\<^verbatim>\<open>DateTime::timestamp\<close>: whole seconds, rounded down.\<close>

definition timestamp_secs :: "timestamp \<Rightarrow> int" where
  "timestamp_secs t = t div 1000000"

definition parse_cursor :: "(int \<Rightarrow> bool) \<Rightarrow> string \<Rightarrow> keyset option" where
  "parse_cursor time_ok cursor = (case split_once (CHR ''-'') cursor of
     (secs, Some id_text) \<Rightarrow> (case opt_zip (parse_i64 secs) (parse_i64 id_text) of
         Some (secs, i) \<Rightarrow> if time_ok secs then Some (seconds secs, i) else None
       | None \<Rightarrow> None)
   | (_, None) \<Rightarrow> None)"

definition cursor_text :: "keyset \<Rightarrow> string" where
  "cursor_text k = show_int (timestamp_secs (fst k)) @ ''-'' @ show_int (snd k)"

definition clamp :: "int \<Rightarrow> int \<Rightarrow> int \<Rightarrow> int" where
  "clamp lo hi n = max lo (min hi n)"

text \<open>\<^verbatim>\<open>p as i64\<close> of a 64-bit \<^verbatim>\<open>usize\<close> reinterprets the bits.\<close>

definition page_limit :: "int \<Rightarrow> int \<Rightarrow> feed_params \<Rightarrow> int" where
  "page_limit deflt most params = clamp 1 most (case fp_page params of Some p \<Rightarrow> sint p | None \<Rightarrow> deflt)"

definition feed_limit :: "feed_params \<Rightarrow> int" where
  "feed_limit params = page_limit 20 50 params"

definition invalid_cursor :: response where
  "invalid_cursor = problem 400 ''invalid cursor'' (''cursor must be '' @ [CHR 0x27] @ ''{unix_secs}-{clip_id}'' @ [CHR 0x27])"

definition cursor_keyset :: "(int \<Rightarrow> bool) \<Rightarrow> feed_params \<Rightarrow> response + timestamp option \<times> int option" where
  "cursor_keyset time_ok params = (case fp_cursor params of
     None \<Rightarrow> Inr (None, None)
   | Some c \<Rightarrow> (case parse_cursor time_ok c of
       Some (ts, i) \<Rightarrow> Inr (Some ts, Some i)
     | None \<Rightarrow> Inl invalid_cursor))"

definition next_cursor :: "('r \<Rightarrow> keyset) \<Rightarrow> 'r list \<Rightarrow> int \<Rightarrow> json" where
  "next_cursor k rows limit =
     (if int (length rows) = limit \<and> rows \<noteq> [] then JStr (cursor_text (k (last rows))) else JNull)"

section \<open>Feed cards\<close>

definition opt_json :: "('a \<Rightarrow> json) \<Rightarrow> 'a option \<Rightarrow> json" where
  "opt_json f x = (case x of None \<Rightarrow> JNull | Some a \<Rightarrow> f a)"

text \<open>\<^verbatim>\<open>serde_json\<close> writes a float that is not finite as \<^verbatim>\<open>null\<close>.\<close>

definition json_f64 :: "f64 \<Rightarrow> json" where
  "json_f64 x = (if f64_is_finite x then JReal x else JNull)"

definition asset_url :: "int \<Rightarrow> string \<Rightarrow> string" where
  "asset_url clip_id filename = ''/assets/'' @ show_int clip_id @ ''/'' @ filename"

definition orig_asset :: "int \<Rightarrow> media_asset option stmt" where
  "orig_asset clip_id = select (\<lambda>t d. fetch_optional (filter (\<lambda>a. ma_clip_id a = clip_id \<and> ma_kind a = Video_Mp4 \<and>
     ma_rendition a = R_Orig) (media_assets d)))"

definition poster_path :: "int \<Rightarrow> string option stmt" where
  "poster_path clip_id = select (\<lambda>t d. map_option ma_path (fetch_optional
     (filter (\<lambda>a. ma_clip_id a = clip_id \<and> ma_kind a = Poster) (media_assets d))))"

definition sound_of_clip :: "int \<Rightarrow> (int \<times> string) option stmt" where
  "sound_of_clip clip_id = select (\<lambda>t d. fetch_optional [(sn_id s, sn_title s). c \<leftarrow> clips d, cl_id c = clip_id,
     s \<leftarrow> sounds d, sql_eq (Some (sn_id s)) (cl_sound_id c)])"

definition local_video_url :: "int \<Rightarrow> 'z pool_scheme \<Rightarrow> (db_error + string option) \<times> 'z pool_scheme" where
  "local_video_url clip_id w = try_then (exec (asset_largest_video_filename clip_id) w) (\<lambda>found w. case found of
       Some filename \<Rightarrow> (Inr (Some (asset_url clip_id filename)), w)
     | None \<Rightarrow> try_then (exec (orig_asset clip_id) w) (\<lambda>orig w.
         (Inr (map_option (\<lambda>a. asset_url clip_id (last_segment (ma_path a))) orig), w)))"

definition media_urls :: "feed_clip_row \<Rightarrow> 'z pool_scheme \<Rightarrow> (db_error + string option \<times> string option) \<times> 'z pool_scheme" where
  "media_urls row w = (case fr_remote_media_url row of
     Some remote \<Rightarrow> (Inr (Some remote, None), w)
   | None \<Rightarrow> try_then (local_video_url (fr_id row) w) (\<lambda>video w.
       try_then (exec (poster_path (fr_id row)) w) (\<lambda>poster w.
         (Inr (video, map_option (\<lambda>p. asset_url (fr_id row) (last_segment p)) poster), w))))"

definition feed_card :: "(timestamp \<Rightarrow> string) \<Rightarrow> feed_clip_row \<Rightarrow> string option \<Rightarrow> string option \<Rightarrow> (int \<times> string) option \<Rightarrow> json" where
  "feed_card rfc3339 row video poster sound = JObj [
     (''id'', JInt (fr_id row)), (''ap_id'', JStr (fr_ap_id row)), (''caption_html'', opt_json JStr (fr_caption_html row)),
     (''duration_s'', opt_json json_f64 (fr_duration_s row)), (''width'', opt_json JInt (fr_width row)),
     (''height'', opt_json JInt (fr_height row)), (''like_count'', JInt (fr_like_count row)),
     (''comment_count'', JInt (fr_comment_count row)), (''share_count'', JInt (fr_share_count row)),
     (''created_at'', JStr (rfc3339 (fr_clip_created_at row))),
     (''sound'', opt_json (\<lambda>(i, title). JObj [(''id'', JInt i), (''title'', JStr title)]) sound),
     (''author'', JObj [(''actor_id'', JInt (fr_actor_id row)), (''username'', JStr (fr_username row)),
        (''display_name'', opt_json JStr (fr_display_name row)), (''avatar_path'', opt_json JStr (fr_avatar_path row)),
        (''domain'', opt_json JStr (fr_domain row))]),
     (''asset_url'', opt_json JStr video), (''poster_url'', opt_json JStr poster)]"

text \<open>\<^verbatim>\<open>feed_item\<close>; an error of the sound query counts as no sound.\<close>

definition feed_item :: "'y server_env_scheme \<Rightarrow> feed_clip_row \<Rightarrow> 'z pool_scheme \<Rightarrow> (db_error + json) \<times> 'z pool_scheme" where
  "feed_item env row w = try_then (media_urls row w) (\<lambda>urls w.
     case exec (sound_of_clip (fr_id row)) w of (sound, w) \<Rightarrow>
       (Inr (feed_card (sv_rfc3339 env) row (fst urls) (snd urls) (case sound of Inr s \<Rightarrow> s | Inl e \<Rightarrow> None)), w))"

fun feed_rows_to_values ::
  "'y server_env_scheme \<Rightarrow> feed_clip_row list \<Rightarrow> 'z pool_scheme \<Rightarrow> (response + json list) \<times> 'z pool_scheme" where
  "feed_rows_to_values env [] w = (Inr [], w)"
| "feed_rows_to_values env (row # rows) w = (case feed_item env row w of
     (Inl e, w) \<Rightarrow> (Inl (db_problem env e), w)
   | (Inr item, w) \<Rightarrow> (case feed_rows_to_values env rows w of
       (Inl resp, w) \<Rightarrow> (Inl resp, w) | (Inr items, w) \<Rightarrow> (Inr (item # items), w)))"

definition render_feed ::
  "'y server_env_scheme \<Rightarrow> feed_clip_row list \<Rightarrow> int \<Rightarrow> 'z pool_scheme \<Rightarrow> response \<times> 'z pool_scheme" where
  "render_feed env rows limit w = (case feed_rows_to_values env rows w of
     (Inl resp, w) \<Rightarrow> (resp, w)
   | (Inr items, w) \<Rightarrow> (reply 200 (JObj [(''items'', JArr items), (''next_cursor'', next_cursor feed_key rows limit)]), w))"

section \<open>Feeds\<close>

text \<open>What the paged feed handlers have in common.\<close>

definition feed_handler ::
  "'y api_env_scheme \<Rightarrow> (timestamp option \<Rightarrow> int option \<Rightarrow> int \<Rightarrow> feed_clip_row list stmt) \<Rightarrow> feed_params \<Rightarrow>
     'z pool_scheme \<Rightarrow> response \<times> 'z pool_scheme" where
  "feed_handler env query params w = with_pool env w (\<lambda>w.
     case cursor_keyset (ap_time_ok env) params of
       Inl resp \<Rightarrow> (resp, w)
     | Inr (before_created_at, before_id) \<Rightarrow>
         or_500 env (exec (query before_created_at before_id (feed_limit params)) w) (\<lambda>rows w.
           render_feed env rows (feed_limit params) w))"

definition api_following_feed :: "'y api_env_scheme \<Rightarrow> auth_user \<Rightarrow> feed_params \<Rightarrow> 'z pool_scheme \<Rightarrow> response \<times> 'z pool_scheme" where
  "api_following_feed env auth = feed_handler env (following_feed (ac_id (au_actor auth)))"

definition api_discover_feed :: "'y api_env_scheme \<Rightarrow> auth_user \<Rightarrow> feed_params \<Rightarrow> 'z pool_scheme \<Rightarrow> response \<times> 'z pool_scheme" where
  "api_discover_feed env auth = feed_handler env discover_feed"

definition api_local_feed :: "'y api_env_scheme \<Rightarrow> auth_user \<Rightarrow> feed_params \<Rightarrow> 'z pool_scheme \<Rightarrow> response \<times> 'z pool_scheme" where
  "api_local_feed env auth = feed_handler env local_feed"

definition tag_clips :: "'y api_env_scheme \<Rightarrow> string \<Rightarrow> feed_params \<Rightarrow> 'z pool_scheme \<Rightarrow> response \<times> 'z pool_scheme" where
  "tag_clips env tag = feed_handler env (clips_by_tag (ap_to_lowercase env) tag)"

definition sound_clips :: "'y api_env_scheme \<Rightarrow> int \<Rightarrow> feed_params \<Rightarrow> 'z pool_scheme \<Rightarrow> response \<times> 'z pool_scheme" where
  "sound_clips env i = feed_handler env (clips_for_sound i)"

definition list_bookmarks :: "'y api_env_scheme \<Rightarrow> auth_user \<Rightarrow> feed_params \<Rightarrow> 'z pool_scheme \<Rightarrow> response \<times> 'z pool_scheme" where
  "list_bookmarks env auth = feed_handler env (bookmark_list (ac_id (au_actor auth)))"

definition trending_feed :: "'y api_env_scheme \<Rightarrow> auth_user \<Rightarrow> 'z pool_scheme \<Rightarrow> response \<times> 'z pool_scheme" where
  "trending_feed env auth w = with_pool env w (\<lambda>w.
     or_500 env (exec (trending (ap_score env) 60) w) (\<lambda>rows w. render_feed env rows (int (length rows)) w))"

definition api_trending_tags :: "'y api_env_scheme \<Rightarrow> 'z pool_scheme \<Rightarrow> response \<times> 'z pool_scheme" where
  "api_trending_tags env w = with_pool env w (\<lambda>w.
     or_500 env (exec (trending_tags (ap_collate env) 12) w) (\<lambda>rows w.
       (reply 200 (JObj [(''items'', JArr (map (\<lambda>(tag, uses). JObj [(''tag'', JStr tag), (''uses'', JInt uses)]) rows))]), w)))"

definition sound_detail :: "'y api_env_scheme \<Rightarrow> int \<Rightarrow> 'z pool_scheme \<Rightarrow> response \<times> 'z pool_scheme" where
  "sound_detail env i w = with_pool env w (\<lambda>w. or_500 env (exec (sound_fetch i) w) (\<lambda>found w. case found of
     Some (s, author, clip_count) \<Rightarrow> (reply 200 (JObj [(''id'', JInt (sn_id s)), (''title'', JStr (sn_title s)),
         (''author'', opt_json JStr author), (''clip_count'', JInt clip_count)]), w)
   | None \<Rightarrow> (problem 404 ''sound not found'' (''no sound '' @ show_int i), w)))"

section \<open>Cursors round-trip to the second\<close>

lemma digits_value_snoc: "digits_value (s @ [c]) = digits_value s * 10 + int (code c - 48)"
  by (simp add: digits_value_def)

lemma digits_show_nat: "digits_value (show_nat n) = int n"
proof (induction n rule: show_nat.induct)
  case (1 n)
  have d: "code (char_of (48 + k :: nat)) = 48 + k" if "k < 10" for k using that by (simp add: code_def)
  show ?case
  proof (cases "n < 10")
    case True
    then show ?thesis using d [of n] by (simp add: show_nat.simps [of n] digits_value_def)
  next
    case False
    then have "digits_value (show_nat n) = int (n div 10) * 10 + int (n mod 10)"
      using 1 d [of "n mod 10"] by (simp add: show_nat.simps [of n] digits_value_snoc)
    also have "\<dots> = int n" by presburger
    finally show ?thesis .
  qed
qed

lemma show_nat_nonempty: "show_nat n \<noteq> []"
  by (simp add: show_nat.simps [of n])

lemma parse_digits_show: "parse_digits (show_nat n) = Some (int n)"
proof -
  note show_nat_nonempty [of n]
  moreover have "list_all is_ascii_digit (show_nat n)"
    by (auto simp: list_all_iff is_ascii_digit_def dest: show_nat_digits)
  ultimately show ?thesis by (simp add: parse_digits_def digits_show_nat)
qed

lemma show_nat_head: "show_nat n = c # r \<Longrightarrow> c \<noteq> CHR ''-'' \<and> c \<noteq> CHR ''+''"
  using show_nat_digits [of c n] by (auto simp: code_def)

lemma parse_show_int: "- (2 ^ 63) \<le> n \<Longrightarrow> n < 2 ^ 63 \<Longrightarrow> parse_i64 (show_int n) = Some n"
  using parse_digits_show [of "nat n"] parse_digits_show [of "nat (- n)"] show_nat_head [of "nat n"] show_nat_nonempty [of "nat n"]
  by (auto simp: parse_i64_def show_int_def opt_filter_def split: list.splits)

lemma split_once_first: "c \<notin> set xs \<Longrightarrow> split_once c (xs @ c # ys) = (xs, Some ys)"
  by (induction xs) (auto simp: split_once_def)

definition within_i64 :: "int \<Rightarrow> bool" where
  "within_i64 n \<longleftrightarrow> - (2 ^ 63) \<le> n \<and> n < 2 ^ 63"

lemma cursor_round_trip:
  assumes "0 \<le> fst k" and "time_ok (timestamp_secs (fst k))" and "within_i64 (timestamp_secs (fst k))" and "within_i64 (snd k)"
  shows "parse_cursor time_ok (cursor_text k) = Some (seconds (timestamp_secs (fst k)), snd k)"
proof -
  have "0 \<le> timestamp_secs (fst k)" using assms(1) by (simp add: timestamp_secs_def)
  then have "CHR ''-'' \<notin> set (show_int (timestamp_secs (fst k)))"
    using show_nat_digits [of "CHR ''-''"] by (auto simp: show_int_def code_def)
  then show ?thesis
    using assms(2-4) by (simp add: parse_cursor_def cursor_text_def split_once_first within_i64_def parse_show_int)
qed

text \<open>On whole seconds the cursor is exact; below a second it lies before its row.\<close>

definition whole_second :: "timestamp \<Rightarrow> bool" where
  "whole_second t \<longleftrightarrow> t mod 1000000 = 0"

lemma whole_second_exact: "whole_second t \<Longrightarrow> seconds (timestamp_secs t) = t"
  by (auto simp: whole_second_def timestamp_secs_def)

lemma seconds_below: "seconds (timestamp_secs t) \<le> t"
  by (simp add: timestamp_secs_def)

section \<open>What a client sees\<close>

text \<open>A client asks for the first page, then follows \<^verbatim>\<open>next_cursor\<close> until there is none.\<close>

definition items_of :: "response \<Rightarrow> json list" where
  "items_of resp = (case json_get ''items'' (rs_body resp) of Some (JArr items) \<Rightarrow> items | _ \<Rightarrow> [])"

definition cursor_of :: "response \<Rightarrow> string option" where
  "cursor_of resp = get_str ''next_cursor'' (rs_body resp)"

fun browse ::
  "(feed_params \<Rightarrow> 'z pool_scheme \<Rightarrow> response \<times> 'z pool_scheme) \<Rightarrow> 64 word option \<Rightarrow> nat \<Rightarrow> string option \<Rightarrow> 'z pool_scheme \<Rightarrow> json list" where
  "browse handler page 0 cur w = []"
| "browse handler page (Suc fuel) cur w = (case handler \<lparr>fp_cursor = cur, fp_page = page\<rparr> w of
     (resp, w) \<Rightarrow> items_of resp @
       (case cursor_of resp of None \<Rightarrow> [] | Some c \<Rightarrow> browse handler page fuel (Some c) w))"

text \<open>With the connection up, the cards of a page are the cards of its rows and the tables stay.\<close>

lemma media_urls_up:
  assumes "link w = all_up"
  obtains v p w' where "media_urls row w = (Inr (v, p), w')" and "db w' = db w" and "link w' = all_up"
proof (cases "fr_remote_media_url row")
  case None
  have "\<exists>v w1. local_video_url (fr_id row) w = (Inr v, w1) \<and> db w1 = db w \<and> link w1 = all_up"
    using assms by (auto simp: local_video_url_def exec_up asset_largest_video_filename_def orig_asset_def select_def Let_def
      split: option.splits)
  then show thesis using None that by (auto simp: media_urls_def exec_up poster_path_def select_def)
qed (use that assms in \<open>auto simp: media_urls_def\<close>)

lemma feed_item_up:
  assumes "link w = all_up"
  obtains item w' where "feed_item env row w = (Inr item, w')" and "json_get ''id'' item = Some (JInt (fr_id row))"
    and "db w' = db w" and "link w' = all_up"
proof -
  obtain v p w1 where "media_urls row w = (Inr (v, p), w1)" "db w1 = db w" "link w1 = all_up"
    using media_urls_up [OF assms] .
  then show thesis
    using that by (auto simp: feed_item_def exec_up sound_of_clip_def select_def feed_card_def)
qed

lemma feed_rows_up:
  assumes "link w = all_up"
  shows "\<exists>items w'. feed_rows_to_values env rows w = (Inr items, w') \<and>
    map (json_get ''id'') items = map (\<lambda>r. Some (JInt (fr_id r))) rows \<and> db w' = db w \<and> link w' = all_up"
  using assms
proof (induction rows arbitrary: w)
  case (Cons row rows)
  obtain item w1 where "feed_item env row w = (Inr item, w1)" "json_get ''id'' item = Some (JInt (fr_id row))"
      "db w1 = db w" "link w1 = all_up"
    using feed_item_up [OF Cons.prems] .
  with Cons.IH [of w1] show ?case by fastforce
qed simp

section \<open>Browsing is reading the feed\<close>

text \<open>A key whose cursor text loses nothing.\<close>

definition exact_key :: "(int \<Rightarrow> bool) \<Rightarrow> keyset \<Rightarrow> bool" where
  "exact_key time_ok k \<longleftrightarrow> 0 \<le> fst k \<and> whole_second (fst k) \<and> time_ok (timestamp_secs (fst k)) \<and>
     within_i64 (timestamp_secs (fst k)) \<and> within_i64 (snd k)"

lemma exact_cursor: "exact_key time_ok k \<Longrightarrow> parse_cursor time_ok (cursor_text k) = Some k"
  by (simp add: exact_key_def cursor_round_trip whole_second_exact)

lemma cursor_keyset_exact:
  assumes "\<And>k. cur = Some k \<Longrightarrow> exact_key time_ok k"
  shows "cursor_keyset time_ok \<lparr>fp_cursor = map_option cursor_text cur, fp_page = page\<rparr> =
    Inr (map_option fst cur, map_option snd cur)"
  using assms by (cases cur) (auto simp: cursor_keyset_def exact_cursor)

lemma page_limit_range: "1 \<le> lo \<Longrightarrow> lo \<le> most \<Longrightarrow> 1 \<le> page_limit deflt most p \<and> page_limit deflt most p \<le> most"
  by (auto simp: page_limit_def clamp_def)

lemma feed_limit_range: "1 \<le> feed_limit p" "feed_limit p \<le> 50"
  using page_limit_range [of 1 50 20 p] by (simp_all add: feed_limit_def)

lemma feed_limit_cursor: "feed_limit \<lparr>fp_cursor = c, fp_page = page\<rparr> = feed_limit \<lparr>fp_cursor = None, fp_page = page\<rparr>"
  by (simp add: feed_limit_def page_limit_def)

abbreviation page_size :: "64 word option \<Rightarrow> nat" where
  "page_size page \<equiv> nat (feed_limit \<lparr>fp_cursor = None, fp_page = page\<rparr>)"

definition clip_ids :: "json list \<Rightarrow> json option list" where
  "clip_ids items = map (json_get ''id'') items"

definition row_ids :: "feed_clip_row list \<Rightarrow> json option list" where
  "row_ids rows = map (\<lambda>r. Some (JInt (fr_id r))) rows"

lemma clip_ids_append [simp]: "clip_ids (xs @ ys) = clip_ids xs @ clip_ids ys"
  and row_ids_append [simp]: "row_ids (r @ s) = row_ids r @ row_ids s"
  by (simp_all add: clip_ids_def row_ids_def)

locale feed_endpoint = keyset_feed entries feed_key "rows_of query" well_keyed
  for entries :: "db \<Rightarrow> feed_clip_row list"
    and query :: "timestamp option \<Rightarrow> int option \<Rightarrow> int \<Rightarrow> feed_clip_row list stmt"
    and well_keyed :: "db \<Rightarrow> bool" +
  assumes query_reads: "0 \<le> n \<Longrightarrow> query (map_option fst cur) (map_option snd cur) n t d = Inr (rows_of query d (nat n) cur, d)"
begin

lemma page_rows: "set (rows_of query d n cur) \<subseteq> set (entries d)"
  using set_take_subset [of n "filter (before_cursor feed_key cur) (newest_first feed_key (entries d))"]
  by (auto simp: page_is_prefix)

text \<open>One request answers with the cards of the page and, when the page is full, the key of its last row.\<close>

lemma request_shows_page:
  assumes "link w = all_up" and "sv_has_pool env" and "\<And>k. cur = Some k \<Longrightarrow> exact_key (ap_time_ok env) k"
    and "rows = rows_of query (db w) (page_size page) cur"
  shows "\<exists>resp w'. feed_handler env query \<lparr>fp_cursor = map_option cursor_text cur, fp_page = page\<rparr> w = (resp, w') \<and>
    clip_ids (items_of resp) = row_ids rows \<and>
    cursor_of resp = (if length rows < page_size page then None else Some (cursor_text (feed_key (last rows)))) \<and>
    db w' = db w \<and> link w' = all_up"
proof -
  let ?p = "\<lparr>fp_cursor = map_option cursor_text cur, fp_page = page\<rparr>" and ?w = "w\<lparr>ticks := Suc (ticks w)\<rparr>"
  have limit: "feed_limit ?p = int (page_size page)" "0 < page_size page"
    using feed_limit_range(1) [of "\<lparr>fp_cursor = None, fp_page = page\<rparr>"] by (simp_all add: feed_limit_cursor [of "map_option cursor_text cur"])
  have ran: "exec (query (map_option fst cur) (map_option snd cur) (feed_limit ?p)) w = (Inr rows, ?w)"
    using assms(1,4) limit by (simp add: exec_up query_reads)
  obtain items w' where items: "feed_rows_to_values env rows ?w = (Inr items, w')" "clip_ids items = row_ids rows"
      "db w' = db w" "link w' = all_up"
    using feed_rows_up [of ?w env rows] assms(1) by (auto simp: clip_ids_def row_ids_def)
  have bound: "length rows \<le> page_size page" using assms(4) page_bound by simp
  have "feed_handler env query ?p w = render_feed env rows (int (page_size page)) ?w"
    using assms(2) ran by (simp add: feed_handler_def with_pool_def cursor_keyset_exact [OF assms(3)] or_500_def limit(1) del: of_nat_nat int_nat_eq)
  also have "\<dots> = (reply 200 (JObj [(''items'', JArr items), (''next_cursor'', next_cursor feed_key rows (page_size page))]), w')"
    by (simp add: render_feed_def items(1) del: of_nat_nat int_nat_eq)
  finally show ?thesis
    using items(2-4) bound limit(2)
    by (auto simp: reply_def items_of_def cursor_of_def get_str_def next_cursor_def simp del: of_nat_nat int_nat_eq)
qed

text \<open>The simulation: following cursors in the API is reading on in the table.\<close>

lemma browse_reads:
  assumes "link w = all_up" and "sv_has_pool env" and "\<And>r. r \<in> set (entries (db w)) \<Longrightarrow> exact_key (ap_time_ok env) (feed_key r)"
    and "\<And>k. cur = Some k \<Longrightarrow> exact_key (ap_time_ok env) k"
  shows "clip_ids (browse (feed_handler env query) page fuel (map_option cursor_text cur) w) =
    row_ids (read_on (rows_of query (db w) (page_size page)) feed_key (page_size page) fuel cur)"
  using assms(1,3,4)
proof (induction fuel arbitrary: cur w)
  case (Suc fuel)
  define rows where "rows = rows_of query (db w) (page_size page) cur"
  obtain resp w' where request: "feed_handler env query \<lparr>fp_cursor = map_option cursor_text cur, fp_page = page\<rparr> w = (resp, w')"
      "clip_ids (items_of resp) = row_ids rows"
      "cursor_of resp = (if length rows < page_size page then None else Some (cursor_text (feed_key (last rows))))"
      "db w' = db w" "link w' = all_up"
    using request_shows_page [OF Suc.prems(1) assms(2) Suc.prems(3) rows_def] by blast
  show ?case
  proof (cases "length rows < page_size page")
    case True
    with request show ?thesis by (simp add: rows_def [symmetric] Let_def)
  next
    case False
    then have "rows \<noteq> []"
      using feed_limit_range(1) [of "\<lparr>fp_cursor = None, fp_page = page\<rparr>"] by auto
    then have "last rows \<in> set (entries (db w))"
      using page_rows last_in_set unfolding rows_def by blast
    with Suc.IH [of w' "Some (feed_key (last rows))"] Suc.prems(2) request False show ?thesis
      by (simp add: rows_def [symmetric] Let_def)
  qed
qed (simp add: clip_ids_def row_ids_def)

lemma browse_everything:
  assumes "link w = all_up" and "sv_has_pool env" and "\<And>r. r \<in> set (entries (db w)) \<Longrightarrow> exact_key (ap_time_ok env) (feed_key r)"
    and "well_keyed (db w)" and "length (entries (db w)) < page_size page * fuel"
  shows "clip_ids (browse (feed_handler env query) page fuel None w) = row_ids (newest_first feed_key (entries (db w)))"
proof -
  have "0 < page_size page" using feed_limit_range(1) [of "\<lparr>fp_cursor = None, fp_page = page\<rparr>"] by simp
  with browse_reads [of w env None page fuel] assms reads_everything [of "page_size page" "db w" fuel] show ?thesis by simp
qed

end

lemma keyset_query_reads:
  "0 \<le> n \<Longrightarrow> keyset_page k rows (map_option fst cur) (map_option snd cur) n t d =
     Inr (rows_of (keyset_page k rows) d (nat n) cur, d)"
  by (simp add: keyset_page_rows rows_of_keyset_page)

interpretation discover_api: feed_endpoint discover_rows discover_feed feed_ids_ok
  by unfold_locales (simp add: discover_feed_def feed_page_def keyset_query_reads)

interpretation following_api: feed_endpoint "following_rows v" "following_feed v" feed_ids_ok for v
  by unfold_locales (simp add: following_feed_def feed_page_def keyset_query_reads)

interpretation local_api: feed_endpoint local_rows local_feed feed_ids_ok
  by unfold_locales (simp add: local_feed_def feed_page_local_def keyset_query_reads)

text \<open>C34: a client that asks for the following feed and then follows \<^verbatim>\<open>next_cursor\<close> until there is none sees
  every listed clip of the accounts its user follows, each once, newest first - whatever page size it asks for -
  when the tables have unique ids, the clips were created on whole seconds, and the connection is up. The
  cursor keeps whole seconds only, hence the second condition.\<close>

theorem following_pages_show_the_feed:
  assumes "link w = all_up" and "sv_has_pool env" and "feed_ids_ok (db w)"
    and "\<forall>r \<in> set (following_rows (ac_id (au_actor auth)) (db w)). exact_key (ap_time_ok env) (feed_key r)"
    and "length (following_rows (ac_id (au_actor auth)) (db w)) < page_size page * fuel"
  shows "clip_ids (browse (api_following_feed env auth) page fuel None w) =
    row_ids (newest_first feed_key (following_rows (ac_id (au_actor auth)) (db w)))"
  unfolding api_following_feed_def using assms by (intro following_api.browse_everything) simp_all

definition demo_api_env :: api_env where
  "demo_api_env = \<lparr>sv_base_url = sv_base_url demo_server_env, sv_behind_tls = True, sv_has_pool = True,
     sv_random = sv_random demo_server_env, sv_hash_token = sv_hash_token demo_server_env,
     sv_hash_password = sv_hash_password demo_server_env, sv_verify_password = sv_verify_password demo_server_env,
     sv_keypair = sv_keypair demo_server_env, sv_db_text = sv_db_text demo_server_env,
     sv_store_text = sv_store_text demo_server_env, sv_rfc3339 = show_int,
     ap_time_ok = (\<lambda>n. n < 8000000000), ap_to_lowercase = to_ascii_lowercase,
     ap_collate = (\<lambda>s. rat_of_nat (length s)), ap_score = (\<lambda>e age. rat_of_int e), ap_uuid = show_nat\<rparr>"

definition demo_clip_at :: "int \<Rightarrow> timestamp \<Rightarrow> clip" where
  "demo_clip_at i t = demo_bob_clip\<lparr>cl_id := i, cl_created_at := t\<rparr>"

definition demo_feed_world :: web_world where
  "demo_feed_world = demo_web_world\<lparr>db := demo_inbox_db\<lparr>
     clips := [demo_clip_at 7 (seconds 2), demo_clip_at 8 (seconds 1), demo_clip_at 9 (seconds 2)],
     follows := [new_follow 1 2 None Accepted 0]\<rparr>\<rparr>"

definition demo_auth :: auth_user where
  "demo_auth = \<lparr>au_user = demo_user, au_actor = demo_author, au_session = demo_session\<rparr>"

lemma demo_feed_rows: "following_rows 1 (db demo_feed_world) =
    [feed_row (demo_clip_at 7 (seconds 2)) demo_bob, feed_row (demo_clip_at 8 (seconds 1)) demo_bob,
     feed_row (demo_clip_at 9 (seconds 2)) demo_bob]"
  by (simp add: following_rows_def demo_feed_world_def demo_inbox_db_def demo_clip_at_def demo_bob_clip_def demo_bob_def
      demo_clip_def demo_author_def listed_def live_public_def in_good_standing_def playable_def new_follow_def)

theorem following_pages_show_the_feed_witness:
  "clip_ids (browse (api_following_feed demo_api_env demo_auth) (Some 2) 2 None demo_feed_world) =
    map (\<lambda>i. Some (JInt i)) [9, 7, 8]"
proof -
  have viewer: "ac_id (au_actor demo_auth) = 1" by (simp add: demo_auth_def demo_author_def)
  have size: "page_size (Some 2) = 2" by (simp add: feed_limit_def page_limit_def clamp_def)
  have "clip_ids (browse (api_following_feed demo_api_env demo_auth) (Some 2) 2 None demo_feed_world) =
      row_ids (newest_first feed_key (following_rows (ac_id (au_actor demo_auth)) (db demo_feed_world)))"
  proof (rule following_pages_show_the_feed)
    show "feed_ids_ok (db demo_feed_world)"
      by (simp add: feed_ids_ok_def demo_feed_world_def demo_inbox_db_def demo_clip_at_def demo_author_def demo_bob_def)
    show "\<forall>r \<in> set (following_rows (ac_id (au_actor demo_auth)) (db demo_feed_world)). exact_key (ap_time_ok demo_api_env) (feed_key r)"
      by (simp add: viewer demo_feed_rows exact_key_def feed_key_def feed_row_def demo_clip_at_def whole_second_def
          timestamp_secs_def within_i64_def demo_api_env_def)
    show "length (following_rows (ac_id (au_actor demo_auth)) (db demo_feed_world)) < page_size (Some 2) * 2"
      unfolding size viewer demo_feed_rows by simp
  qed (simp_all add: demo_feed_world_def demo_web_world_def demo_api_env_def)
  then show ?thesis
    by (simp add: viewer demo_feed_rows row_ids_def newest_first_def sort_key_def feed_key_def feed_row_def demo_clip_at_def less_eq_prod_def)
qed

text \<open>The condition on whole seconds is needed: the cursor of a row at a fraction of a second excludes every
  row of that second, whatever its place in the feed.\<close>

lemma cursor_skips_its_second:
  assumes "parse_cursor time_ok (cursor_text (feed_key last_row)) = Some c" and "0 \<le> fst (feed_key last_row)"
    and "within_i64 (timestamp_secs (fst (feed_key last_row)))" and "within_i64 (snd (feed_key last_row))"
    and "time_ok (timestamp_secs (fst (feed_key last_row)))"
    and "timestamp_secs (fst (feed_key r)) = timestamp_secs (fst (feed_key last_row))" and "\<not> whole_second (fst (feed_key r))"
  shows "\<not> before_cursor feed_key (Some c) r"
proof -
  have "c = (seconds (timestamp_secs (fst (feed_key r))), snd (feed_key last_row))"
    using assms(1-6) cursor_round_trip [of "feed_key last_row" time_ok] by simp
  moreover have "seconds (timestamp_secs (fst (feed_key r))) < fst (feed_key r)"
    using seconds_below [of "fst (feed_key r)"] assms(7)
    by (auto simp: whole_second_def order_less_le) (metis mod_mult_self2_is_0)
  ultimately show ?thesis by (simp add: before_cursor_def less_prod_def')
qed

end
