(* ===== verification/Media_Api.thy ===== *)
theory Media_Api
  imports Feed_Api
begin

text \<open>
  Serving media: \<^verbatim>\<open>crates/server/src/assets.rs\<close> (byte ranges and the streamed files) and the clip
  metadata of \<^verbatim>\<open>clips.rs\<close>. Offsets are 64-bit words as in the code. A body is the bytes that are streamed when
  the disk can be read to the end; a read that fails cuts the connection.
\<close>

section \<open>Byte ranges\<close>

record byte_range =
  br_start :: "64 word"
  br_end :: "64 word"

datatype range_spec = Partial byte_range | Full

datatype range_error = Range_Error

text \<open>\<^verbatim>\<open>str::parse::<u64>()\<close>.\<close>

definition parse_u64 :: "string \<Rightarrow> 64 word option" where
  "parse_u64 s = map_option word_of_int (opt_filter (\<lambda>n. n < 2 ^ 64)
     (case s of [] \<Rightarrow> None | c # r \<Rightarrow> if c = CHR ''+'' then parse_digits r else parse_digits s))"

text \<open>One side of the range: nothing at all, or a number that must parse.\<close>

definition parse_bound :: "string \<Rightarrow> range_error + 64 word option" where
  "parse_bound raw = (if raw = [] then Inr None
     else case parse_u64 (trim raw) of None \<Rightarrow> Inl Range_Error | Some n \<Rightarrow> Inr (Some n))"

fun clamp_range :: "64 word option \<Rightarrow> 64 word option \<Rightarrow> 64 word \<Rightarrow> range_error + range_spec" where
  "clamp_range (Some s) (Some e) file_size = (if s > e \<or> s \<ge> file_size then Inl Range_Error
     else Inr (Partial \<lparr>br_start = s, br_end = min e (file_size - 1)\<rparr>))"
| "clamp_range (Some s) None file_size = (if s \<ge> file_size then Inl Range_Error
     else Inr (Partial \<lparr>br_start = s, br_end = file_size - 1\<rparr>))"
| "clamp_range None (Some suffix) file_size = (if suffix = 0 then Inl Range_Error
     else if suffix \<ge> file_size then Inr Full
     else Inr (Partial \<lparr>br_start = file_size - suffix, br_end = file_size - 1\<rparr>))"
| "clamp_range None None file_size = Inl Range_Error"

text \<open>\<open>rest\<close> is what follows \<^verbatim>\<open>bytes=\<close>.\<close>

definition parse_range_rest :: "string \<Rightarrow> 64 word \<Rightarrow> range_error + range_spec" where
  "parse_range_rest rest file_size =
     (if CHR '','' \<in> set rest then Inl Range_Error
      else case split_once (CHR ''-'') rest of
        (_, None) \<Rightarrow> Inl Range_Error
      | (start_raw, Some end_raw) \<Rightarrow> (case parse_bound start_raw of
          Inl e \<Rightarrow> Inl e
        | Inr s \<Rightarrow> (case parse_bound end_raw of Inl e \<Rightarrow> Inl e | Inr e \<Rightarrow> clamp_range s e file_size)))"

definition parse_byte_range :: "string \<Rightarrow> 64 word \<Rightarrow> range_error + range_spec" where
  "parse_byte_range hdr file_size =
     (if file_size = 0 then Inl Range_Error
      else let hdr = trim hdr in
        if length hdr < 6 \<or> to_ascii_lowercase (take 6 hdr) \<noteq> ''bytes='' then Inl Range_Error
        else parse_range_rest (drop 6 hdr) file_size)"

section \<open>Streaming a file\<close>

record media_response =
  mr_status :: nat
  mr_headers :: "(string \<times> string) list"
  mr_body :: string

text \<open>A media answer, or a problem with its extra headers.\<close>

datatype asset_answer = Media media_response | Refused response "(string \<times> string) list"

definition cache_control_immutable :: string where
  "cache_control_immutable = ''public, max-age=31536000, immutable''"

definition show_u64 :: "64 word \<Rightarrow> string" where
  "show_u64 n = show_nat (unat n)"

definition build_response :: "nat \<Rightarrow> string \<Rightarrow> 64 word \<Rightarrow> string option \<Rightarrow> string \<Rightarrow> media_response" where
  "build_response status mime content_length content_range body = \<lparr>mr_status = status,
     mr_headers = [(''content-type'', mime), (''accept-ranges'', ''bytes''), (''cache-control'', cache_control_immutable),
       (''content-length'', show_u64 content_length)] @
       (case content_range of None \<Rightarrow> [] | Some r \<Rightarrow> [(''content-range'', r)]),
     mr_body = body\<rparr>"

definition mime_for_extension :: "string \<Rightarrow> string" where
  "mime_for_extension filename = (let ext = last (split_on (CHR ''.'') filename) in
     if ext = ''jpg'' \<or> ext = ''jpeg'' then ''image/jpeg''
     else if ext = ''mp4'' then ''video/mp4''
     else if ext = ''webm'' then ''video/webm''
     else if ext = ''mov'' then ''video/quicktime''
     else if ext = ''vtt'' then ''text/vtt''
     else ''application/octet-stream'')"

text \<open>\<^verbatim>\<open>File::open\<close>; the position after \<^verbatim>\<open>seek\<close>, whose error is ignored; the bytes taken from there.\<close>

definition open_file :: "string list \<Rightarrow> store \<Rightarrow> string option \<times> store" where
  "open_file path s = ((if sto_io s (sto_ops s) = Io_Ok then map_option fl_data (sto_files s path) else None), next_op s)"

definition seek_to :: "64 word \<Rightarrow> store \<Rightarrow> nat \<times> store" where
  "seek_to start s = (if start > 0 then (if sto_io s (sto_ops s) = Io_Ok then unat start else 0, next_op s) else (0, s))"

definition ranged_body :: "string \<Rightarrow> 64 word \<Rightarrow> 64 word \<Rightarrow> store \<Rightarrow> string \<times> store" where
  "ranged_body data start len s = (case seek_to start s of (pos, s) \<Rightarrow> (take (unat len) (drop pos data), s))"

definition asset_missing :: "string \<Rightarrow> response" where
  "asset_missing detail = problem 404 ''asset not found'' detail"

definition serve_whole :: "string \<Rightarrow> string \<Rightarrow> 64 word \<Rightarrow> store \<Rightarrow> asset_answer \<times> store" where
  "serve_whole mime data file_size s = (case ranged_body data 0 file_size s of
     (body, s) \<Rightarrow> (Media (build_response 200 mime file_size None body), s))"

definition serve_range :: "string \<Rightarrow> string \<Rightarrow> 64 word \<Rightarrow> string \<Rightarrow> store \<Rightarrow> asset_answer \<times> store" where
  "serve_range mime data file_size rng s = (case parse_byte_range rng file_size of
     Inr (Partial r) \<Rightarrow>
       (let len = br_end r - br_start r + 1 in
        case ranged_body data (br_start r) len s of
          (body, s) \<Rightarrow> (Media (build_response 206 mime len
             (Some (''bytes '' @ show_u64 (br_start r) @ ''-'' @ show_u64 (br_end r) @ ''/'' @ show_u64 file_size)) body), s))
   | Inr Full \<Rightarrow> serve_whole mime data file_size s
   | Inl Range_Error \<Rightarrow> (Refused (problem 416 ''range not satisfiable'' (''invalid byte range: '' @ rng))
       [(''content-range'', ''bytes */'' @ show_u64 file_size)], s))"

definition serve_file :: "media_asset \<Rightarrow> string \<Rightarrow> (string \<times> string) list \<Rightarrow> store \<Rightarrow> asset_answer \<times> store" where
  "serve_file asset filename headers s = (case store_open (ma_path asset) s of
     (Inl e, s) \<Rightarrow> (Refused (asset_missing (''stored file for '' @ filename @ '' is missing'')) [], s)
   | (Inr stored, s) \<Rightarrow>
       (let file_size = word_of_nat (sf_size_bytes stored);
            mime = (if ma_mime asset = [] then mime_for_extension filename else ma_mime asset) in
        case open_file (sf_path stored) s of
          (None, s) \<Rightarrow> (Refused (asset_missing (''stored file for '' @ filename @ '' is unreadable'')) [], s)
        | (Some data, s) \<Rightarrow> (case header_str ''range'' headers of
            None \<Rightarrow> serve_whole mime data file_size s
          | Some rng \<Rightarrow> serve_range mime data file_size rng s)))"

definition asset ::
  "'y server_env_scheme \<Rightarrow> int \<Rightarrow> string \<Rightarrow> (string \<times> string) list \<Rightarrow> 'z media_world_scheme \<Rightarrow>
     asset_answer \<times> 'z media_world_scheme" where
  "asset env clip_id filename headers w =
     (if \<not> sv_has_pool env then (Refused unavailable [], w)
      else case exec (asset_find_for_clip_filename clip_id filename) w of
        (Inl e, w) \<Rightarrow> (Refused (db_problem env e) [], w)
      | (Inr None, w) \<Rightarrow> (Refused (asset_missing
            (''no asset named '' @ filename @ '' for clip '' @ show_int clip_id)) [], w)
      | (Inr (Some a), w) \<Rightarrow> on_store (serve_file a filename headers) w)"

section \<open>Clip metadata (\<^verbatim>\<open>clips.rs\<close>)\<close>

definition clip_status_text :: "clip_status \<Rightarrow> string" where
  "clip_status_text s = (case s of Pending \<Rightarrow> ''pending'' | Processing \<Rightarrow> ''processing'' | Ready \<Rightarrow> ''ready''
     | Failed \<Rightarrow> ''failed'' | Deleted \<Rightarrow> ''deleted'')"

definition asset_kind_text :: "asset_kind \<Rightarrow> string" where
  "asset_kind_text k = (case k of Video_Hls \<Rightarrow> ''video_hls'' | Video_Mp4 \<Rightarrow> ''video_mp4'' | Poster \<Rightarrow> ''poster''
     | Preview \<Rightarrow> ''preview'' | Captions \<Rightarrow> ''captions'' | Audio_Kind \<Rightarrow> ''audio'')"

definition rendition_text :: "rendition \<Rightarrow> string" where
  "rendition_text r = (case r of R1080 \<Rightarrow> ''1080'' | R720 \<Rightarrow> ''720'' | R480 \<Rightarrow> ''480'' | R_Audio \<Rightarrow> ''audio'' | R_Orig \<Rightarrow> ''orig'')"

definition asset_entry :: "int \<Rightarrow> media_asset \<Rightarrow> json" where
  "asset_entry i a = JObj [(''kind'', JStr (asset_kind_text (ma_kind a))), (''rendition'', JStr (rendition_text (ma_rendition a))),
     (''url'', JStr (asset_url i (last_segment (ma_path a))))]"

definition clip_metadata :: "(timestamp \<Rightarrow> string) \<Rightarrow> clip \<Rightarrow> json list \<Rightarrow> json" where
  "clip_metadata rfc3339 c assets = JObj [(''id'', JInt (cl_id c)), (''status'', JStr (clip_status_text (cl_status c))),
     (''duration_s'', opt_json json_f64 (cl_duration_s c)), (''width'', opt_json JInt (cl_width c)),
     (''height'', opt_json JInt (cl_height c)), (''like_count'', JInt (cl_like_count c)),
     (''comment_count'', JInt (cl_comment_count c)), (''share_count'', JInt (cl_share_count c)),
     (''view_count'', JInt (cl_view_count c)), (''caption_html'', opt_json JStr (cl_caption_html c)),
     (''created_at'', JStr (rfc3339 (cl_created_at c))), (''assets'', JArr assets)]"

definition show_clip :: "'y server_env_scheme \<Rightarrow> int \<Rightarrow> 'z pool_scheme \<Rightarrow> response \<times> 'z pool_scheme" where
  "show_clip env i w = with_pool env w (\<lambda>w. or_500 env (exec (clip_fetch_by_id i) w) (\<lambda>found w. case found of
       None \<Rightarrow> (problem 404 ''clip not found'' (''no clip with id '' @ show_int i), w)
     | Some c \<Rightarrow> or_500 env (exec (asset_fetch_for_clip i) w) (\<lambda>rows w.
         (reply 200 (clip_metadata (sv_rfc3339 env) c (map (asset_entry i) rows)), w))))"

section \<open>What is served\<close>

text \<open>Words are compared through the naturals they stand for.\<close>

lemmas word_as_nat = word_less_nat_alt word_le_nat_alt unat_minus_one

lemma clamp_range_bounds:
  assumes "clamp_range s e n = Inr (Partial r)" and n: "n \<noteq> 0"
  shows "br_start r \<le> br_end r \<and> br_end r < n"
proof -
  have pred: "n - 1 < n" "\<And>k. k < n \<Longrightarrow> k \<le> n - 1"
    using n unat_gt_0 [of n] by (auto simp: word_as_nat)
  have sub: "n - k \<le> n - 1" if "k \<noteq> 0" "k < n" for k
    using that n unat_gt_0 [of k] by (auto simp: word_as_nat unat_sub)
  show ?thesis
  proof (cases s)
    case (Some a)
    then show ?thesis
      using assms pred by (cases e) (auto simp: min_def intro: le_less_trans split: if_splits)
  next
    case None
    then show ?thesis using assms pred sub by (cases e) (auto split: if_splits)
  qed
qed

lemma parse_byte_range_bounds:
  assumes "parse_byte_range hdr n = Inr (Partial r)"
  shows "br_start r \<le> br_end r \<and> br_end r < n"
proof -
  obtain s e where c: "clamp_range s e n = Inr (Partial r)" and n: "n \<noteq> 0"
    using assms by (auto simp: parse_byte_range_def parse_range_rest_def Let_def split: if_splits prod.splits option.splits sum.splits)
  show ?thesis by (rule clamp_range_bounds [OF c n])
qed

lemma range_length:
  assumes "a \<le> b" and "b < (n :: 64 word)"
  shows "unat (b - a + 1) = Suc (unat b - unat a)"
proof -
  have "unat (b - a) = unat b - unat a" using assms by (simp add: unat_sub word_le_nat_alt)
  moreover have "unat b - unat a + 1 < 2 ^ 64" using assms(2) unsigned_less [of n, where 'a = nat] by (simp add: word_less_nat_alt)
  ultimately show ?thesis by (simp add: unat_word_ariths)
qed

text \<open>A disk on which every operation succeeds and every length fits 64 bits.\<close>

definition sound_disk :: "store \<Rightarrow> bool" where
  "sound_disk s \<longleftrightarrow> (\<forall>n. sto_io s n = Io_Ok) \<and> (\<forall>p f. sto_files s p = Some f \<longrightarrow> length (fl_data f) < 2 ^ 64)"

text \<open>The answer carries the bytes from \<open>start\<close> on, \<open>len\<close> of them, and says so.\<close>

definition answers_with :: "string \<Rightarrow> nat \<Rightarrow> nat \<Rightarrow> media_response \<Rightarrow> bool" where
  "answers_with data start len r \<longleftrightarrow> mr_body r = take len (drop start data) \<and> start + len \<le> length data \<and>
     map_of (mr_headers r) ''content-length'' = Some (show_nat len) \<and>
     (if mr_status r = 200 then start = 0 \<and> len = length data \<and> map_of (mr_headers r) ''content-range'' = None
      else mr_status r = 206 \<and> 0 < len \<and> map_of (mr_headers r) ''content-range'' =
        Some (''bytes '' @ show_nat start @ ''-'' @ show_nat (start + len - 1) @ ''/'' @ show_nat (length data)))"

lemma find_SomeD: "List.find P xs = Some x \<Longrightarrow> x \<in> set xs \<and> P x"
  by (induction xs) (auto split: if_splits)

lemma unat_of_length: "n < 2 ^ 64 \<Longrightarrow> unat (word_of_nat n :: 64 word) = n"
  by (simp add: unat_of_nat take_bit_nat_eq_self)

lemma seek_sound: "sto_io s (sto_ops s) = Io_Ok \<Longrightarrow> fst (seek_to a s) = unat a"
  by (auto simp: seek_to_def word_less_nat_alt)

lemma serve_whole_answers:
  assumes "serve_whole mime data (word_of_nat (length data)) s = (Media r, s')" and "length data < 2 ^ 64"
  shows "answers_with data 0 (length data) r"
  using assms by (auto simp: serve_whole_def ranged_body_def seek_to_def answers_with_def build_response_def show_u64_def unat_of_length)

lemma serve_range_answers:
  assumes serve: "serve_range mime data (word_of_nat (length data)) rng s = (Media r, s')"
    and fits: "length data < 2 ^ 64" and io: "sto_io s (sto_ops s) = Io_Ok"
  shows "\<exists>start len. answers_with data start len r"
proof (cases "parse_byte_range rng (word_of_nat (length data))")
  case (Inl e)
  with serve show ?thesis by (cases e) (simp add: serve_range_def)
next
  case (Inr spec)
  show ?thesis
  proof (cases spec)
    case Full
    with Inr serve have "serve_whole mime data (word_of_nat (length data)) s = (Media r, s')"
      by (simp add: serve_range_def)
    from serve_whole_answers [OF this fits] show ?thesis by blast
  next
    case (Partial q)
    let ?a = "br_start q" and ?b = "br_end q" and ?n = "word_of_nat (length data) :: 64 word"
    have b: "?a \<le> ?b" "?b < ?n" using parse_byte_range_bounds [of rng ?n q] Inr Partial by simp_all
    have len: "unat (?b - ?a + 1) = Suc (unat ?b - unat ?a)" by (rule range_length [OF b])
    have ab: "unat ?a \<le> unat ?b" "unat ?b < length data"
      using b by (simp_all add: word_as_nat unat_of_length [OF fits])
    obtain s1 where "seek_to ?a s = (unat ?a, s1)" using seek_sound [OF io, of ?a] by (metis prod.collapse)
    with serve Inr Partial have r: "r = build_response 206 mime (?b - ?a + 1)
        (Some (''bytes '' @ show_u64 ?a @ ''-'' @ show_u64 ?b @ ''/'' @ show_u64 ?n))
        (take (unat (?b - ?a + 1)) (drop (unat ?a) data))"
      by (simp add: serve_range_def ranged_body_def Let_def)
    have "answers_with data (unat ?a) (unat (?b - ?a + 1)) r"
      using ab by (simp add: r answers_with_def build_response_def show_u64_def len unat_of_length [OF fits] del: show_nat.simps)
    then show ?thesis by blast
  qed
qed


text \<open>Bytes 2 to 5 of a file of ten.\<close>

definition demo_asset_row :: media_asset where
  "demo_asset_row = \<lparr>ma_id = 3, ma_clip_id = 7, ma_kind = Video_Mp4, ma_rendition = R720, ma_lang = None,
     ma_path = ''renditions/7/720.mp4'', ma_mime = ''video/mp4'', ma_size_bytes = Some 10, ma_bitrate_kbps = None,
     ma_codec = None, ma_ready_at = Some 5\<rparr>"

definition demo_media_world :: web_world where
  "demo_media_world = demo_web_world\<lparr>db := demo_inbox_db\<lparr>media_assets := [demo_asset_row]\<rparr>,
     mw_store := demo_store\<lparr>sto_files := [[''srv'', ''media'', ''renditions'', ''7'', ''720.mp4''] \<mapsto>
       \<lparr>fl_data = ''0123456789'', fl_mtime = 0\<rparr>]\<rparr>\<rparr>"

lemma demo_range: "parse_byte_range ''bytes=2-5'' 10 = Inr (Partial \<lparr>br_start = 2, br_end = 5\<rparr>)"
proof -
  have t: "trim ''bytes=2-5'' = ''bytes=2-5''" "trim ''2'' = ''2''" "trim ''5'' = ''5''"
    by (rule trim_graphic; simp add: graphic_def code_def)+
  have b: "parse_bound ''2'' = Inr (Some 2)" "parse_bound ''5'' = Inr (Some 5)"
    by (simp_all add: parse_bound_def t parse_u64_def opt_filter_def parse_digits_def is_ascii_digit_def digits_value_def code_def)
  show ?thesis
    by (simp add: parse_byte_range_def parse_range_rest_def t b Let_def split_once_def to_ascii_lowercase_def to_ascii_lower_def code_def)
qed

lemma demo_asset_found:
  "\<exists>w1. exec (asset_find_for_clip_filename 7 ''720.mp4'') demo_media_world = (Inr (Some demo_asset_row), w1) \<and>
     mw_store w1 = mw_store demo_media_world"
proof -
  have "fst (exec (asset_find_for_clip_filename 7 ''720.mp4'') demo_media_world) = Inr (Some demo_asset_row)" by code_simp
  then show ?thesis by (metis exec_store prod.collapse)
qed

lemma demo_serve_file:
  "\<exists>s. fst (serve_file demo_asset_row ''720.mp4'' [(''range'', ''bytes=2-5'')] (mw_store demo_media_world)) =
     fst (serve_range ''video/mp4'' ''0123456789'' 10 ''bytes=2-5'' s) \<and> fst (seek_to 2 s) = 2"
  by (rule exI [of _ "next_op (next_op (mw_store demo_media_world))"])
     (simp add: serve_file_def store_open_def open_file_def demo_media_world_def demo_web_world_def demo_store_def
      demo_asset_row_def abs_path_def components_def path_starts_with_def starts_with_def Let_def header_str_def
      header_to_str_def code_def seek_to_def next_op_def word_less_nat_alt)


end
