(* ===== verification/Upload_Api.thy ===== *)
theory Upload_Api
  imports Media_Api Pipeline
begin

text \<open>
  The upload of a clip, \<^verbatim>\<open>crates/server/src/upload.rs\<close>: the multipart reader with its caps, the storage
  quota, and the handler from the sniffed container to the queued \<^verbatim>\<open>probe\<close> job. A multipart body is the list
  of its parts as the parser yields them; SHA-256 and the text of a path are parameters (record \<open>upload_env\<close>).
  The handler runs on one connection: other requests between its statements are not interleaved here.
\<close>

record upload_env = api_env +
  up_sha256_hex :: "string \<Rightarrow> string"
  up_path_text :: "string list \<Rightarrow> string"

section \<open>Casts\<close>

text \<open>\<^verbatim>\<open>f64 as usize\<close> and \<^verbatim>\<open>f64 as i64\<close>: toward zero, saturating, 0 for NaN.\<close>

definition trunc_rat :: "rat \<Rightarrow> int" where
  "trunc_rat r = (if r < 0 then - \<lfloor>- r\<rfloor> else \<lfloor>r\<rfloor>)"

definition f64_as_int :: "int \<Rightarrow> int \<Rightarrow> f64 \<Rightarrow> int" where
  "f64_as_int lo hi x = (case x of F_NaN \<Rightarrow> 0 | F_PosInf \<Rightarrow> hi | F_NegInf \<Rightarrow> lo | F_Fin r \<Rightarrow> clamp lo hi (trunc_rat r))"

definition f64_as_usize :: "f64 \<Rightarrow> nat" where
  "f64_as_usize x = nat (f64_as_int 0 (2 ^ 64 - 1) x)"

definition f64_as_i64 :: "f64 \<Rightarrow> int" where
  "f64_as_i64 x = f64_as_int (- (2 ^ 63)) (2 ^ 63 - 1) x"

definition saturating_add_i64 :: "int \<Rightarrow> int \<Rightarrow> int" where
  "saturating_add_i64 a b = clamp (- (2 ^ 63)) (2 ^ 63 - 1) (a + b)"

definition megabytes :: "f64 \<Rightarrow> f64" where
  "megabytes mb = f64_scale 1024 (f64_scale 1024 mb)"

section \<open>The multipart body\<close>

datatype chunk_event = Chunk string | Chunk_Error string

record form_field =
  mf_name :: "string option"
  mf_chunks :: "chunk_event list"

datatype part = Part form_field | Part_Error string

definition invalid_multipart :: "string \<Rightarrow> response" where
  "invalid_multipart e = problem 400 ''invalid multipart'' e"

text \<open>The chunks of a field, with the cap enforced before a chunk is taken over.\<close>

fun read_chunks :: "response \<Rightarrow> nat \<Rightarrow> string \<Rightarrow> chunk_event list \<Rightarrow> response + string" where
  "read_chunks too_large cap buf [] = Inr buf"
| "read_chunks too_large cap buf (Chunk c # cs) =
     (if length buf + length c > cap then Inl too_large else read_chunks too_large cap (buf @ c) cs)"
| "read_chunks too_large cap buf (Chunk_Error e # cs) = Inl (invalid_multipart e)"

definition upload_too_large :: "nat \<Rightarrow> response" where
  "upload_too_large cap = problem 413 ''upload too large'' (''file exceeds the '' @ show_nat cap @ ''-byte upload cap'')"

definition read_file_chunks :: "nat \<Rightarrow> chunk_event list \<Rightarrow> response + string" where
  "read_file_chunks cap cs = read_chunks (upload_too_large cap) cap [] cs"

definition name_is :: "form_field \<Rightarrow> string \<Rightarrow> bool" where
  "name_is field n = (case mf_name field of None \<Rightarrow> False | Some m \<Rightarrow> to_ascii_lowercase m = n)"

text \<open>The first field named \<^verbatim>\<open>file\<close>.\<close>

fun read_file_field :: "nat \<Rightarrow> part list \<Rightarrow> response + string option" where
  "read_file_field cap [] = Inr None"
| "read_file_field cap (Part_Error e # ps) = Inl (invalid_multipart e)"
| "read_file_field cap (Part field # ps) =
     (if name_is field ''file'' then map_sum id Some (read_file_chunks cap (mf_chunks field)) else read_file_field cap ps)"

text \<open>\<^verbatim>\<open>String::from_utf8\<close>: the bytes a leading byte asks for, as ranges.\<close>

definition utf8_lead :: "nat \<Rightarrow> (nat \<times> nat) list option" where
  "utf8_lead b = (let cont = (128, 191) in
     if b < 128 then Some []
     else if 194 \<le> b \<and> b \<le> 223 then Some [cont]
     else if b = 224 then Some [(160, 191), cont]
     else if b = 237 then Some [(128, 159), cont]
     else if 225 \<le> b \<and> b \<le> 239 then Some [cont, cont]
     else if b = 240 then Some [(144, 191), cont, cont]
     else if 241 \<le> b \<and> b \<le> 243 then Some [cont, cont, cont]
     else if b = 244 then Some [(128, 143), cont, cont]
     else None)"

fun utf8_run :: "(nat \<times> nat) list \<Rightarrow> string \<Rightarrow> bool" where
  "utf8_run es [] = (es = [])"
| "utf8_run [] (c # cs) = (case utf8_lead (code c) of None \<Rightarrow> False | Some es \<Rightarrow> utf8_run es cs)"
| "utf8_run ((lo, hi) # es) (c # cs) = (lo \<le> code c \<and> code c \<le> hi \<and> utf8_run es cs)"

text \<open>\<^verbatim>\<open>String::from_utf8(buf).ok().filter(|s| !s.is_empty())\<close>.\<close>

definition text_of_bytes :: "string \<Rightarrow> string option" where
  "text_of_bytes buf = (if utf8_run [] buf \<and> buf \<noteq> [] then Some buf else None)"

definition caption_max_bytes :: nat where
  "caption_max_bytes = 16 * 1024"

definition read_text :: "string \<Rightarrow> string \<Rightarrow> chunk_event list \<Rightarrow> response + string option" where
  "read_text title detail cs = map_sum id text_of_bytes (read_chunks (problem 413 title detail) caption_max_bytes [] cs)"

record upload_form =
  uf_file :: "string option"
  uf_caption :: "string option"
  uf_sound_title :: "string option"
  uf_has_audio :: bool

definition empty_form :: upload_form where
  "empty_form = \<lparr>uf_file = None, uf_caption = None, uf_sound_title = None, uf_has_audio = False\<rparr>"

definition read_field :: "nat \<Rightarrow> form_field \<Rightarrow> upload_form \<Rightarrow> response + upload_form" where
  "read_field cap field form =
     (if name_is field ''file''
      then map_sum id (\<lambda>d. form\<lparr>uf_file := Some d\<rparr>) (read_file_chunks cap (mf_chunks field))
      else if name_is field ''sound_title''
      then map_sum id (\<lambda>t. form\<lparr>uf_sound_title := t\<rparr>)
        (read_text ''sound title too large'' (''sound title exceeds '' @ show_nat caption_max_bytes @ '' bytes'') (mf_chunks field))
      else if name_is field ''music'' \<or> name_is field ''vo'' then Inr (form\<lparr>uf_has_audio := True\<rparr>)
      else if name_is field ''caption_html''
      then map_sum id (\<lambda>t. form\<lparr>uf_caption := t\<rparr>)
        (read_text ''caption too large'' (''caption exceeds '' @ show_nat caption_max_bytes @ '' bytes'') (mf_chunks field))
      else Inr form)"

fun read_upload_fields :: "nat \<Rightarrow> part list \<Rightarrow> upload_form \<Rightarrow> response + upload_form" where
  "read_upload_fields cap [] form = Inr form"
| "read_upload_fields cap (Part_Error e # ps) form = Inl (invalid_multipart e)"
| "read_upload_fields cap (Part field # ps) form = (case read_field cap field form of
     Inl resp \<Rightarrow> Inl resp | Inr form \<Rightarrow> read_upload_fields cap ps form)"


section \<open>Limits\<close>

definition upload_size_cap_mb_default :: f64 where
  "upload_size_cap_mb_default = F_Fin 500"

definition per_user_storage_quota_mb_default :: f64 where
  "per_user_storage_quota_mb_default = F_Fin 0"

definition upload_size_cap_bytes :: "'z pool_scheme \<Rightarrow> (db_error + nat) \<times> 'z pool_scheme" where
  "upload_size_cap_bytes w = try_then (numeric_setting ''upload_size_cap_mb'' upload_size_cap_mb_default w)
     (\<lambda>mb w. (Inr (f64_as_usize (megabytes mb)), w))"

text \<open>\<^verbatim>\<open>COALESCE(SUM(ma.size_bytes), 0)::bigint\<close> over the live clips of the account; the cast fails out of range.\<close>

definition used_bytes :: "int \<Rightarrow> db \<Rightarrow> int" where
  "used_bytes actor_id d = sum_list [unwrap_or 0 (ma_size_bytes a). a \<leftarrow> media_assets d, c \<leftarrow> clips d,
     cl_id c = ma_clip_id a \<and> cl_actor_id c = actor_id \<and> cl_deleted_at c = None \<and> cl_status c \<noteq> Failed]"

definition used_bytes_stmt :: "int \<Rightarrow> int stmt" where
  "used_bytes_stmt actor_id = (\<lambda>t d. let n = used_bytes actor_id d in
     if - (2 ^ 63) \<le> n \<and> n < 2 ^ 63 then Inr (n, d) else Inl (Database ''22003''))"

definition over_quota :: "int \<Rightarrow> int \<Rightarrow> response" where
  "over_quota upload_bytes quota_bytes = problem 413 ''storage_quota_exceeded''
     (''upload of '' @ show_int upload_bytes @ '' bytes would exceed the '' @ show_int quota_bytes @ ''-byte per-user storage quota'')"

definition check_storage_quota ::
  "'y server_env_scheme \<Rightarrow> int \<Rightarrow> int \<Rightarrow> 'z pool_scheme \<Rightarrow> (response + unit) \<times> 'z pool_scheme" where
  "check_storage_quota env actor_id upload_bytes w =
     or_reject env (numeric_setting ''per_user_storage_quota_mb'' per_user_storage_quota_mb_default w) (\<lambda>quota_mb w.
       if f64_le quota_mb f64_zero then (Inr (), w)
       else let quota_bytes = f64_as_i64 (megabytes quota_mb) in
         or_reject env (exec (used_bytes_stmt actor_id) w) (\<lambda>used w.
           if saturating_add_i64 used upload_bytes > quota_bytes then (Inl (over_quota upload_bytes quota_bytes), w)
           else (Inr (), w)))"

section \<open>The handler\<close>

definition new_uuid :: "'y api_env_scheme \<Rightarrow> 'z web_world_scheme \<Rightarrow> string \<times> 'z web_world_scheme" where
  "new_uuid env w = (ap_uuid env (ww_draws w), w\<lparr>ww_draws := Suc (ww_draws w)\<rparr>)"

fun container_ext :: "container \<Rightarrow> string" where
  "container_ext MP4 = ''mp4''"
| "container_ext MOV = ''mov''"
| "container_ext WEBM = ''webm''"

fun container_mime :: "container \<Rightarrow> string" where
  "container_mime MP4 = ''video/mp4''"
| "container_mime MOV = ''video/quicktime''"
| "container_mime WEBM = ''video/webm''"

definition missing_file :: response where
  "missing_file = problem 400 ''missing file'' (''multipart field '' @ [CHR 0x27] @ ''file'' @ [CHR 0x27] @ '' is required'')"

definition duplicate_upload :: response where
  "duplicate_upload = problem 409 ''duplicate upload'' ''an identical clip has already been uploaded''"

text \<open>The error path once the file is stored: the file goes, the clip is marked failed, both best-effort.\<close>

definition abandon_upload ::
  "'y server_env_scheme \<Rightarrow> string \<Rightarrow> int \<Rightarrow> db_error \<Rightarrow> 'z media_world_scheme \<Rightarrow> response \<times> 'z media_world_scheme" where
  "abandon_upload env key clip_id e w = (db_problem env e, fail_clip clip_id (drop_file key w))"

definition or_abandon ::
  "'y server_env_scheme \<Rightarrow> string \<Rightarrow> int \<Rightarrow> (db_error + 'a) \<times> 'z media_world_scheme \<Rightarrow>
     ('z media_world_scheme \<Rightarrow> response \<times> 'z media_world_scheme) \<Rightarrow> response \<times> 'z media_world_scheme" where
  "or_abandon env key clip_id r k = (case r of (Inl e, w) \<Rightarrow> abandon_upload env key clip_id e w | (Inr _, w) \<Rightarrow> k w)"

text \<open>\<^verbatim>\<open>original sound --- @username\<close>, with an em dash in UTF-8.\<close>

definition original_sound :: "string \<Rightarrow> string" where
  "original_sound username = ''original sound '' @ [CHR 0xE2, CHR 0x80, CHR 0x94] @ '' @'' @ username"

definition plain_title :: "string \<Rightarrow> string" where
  "plain_title s = trim (strip_html_tags s)"

definition sound_title_of :: "upload_form \<Rightarrow> string \<Rightarrow> string option" where
  "sound_title_of form username =
     coalesce (nonempty (map_option plain_title (uf_sound_title form)))
       (if uf_sound_title form = None \<and> uf_has_audio form then Some (original_sound username) else None)"

definition attach_sound ::
  "'y server_env_scheme \<Rightarrow> string \<Rightarrow> int \<Rightarrow> int \<Rightarrow> string option \<Rightarrow> 'z media_world_scheme \<Rightarrow>
     ('z media_world_scheme \<Rightarrow> response \<times> 'z media_world_scheme) \<Rightarrow> response \<times> 'z media_world_scheme" where
  "attach_sound env key clip_id actor_id title w k = (case title of
     None \<Rightarrow> k w
   | Some title \<Rightarrow> (case exec (sound_get_or_create title (Some actor_id)) w of
       (Inl e, w) \<Rightarrow> abandon_upload env key clip_id e w
     | (Inr sound_id, w) \<Rightarrow> or_abandon env key clip_id (exec (clip_set_sound clip_id (Some sound_id)) w) k))"

definition attach_hashtags ::
  "'y server_env_scheme \<Rightarrow> string \<Rightarrow> int \<Rightarrow> string option \<Rightarrow> 'z media_world_scheme \<Rightarrow>
     ('z media_world_scheme \<Rightarrow> response \<times> 'z media_world_scheme) \<Rightarrow> response \<times> 'z media_world_scheme" where
  "attach_hashtags env key clip_id caption w k = (case caption of
     None \<Rightarrow> k w
   | Some cap \<Rightarrow> or_abandon env key clip_id (exec (link_hashtags_to_clip clip_id cap) w) k)"

definition probe_payload :: "'y upload_env_scheme \<Rightarrow> int \<Rightarrow> stored_file \<Rightarrow> string \<Rightarrow> container \<Rightarrow> json" where
  "probe_payload env clip_id stored key container = JObj [(''clip_id'', JInt clip_id),
     (''path'', JStr (up_path_text env (sf_path stored))), (''key'', JStr key), (''mime'', JStr (container_mime container))]"

definition orig_asset_cols :: "stored_file \<Rightarrow> string \<Rightarrow> container \<Rightarrow> asset_cols" where
  "orig_asset_cols stored key container = \<lparr>as_kind = Video_Mp4, as_rendition = R_Orig, as_path = key,
     as_mime = container_mime container, as_size_bytes = Some (int (sf_size_bytes stored)), as_bitrate_kbps = None,
     as_codec = None\<rparr>"

text \<open>After the row is inserted: sound, hashtags, the probe job, and the early asset row, whose error is
  only logged.\<close>

definition finish_upload ::
  "'y upload_env_scheme \<Rightarrow> auth_user \<Rightarrow> upload_form \<Rightarrow> string option \<Rightarrow> container \<Rightarrow> stored_file \<Rightarrow> string \<Rightarrow> int \<Rightarrow>
     'z media_world_scheme \<Rightarrow> response \<times> 'z media_world_scheme" where
  "finish_upload env auth form caption container stored key clip_id w =
     attach_sound env key clip_id (ac_id (au_actor auth)) (sound_title_of form (ac_username (au_actor auth))) w (\<lambda>w.
     attach_hashtags env key clip_id caption w (\<lambda>w.
     or_abandon env key clip_id (exec (job_create ''probe'' (probe_payload env clip_id stored key container) None) w) (\<lambda>w.
       (reply 201 (JObj [(''clip_id'', JInt clip_id), (''status'', JStr ''pending'')]),
        snd (asset_create clip_id (orig_asset_cols stored key container) w)))))"

text \<open>The pending row; a refused row takes the stored file with it.\<close>

definition insert_upload ::
  "'y upload_env_scheme \<Rightarrow> auth_user \<Rightarrow> upload_form \<Rightarrow> string \<Rightarrow> container \<Rightarrow> string \<Rightarrow> stored_file \<Rightarrow>
     'z web_world_scheme \<Rightarrow> response \<times> 'z web_world_scheme" where
  "insert_upload env auth form data container key stored w = (case new_uuid env w of (uuid, w) \<Rightarrow>
     let caption = nonempty (map_option strip_html_tags (uf_caption form)) in
     case exec (clip_create_pending_upload (ac_id (au_actor auth)) (''https://toottok.local/clips/'' @ uuid)
            (up_sha256_hex env data) (int (length data)) caption) w of
       (Inl e, w) \<Rightarrow> (if is_unique_violation e then duplicate_upload else db_problem env e, drop_file key w)
     | (Inr c, w) \<Rightarrow> finish_upload env auth form caption container stored key (cl_id c) w)"

definition store_upload ::
  "'y upload_env_scheme \<Rightarrow> auth_user \<Rightarrow> upload_form \<Rightarrow> string \<Rightarrow> container \<Rightarrow> 'z web_world_scheme \<Rightarrow>
     response \<times> 'z web_world_scheme" where
  "store_upload env auth form data container w = (case new_uuid env w of (uuid, w) \<Rightarrow>
     let key = ''original/'' @ uuid @ ''.'' @ container_ext container in
     case on_store (save_bytes key data) w of
       (Inl e, w) \<Rightarrow> (problem 500 ''storage error'' (sv_store_text env e), w)
     | (Inr stored, w) \<Rightarrow> insert_upload env auth form data container key stored w)"

text \<open>A file was sent: sniff it, look for a duplicate, check the quota, store it.\<close>

definition accept_file ::
  "'y upload_env_scheme \<Rightarrow> auth_user \<Rightarrow> upload_form \<Rightarrow> string \<Rightarrow> 'z web_world_scheme \<Rightarrow> response \<times> 'z web_world_scheme" where
  "accept_file env auth form data w =
     (if data = [] then (problem 400 ''empty file'' ''uploaded file is empty'', w)
      else case sniff_container data of
        Inl e \<Rightarrow> (problem 415 ''unsupported container'' ''only mp4, webm, and mov uploads are accepted'', w)
      | Inr container \<Rightarrow> or_500 env (exec (clip_fetch_by_sha256 (up_sha256_hex env data)) w) (\<lambda>found w. case found of
            Some _ \<Rightarrow> (duplicate_upload, w)
          | None \<Rightarrow> (case check_storage_quota env (ac_id (au_actor auth)) (int (length data)) w of
              (Inl resp, w) \<Rightarrow> (resp, w)
            | (Inr (), w) \<Rightarrow> store_upload env auth form data container w)))"

definition upload ::
  "'y upload_env_scheme \<Rightarrow> auth_user \<Rightarrow> part list \<Rightarrow> 'z web_world_scheme \<Rightarrow> response \<times> 'z web_world_scheme" where
  "upload env auth parts w = with_pool env w (\<lambda>w.
     or_500 env (upload_size_cap_bytes w) (\<lambda>cap w. case read_upload_fields cap parts empty_form of
         Inl resp \<Rightarrow> (resp, w)
       | Inr form \<Rightarrow> (case uf_file form of
           None \<Rightarrow> (missing_file, w)
         | Some data \<Rightarrow> accept_file env auth form data w)))"


section \<open>What the readers let through\<close>

lemma read_chunks_bounded: "read_chunks r cap buf cs = Inr d \<Longrightarrow> length buf \<le> cap \<Longrightarrow> length d \<le> cap"
  by (induction r cap buf cs rule: read_chunks.induct) (auto split: if_splits)

lemma read_field_bounded:
  assumes "read_field cap field form = Inr form'" and "pred_option (\<lambda>d. length d \<le> cap) (uf_file form)"
  shows "pred_option (\<lambda>d. length d \<le> cap) (uf_file form')"
  using assms by (auto simp: read_field_def read_file_chunks_def read_text_def map_sum_def dest: read_chunks_bounded
      split: if_splits sum.splits)

lemma read_upload_fields_bounded:
  "read_upload_fields cap ps form = Inr form' \<Longrightarrow> pred_option (\<lambda>d. length d \<le> cap) (uf_file form) \<Longrightarrow>
     pred_option (\<lambda>d. length d \<le> cap) (uf_file form')"
  by (induction cap ps form rule: read_upload_fields.induct) (auto split: sum.splits dest: read_field_bounded)

text \<open>What the settings table says a number is.\<close>

definition setting_number :: "string \<Rightarrow> f64 \<Rightarrow> db \<Rightarrow> f64" where
  "setting_number key deflt d = (case fetch_optional (filter (\<lambda>s. st_key s = key) (settings d)) of
       None \<Rightarrow> deflt
     | Some s \<Rightarrow> (let v = unwrap_or deflt (json_as_f64 (st_value s)) in if f64_less v f64_zero then deflt else v))"

lemma numeric_setting_InrD:
  assumes "numeric_setting key deflt w = (Inr v, w')"
  shows "v = setting_number key deflt (db w) \<and> db w' = db w"
  using assms
  by (auto simp: numeric_setting_def try_then_def setting_fetch_by_key_def select_def setting_number_def Let_def
      split: prod.splits sum.splits option.splits if_splits dest!: exec_InrD)

definition quota_allows :: "int \<Rightarrow> int \<Rightarrow> db \<Rightarrow> bool" where
  "quota_allows actor_id n d = (let q = setting_number ''per_user_storage_quota_mb'' per_user_storage_quota_mb_default d in
     f64_le q f64_zero \<or> saturating_add_i64 (used_bytes actor_id d) n \<le> f64_as_i64 (megabytes q))"

lemma check_storage_quota_InrD:
  assumes "check_storage_quota env a n w = (Inr (), w')"
  shows "quota_allows a n (db w) \<and> db w' = db w"
  using assms
  by (auto simp: check_storage_quota_def or_reject_def quota_allows_def used_bytes_stmt_def Let_def
      split: prod.splits sum.splits if_splits dest!: numeric_setting_InrD exec_InrD)

section \<open>What an upload leaves behind\<close>

definition pending_row :: "int \<Rightarrow> int \<Rightarrow> string \<Rightarrow> nat \<Rightarrow> clip \<Rightarrow> bool" where
  "pending_row i a h n c \<longleftrightarrow> cl_id c = i \<and> cl_actor_id c = a \<and> cl_origin c = Local \<and> cl_status c = Pending \<and>
     cl_deleted_at c = None \<and> cl_sha256_hash c = Some h \<and> cl_size_bytes c = Some (int n)"

definition has_pending :: "int \<Rightarrow> int \<Rightarrow> string \<Rightarrow> nat \<Rightarrow> db \<Rightarrow> bool" where
  "has_pending i a h n d = list_ex (pending_row i a h n) (clips d)"

definition probe_queued :: "int \<Rightarrow> string \<Rightarrow> db \<Rightarrow> bool" where
  "probe_queued i key d = list_ex (\<lambda>j. jb_kind j = ''probe'' \<and> jb_state j = Queued \<and>
     json_get ''clip_id'' (jb_payload j) = Some (JInt i) \<and> get_str ''key'' (jb_payload j) = Some key) (jobs d)"

lemma keeps_by_frame:
  "(\<And>t d x d'. f t d = Inr (x, d') \<Longrightarrow> clips d' = clips d \<and> jobs d' = jobs d) \<Longrightarrow>
     keeps (has_pending i a h n) f \<and> keeps (probe_queued i k) f"
  by (auto simp: keeps_def has_pending_def probe_queued_def)

lemma link_all_frame: "link_all i tags d = Inr d' \<Longrightarrow> clips d' = clips d \<and> jobs d' = jobs d"
  by (induction i tags d rule: link_all.induct)
     (auto simp: link_hashtag_def insert_hashtag_def Let_def split: sum.splits option.splits if_splits)

lemma upload_frames:
  "sound_get_or_create title author t d = Inr (x, d') \<Longrightarrow> clips d' = clips d \<and> jobs d' = jobs d"
  "link_hashtags_to_clip j cap t d = Inr (y, d') \<Longrightarrow> clips d' = clips d \<and> jobs d' = jobs d"
  "insert_asset_if_new j cols t d = Inr (z, d') \<Longrightarrow> clips d' = clips d \<and> jobs d' = jobs d"
  by (auto simp: sound_get_or_create_def split: option.splits if_splits)
     (auto simp: link_hashtags_to_clip_def insert_asset_if_new_def insert_asset_def Let_def
       split: sum.splits if_splits dest!: link_all_frame)

lemma set_sound_pending: "pending_row i a h n (c\<lparr>cl_sound_id := s, cl_updated_at := t\<rparr>) = pending_row i a h n c"
  by (simp add: pending_row_def)

lemma keep_upload:
  "keeps (has_pending i a h n) (sound_get_or_create title author)"
  "keeps (has_pending i a h n) (link_hashtags_to_clip j cap)"
  "keeps (has_pending i a h n) (insert_asset_if_new j cols)"
  "keeps (probe_queued i k) (insert_asset_if_new j cols)"
  "keeps (has_pending i a h n) (job_create kind payload run)"
  "keeps (has_pending i a h n) (clip_set_sound j s)"
proof -
  show "keeps (has_pending i a h n) (sound_get_or_create title author)"
    using keeps_by_frame upload_frames(1) by blast
  show "keeps (has_pending i a h n) (link_hashtags_to_clip j cap)"
    using keeps_by_frame upload_frames(2) by blast
  show "keeps (has_pending i a h n) (insert_asset_if_new j cols)" "keeps (probe_queued i k) (insert_asset_if_new j cols)"
    using keeps_by_frame upload_frames(3) by blast+
  show "keeps (has_pending i a h n) (job_create kind payload run)"
    by (auto simp: keeps_def job_create_def has_pending_def Let_def)
  show "keeps (has_pending i a h n) (clip_set_sound j s)"
  proof (rule keepsI)
    fix t d x d' assume p: "has_pending i a h n d" and run: "clip_set_sound j s t d = Inr (x, d')"
    have "list_ex (pending_row i a h n) (update_where (\<lambda>c. cl_id c = j) (\<lambda>c. c\<lparr>cl_sound_id := s, cl_updated_at := t\<rparr>) cs) =
        list_ex (pending_row i a h n) cs" for cs
      by (induction cs) (auto simp: set_sound_pending)
    moreover have "clips d' = update_where (\<lambda>c. cl_id c = j) (\<lambda>c. c\<lparr>cl_sound_id := s, cl_updated_at := t\<rparr>) (clips d)"
      using run unfolding clip_set_sound_def update_clip_def put_clips_def Let_def by (clarsimp split: if_splits)
    ultimately show "has_pending i a h n d'" using p by (simp add: has_pending_def)
  qed
qed

lemma asset_create_keeps:
  assumes "keeps I (insert_asset_if_new i cols)" and "I (db w)"
  shows "I (db (snd (asset_create i cols w)))"
  unfolding asset_create_def
proof (rule try_then_keeps)
  show "I (db (snd (exec (insert_asset_if_new i cols) w)))" by (rule keeps_exec [OF assms])
  fix created and p :: "'a pool_scheme" assume p: "I (db p)"
  show "I (db (snd (case created of Some a \<Rightarrow> (Inr a, p)
      | None \<Rightarrow> exec (fetch_one (select (\<lambda>t d. fetch_optional (filter (same_asset i cols) (media_assets d))))) p)))"
  proof (cases created)
    case None
    show ?thesis unfolding None option.case by (rule keeps_exec [where I = I, OF keeps_fetch_one [OF keeps_select] p])
  qed (simp add: p)
qed

lemma or_abandon_okE:
  assumes "or_abandon env key i r k = (resp, w')" and "rs_status resp = 201"
  obtains x w1 where "r = (Inr x, w1)" and "k w1 = (resp, w')"
  using assms by (cases r; cases "fst r") (auto simp: or_abandon_def abandon_upload_def db_problem_def problem_def reply_def)

lemma attach_sound_okE:
  assumes "attach_sound env key i a title w k = (resp, w')" and "rs_status resp = 201"
    and "has_pending j b h n (db w)"
  obtains w1 where "k w1 = (resp, w')" and "has_pending j b h n (db w1)" and "mw_store w1 = mw_store w"
proof (cases title)
  case None
  with assms that show ?thesis by (simp add: attach_sound_def)
next
  case (Some tl)
  obtain s w1 where s: "exec (sound_get_or_create tl (Some a)) w = (Inr s, w1)"
      and k: "or_abandon env key i (exec (clip_set_sound i (Some s)) w1) k = (resp, w')"
    using assms(1,2) Some
    by (auto simp: attach_sound_def abandon_upload_def db_problem_def problem_def reply_def split: prod.splits sum.splits)
  obtain x w2 where x: "exec (clip_set_sound i (Some s)) w1 = (Inr x, w2)" and r: "k w2 = (resp, w')"
    using or_abandon_okE [OF k assms(2)] by blast
  show ?thesis
    by (rule that [OF r keeps_execD [OF keep_upload(6) keeps_execD [OF keep_upload(1) assms(3) s] x]])
       (simp add: exec_storeD [OF x] exec_storeD [OF s])
qed

lemma attach_hashtags_okE:
  assumes "attach_hashtags env key i caption w k = (resp, w')" and "rs_status resp = 201"
    and "has_pending j b h n (db w)"
  obtains w1 where "k w1 = (resp, w')" and "has_pending j b h n (db w1)" and "mw_store w1 = mw_store w"
proof (cases caption)
  case None
  with assms that show ?thesis by (simp add: attach_hashtags_def)
next
  case (Some cap)
  then obtain x w1 where x: "exec (link_hashtags_to_clip i cap) w = (Inr x, w1)" and r: "k w1 = (resp, w')"
    using assms(1,2) by (auto simp: attach_hashtags_def elim: or_abandon_okE)
  show ?thesis
    by (rule that [OF r keeps_execD [OF keep_upload(2) assms(3) x] exec_storeD [OF x]])
qed

lemma job_created:
  "job_create k v run t d = Inr (j, d') \<Longrightarrow> jobs d' = jobs d @ [j] \<and> jb_kind j = k \<and> jb_state j = Queued \<and> jb_payload j = v"
  by (auto simp: job_create_def Let_def)

lemma finish_upload_ok:
  assumes "finish_upload env auth form caption container stored key i w = (resp, w')" and "rs_status resp = 201"
    and "has_pending i a h n (db w)"
  shows "has_pending i a h n (db w') \<and> probe_queued i key (db w') \<and> mw_store w' = mw_store w"
proof -
  let ?payload = "probe_payload env i stored key container" and ?cols = "orig_asset_cols stored key container"
  obtain w1 where w1: "has_pending i a h n (db w1)" "mw_store w1 = mw_store w"
      and k1: "attach_hashtags env key i caption w1 (\<lambda>w. or_abandon env key i (exec (job_create ''probe'' ?payload None) w) (\<lambda>w.
        (reply 201 (JObj [(''clip_id'', JInt i), (''status'', JStr ''pending'')]), snd (asset_create i ?cols w)))) = (resp, w')"
    by (rule attach_sound_okE [OF assms(1) [unfolded finish_upload_def] assms(2,3)])
  obtain w2 where w2: "has_pending i a h n (db w2)" "mw_store w2 = mw_store w1"
      and k2: "or_abandon env key i (exec (job_create ''probe'' ?payload None) w2) (\<lambda>w.
        (reply 201 (JObj [(''clip_id'', JInt i), (''status'', JStr ''pending'')]), snd (asset_create i ?cols w))) = (resp, w')"
    by (rule attach_hashtags_okE [OF k1 assms(2) w1(1)])
  obtain j w3 where j: "exec (job_create ''probe'' ?payload None) w2 = (Inr j, w3)"
      and w': "w' = snd (asset_create i ?cols w3)"
    by (rule or_abandon_okE [OF k2 assms(2)]) auto
  have "job_create ''probe'' ?payload None (now w2) (db w2) = Inr (j, db w3)" using exec_InrD [OF j] by simp
  then have "jobs (db w3) = jobs (db w2) @ [j]" "jb_kind j = ''probe''" "jb_state j = Queued" "jb_payload j = ?payload"
    using job_created by auto
  then have "probe_queued i key (db w3)"
    by (simp add: probe_queued_def probe_payload_def get_str_def)
  then have "probe_queued i key (db w')" unfolding w' by (rule asset_create_keeps [OF keep_upload(4)])
  moreover have "has_pending i a h n (db w')"
    unfolding w' by (rule asset_create_keeps [OF keep_upload(3) keeps_execD [OF keep_upload(5) w2(1) j]])
  moreover have "mw_store w' = mw_store w3" unfolding w' by (rule asset_create_store [OF prod.collapse [symmetric]])
  ultimately show ?thesis using exec_storeD [OF j] w1 w2 by simp
qed


lemma pending_created:
  "clip_create_pending_upload a ap h n cap t d = Inr (c, d') \<Longrightarrow> n = int k \<Longrightarrow> has_pending (cl_id c) a h k d'"
  by (auto simp: clip_create_pending_upload_def insert_clip_def put_clips_def new_clip_def has_pending_def pending_row_def
      split: if_splits)

lemma insert_upload_ok:
  assumes "insert_upload env auth form data container key stored w = (resp, w')" and "rs_status resp = 201"
  shows "\<exists>i. probe_queued i key (db w') \<and> mw_store w' = mw_store w \<and>
    has_pending i (ac_id (au_actor auth)) (up_sha256_hex env data) (length data) (db w')"
proof -
  define caption where "caption = nonempty (map_option strip_html_tags (uf_caption form))"
  obtain uuid w1 where w1: "new_uuid env w = (uuid, w1)" "mw_store w1 = mw_store w" by (simp add: new_uuid_def)
  define stmt where "stmt = clip_create_pending_upload (ac_id (au_actor auth)) (''https://toottok.local/clips/'' @ uuid)
    (up_sha256_hex env data) (int (length data)) caption"
  obtain r w2 where run: "exec stmt w1 = (r, w2)" by fastforce
  have whole: "insert_upload env auth form data container key stored w = (case (r, w2) of
      (Inl e, w) \<Rightarrow> (if is_unique_violation e then duplicate_upload else db_problem env e, drop_file key w)
    | (Inr c, w) \<Rightarrow> finish_upload env auth form caption container stored key (cl_id c) w)"
    unfolding insert_upload_def w1 prod.case Let_def caption_def [symmetric] stmt_def [symmetric] run ..
  show ?thesis
  proof (cases r)
    case (Inl e)
    with whole assms show ?thesis
      by (auto simp: duplicate_upload_def db_problem_def problem_def reply_def split: if_splits)
  next
    case (Inr c)
    with whole assms(1) have fin: "finish_upload env auth form caption container stored key (cl_id c) w2 = (resp, w')" by simp
    have "stmt (now w1) (db w1) = Inr (c, db w2)" using exec_InrD [of stmt w1 c w2] run Inr by simp
    then have "has_pending (cl_id c) (ac_id (au_actor auth)) (up_sha256_hex env data) (length data) (db w2)"
      unfolding stmt_def by (rule pending_created) simp
    from finish_upload_ok [OF fin assms(2) this] show ?thesis using exec_storeD [OF run] w1 by auto
  qed
qed

lemma store_upload_ok:
  assumes "store_upload env auth form data container w = (resp, w')" and "rs_status resp = 201"
  shows "\<exists>key i. store_content key (mw_store w') = Some data \<and> probe_queued i key (db w') \<and>
    has_pending i (ac_id (au_actor auth)) (up_sha256_hex env data) (length data) (db w')"
proof -
  obtain uuid w0 where w0: "new_uuid env w = (uuid, w0)" "mw_store w0 = mw_store w" by (simp add: new_uuid_def)
  define key where "key = ''original/'' @ uuid @ ''.'' @ container_ext container"
  obtain r s where save: "save_bytes key data (mw_store w) = (r, s)" by fastforce
  have whole: "store_upload env auth form data container w = (case (r, w0\<lparr>mw_store := s\<rparr>) of
      (Inl e, w) \<Rightarrow> (problem 500 ''storage error'' (sv_store_text env e), w)
    | (Inr stored, w) \<Rightarrow> insert_upload env auth form data container key stored w)"
    unfolding store_upload_def w0 on_store_def prod.case Let_def key_def [symmetric] save ..
  show ?thesis
  proof (cases r)
    case (Inl e)
    with whole assms show ?thesis by (simp add: problem_def reply_def)
  next
    case (Inr stored)
    with whole assms(1) have ins: "insert_upload env auth form data container key stored (w0\<lparr>mw_store := s\<rparr>) = (resp, w')" by simp
    have "store_content key s = Some data" using local_store.saved [of key data "mw_store w" stored s] save Inr by simp
    with insert_upload_ok [OF ins assms(2)] show ?thesis by auto
  qed
qed

lemma refused_chunks: "read_chunks r cap buf cs = Inl resp \<Longrightarrow> resp = r \<or> (\<exists>e. resp = invalid_multipart e)"
  by (induction r cap buf cs rule: read_chunks.induct) (auto split: if_splits)

lemma refused_field: "read_field cap field form = Inl resp \<Longrightarrow> rs_status resp \<in> {400, 413}"
  by (auto simp: read_field_def read_file_chunks_def read_text_def map_sum_def upload_too_large_def invalid_multipart_def
      problem_def reply_def split: if_splits sum.splits dest!: refused_chunks)

lemma refused_form: "read_upload_fields cap ps form = Inl resp \<Longrightarrow> rs_status resp \<in> {400, 413}"
  by (induction cap ps form rule: read_upload_fields.induct)
     (auto simp: invalid_multipart_def problem_def reply_def split: sum.splits dest: refused_field)

lemma sql_eq_Some: "sql_eq x (Some y) \<longleftrightarrow> x = Some y"
  by (cases x) auto

lemma sort_key_Nil: "sort_key f xs = [] \<longleftrightarrow> xs = []"
  by (metis length_sort length_0_conv)

lemma refused_quota: "check_storage_quota env a n w = (Inl resp, w') \<Longrightarrow> rs_status resp \<in> {413, 500}"
  by (auto simp: check_storage_quota_def or_reject_def over_quota_def db_problem_def problem_def reply_def Let_def
      split: prod.splits sum.splits if_splits)

lemma accept_file_ok:
  assumes "accept_file env auth form data w = (resp, w')" and "rs_status resp = 201"
  shows "data \<noteq> [] \<and> (\<exists>container. sniff_container data = Inr container) \<and>
    filter (\<lambda>c. cl_sha256_hash c = Some (up_sha256_hex env data) \<and> cl_deleted_at c = None \<and> cl_status c \<noteq> Failed) (clips (db w)) = [] \<and>
    quota_allows (ac_id (au_actor auth)) (int (length data)) (db w) \<and>
    (\<exists>key i. store_content key (mw_store w') = Some data \<and> probe_queued i key (db w') \<and>
      has_pending i (ac_id (au_actor auth)) (up_sha256_hex env data) (length data) (db w'))"
proof -
  have data: "data \<noteq> []" using assms by (auto simp: accept_file_def problem_def reply_def)
  obtain container where sniffed: "sniff_container data = Inr container"
    using assms data by (cases "sniff_container data") (auto simp: accept_file_def problem_def reply_def)
  obtain found w1 where f: "exec (clip_fetch_by_sha256 (up_sha256_hex env data)) w = (Inr found, w1)"
      and k1: "(case found of Some _ \<Rightarrow> (duplicate_upload, w1)
          | None \<Rightarrow> (case check_storage_quota env (ac_id (au_actor auth)) (int (length data)) w1 of
              (Inl resp, w) \<Rightarrow> (resp, w)
            | (Inr (), w) \<Rightarrow> store_upload env auth form data container w)) = (resp, w')"
    using assms data sniffed by (auto simp: accept_file_def elim!: or_500_okE)
  have new: "found = None" using k1 assms(2) by (cases found) (auto simp: duplicate_upload_def problem_def reply_def)
  have "clip_fetch_by_sha256 (up_sha256_hex env data) (now w) (db w) = Inr (found, db w1)" using exec_InrD [OF f] by simp
  then have fresh: "filter (\<lambda>c. cl_sha256_hash c = Some (up_sha256_hex env data) \<and> cl_deleted_at c = None \<and> cl_status c \<noteq> Failed) (clips (db w)) = []"
    and w1: "db w1 = db w"
    using new by (auto simp: clip_fetch_by_sha256_def select_def fetch_optional_None sql_eq_Some sort_key_Nil)
  obtain w2 where q: "check_storage_quota env (ac_id (au_actor auth)) (int (length data)) w1 = (Inr (), w2)"
      and st: "store_upload env auth form data container w2 = (resp, w')"
  proof (cases "check_storage_quota env (ac_id (au_actor auth)) (int (length data)) w1")
    case (Pair r w2)
    show ?thesis
    proof (cases r)
      case (Inl e)
      with k1 new Pair have "e = resp" by simp
      with refused_quota [of env "ac_id (au_actor auth)" "int (length data)" w1 e w2] Pair Inl assms(2) show ?thesis by simp
    qed (use k1 new Pair that in \<open>simp split: unit.splits\<close>)
  qed
  show ?thesis
    using data sniffed fresh check_storage_quota_InrD [OF q] w1 store_upload_ok [OF st assms(2)] by auto
qed

text \<open>C19: an upload answered 201 was within the limits and is complete. The file part was not empty, not
  longer than the configured cap and of a known container; no live clip had its hash; the storage quota of the account
  allowed it. Its bytes are in the store under a key, a pending clip of the account carries their hash and size, and
  a probe job for that clip and that key is queued. This holds under any connection failures on the way.\<close>

theorem accepted_upload_is_complete:
  assumes "upload env auth parts w = (resp, w')" and "rs_status resp = 201"
  shows "\<exists>cap form data container key i. fst (upload_size_cap_bytes w) = Inr cap \<and>
    read_upload_fields cap parts empty_form = Inr form \<and> uf_file form = Some data \<and> 0 < length data \<and> length data \<le> cap \<and>
    sniff_container data = Inr container \<and>
    filter (\<lambda>c. cl_sha256_hash c = Some (up_sha256_hex env data) \<and> cl_deleted_at c = None \<and> cl_status c \<noteq> Failed) (clips (db w)) = [] \<and>
    quota_allows (ac_id (au_actor auth)) (int (length data)) (db w) \<and>
    store_content key (mw_store w') = Some data \<and> probe_queued i key (db w') \<and>
    has_pending i (ac_id (au_actor auth)) (up_sha256_hex env data) (length data) (db w')"
proof -
  have pool: "or_500 env (upload_size_cap_bytes w) (\<lambda>cap w. case read_upload_fields cap parts empty_form of
         Inl resp \<Rightarrow> (resp, w)
       | Inr form \<Rightarrow> (case uf_file form of
           None \<Rightarrow> (missing_file, w) | Some data \<Rightarrow> accept_file env auth form data w)) = (resp, w')"
    using with_pool_okE [OF assms(1) [unfolded upload_def]] assms(2) by simp
  obtain cap w1 where cap: "upload_size_cap_bytes w = (Inr cap, w1)"
    using pool assms(2) by (elim or_500_okE) auto
  with pool have k: "(case read_upload_fields cap parts empty_form of
         Inl resp \<Rightarrow> (resp, w1)
       | Inr form \<Rightarrow> (case uf_file form of
           None \<Rightarrow> (missing_file, w1) | Some data \<Rightarrow> accept_file env auth form data w1)) = (resp, w')"
    by (simp add: or_500_def)
  obtain form where form: "read_upload_fields cap parts empty_form = Inr form"
    using k assms(2) refused_form [of cap parts empty_form] by (cases "read_upload_fields cap parts empty_form") auto
  obtain data where data: "uf_file form = Some data"
    using k assms(2) form by (cases "uf_file form") (auto simp: missing_file_def problem_def reply_def)
  have acc: "accept_file env auth form data w1 = (resp, w')" using k form data by simp
  have w1: "db w1 = db w" using cap
    by (auto simp: upload_size_cap_bytes_def try_then_def split: prod.splits sum.splits dest!: numeric_setting_InrD)
  have "length data \<le> cap"
    using read_upload_fields_bounded [OF form] data by (simp add: empty_form_def)
  then show ?thesis
    using accept_file_ok [OF acc assms(2)] cap form data unfolding w1 by fastforce
qed


section \<open>A small upload\<close>

text \<open>A body of two chunks that begin an MP4 file, sent by alice.\<close>

definition demo_upload_env :: upload_env where
  "demo_upload_env = api_env.extend demo_api_env \<lparr>up_sha256_hex = (\<lambda>s. CHR ''#'' # s), up_path_text = concat\<rparr>"

definition demo_parts :: "part list" where
  "demo_parts = [Part \<lparr>mf_name = Some ''File'', mf_chunks = [Chunk ''0000ftyp'', Chunk ''isom0000'']\<rparr>]"

definition demo_form :: upload_form where
  "demo_form = empty_form\<lparr>uf_file := Some ''0000ftypisom0000''\<rparr>"

lemma demo_cap: "upload_size_cap_bytes demo_web_world = (Inr 524288000, demo_web_world\<lparr>ticks := 1\<rparr>)"
  by (simp add: upload_size_cap_bytes_def numeric_setting_def try_then_def setting_fetch_by_key_def select_def exec_up
      demo_web_world_def demo_inbox_db_def empty_db_def upload_size_cap_mb_default_def megabytes_def f64_as_usize_def f64_as_int_def
      clamp_def trunc_rat_def)

lemma demo_file_name: "to_ascii_lowercase ''File'' = ''file''"
  by code_simp

lemma demo_read: "read_upload_fields 524288000 demo_parts empty_form = Inr demo_form"
  by (simp add: demo_parts_def read_field_def name_is_def demo_file_name read_file_chunks_def demo_form_def)

lemma demo_form_file: "uf_file demo_form = Some ''0000ftypisom0000''"
  by (simp add: demo_form_def)

lemma demo_accepted:
  "rs_status (fst (accept_file demo_upload_env demo_auth demo_form ''0000ftypisom0000'' (demo_web_world\<lparr>ticks := 1\<rparr>))) = 201"
  by code_simp

lemma demo_uploaded: "rs_status (fst (upload demo_upload_env demo_auth demo_parts demo_web_world)) = 201"
  using demo_accepted demo_cap demo_read
  by (simp add: upload_def with_pool_def or_500_def demo_form_def demo_upload_env_def api_env.defs demo_api_env_def)

theorem accepted_upload_is_complete_witness:
  "rs_status (fst (upload demo_upload_env demo_auth demo_parts demo_web_world)) = 201 \<and>
     (\<exists>key i. store_content key (mw_store (snd (upload demo_upload_env demo_auth demo_parts demo_web_world))) = Some ''0000ftypisom0000'' \<and>
       probe_queued i key (db (snd (upload demo_upload_env demo_auth demo_parts demo_web_world))))"
proof -
  obtain cap form data key i where "fst (upload_size_cap_bytes demo_web_world) = Inr cap"
      "read_upload_fields cap demo_parts empty_form = Inr form" "uf_file form = Some data"
      "store_content key (mw_store (snd (upload demo_upload_env demo_auth demo_parts demo_web_world))) = Some data"
      "probe_queued i key (db (snd (upload demo_upload_env demo_auth demo_parts demo_web_world)))"
    using accepted_upload_is_complete [OF surjective_pairing demo_uploaded] by blast
  moreover from this have "form = demo_form" by (simp add: demo_cap demo_read)
  ultimately show ?thesis using demo_uploaded demo_form_file by auto
qed

end
