(* ===== verification/Accounts.thy ===== *)
theory Accounts
  imports Upload_Api
begin

text \<open>
  The account of the logged-in user, \<^verbatim>\<open>crates/server/src/accounts.rs\<close>: profile, profile update, avatar and
  account deletion.
\<close>

definition avatar_size_cap :: nat where
  "avatar_size_cap = 2 * 1024 * 1024"

definition profile :: "'y server_env_scheme \<Rightarrow> actor \<Rightarrow> user \<Rightarrow> string \<Rightarrow> json" where
  "profile env a u csrf_token = JObj [(''actor_id'', JInt (ac_id a)), (''username'', JStr (ac_username a)),
     (''display_name'', opt_json JStr (ac_display_name a)), (''summary'', opt_json JStr (ac_summary a)),
     (''avatar_path'', opt_json JStr (ac_avatar_path a)), (''email'', opt_json JStr (us_email u)),
     (''email_verified'', JBool (us_email_verified_at u \<noteq> None)), (''is_admin'', JBool (us_is_admin u)),
     (''status'', JStr (status_text (us_status u))), (''created_at'', JStr (sv_rfc3339 env (ac_created_at a))),
     (''csrf_token'', JStr csrf_token)]"

definition actor_vanished :: response where
  "actor_vanished = problem 404 ''account not found'' ''actor vanished''"

definition answer_profile :: "'y server_env_scheme \<Rightarrow> auth_user \<Rightarrow> actor option \<Rightarrow> 'w \<Rightarrow> response \<times> 'w" where
  "answer_profile env auth found w = (case found of
     None \<Rightarrow> (actor_vanished, w)
   | Some a \<Rightarrow> (reply 200 (profile env a (au_user auth) (se_csrf_token (au_session auth))), w))"

definition me :: "'y server_env_scheme \<Rightarrow> auth_user \<Rightarrow> 'z pool_scheme \<Rightarrow> response \<times> 'z pool_scheme" where
  "me env auth w = with_pool env w (\<lambda>w.
     or_500 env (exec (actor_fetch_by_id (ac_id (au_actor auth))) w) (answer_profile env auth))"

record patch_me_request =
  pm_display_name :: "string option"
  pm_summary :: "string option"

definition patch_me :: "'y server_env_scheme \<Rightarrow> auth_user \<Rightarrow> patch_me_request \<Rightarrow> 'z pool_scheme \<Rightarrow> response \<times> 'z pool_scheme" where
  "patch_me env auth body w = with_pool env w (\<lambda>w.
     or_500 env (exec (actor_update_profile (ac_id (au_actor auth)) (pm_display_name body) (pm_summary body)) w)
       (answer_profile env auth))"

section \<open>Avatar\<close>

definition sniff_image :: "string \<Rightarrow> (string \<times> string) option" where
  "sniff_image data =
     (if starts_with [CHR 0x89, CHR ''P'', CHR ''N'', CHR ''G'', CHR 0x0D, CHR 0x0A, CHR 0x1A, CHR 0x0A] data
      then Some (''png'', ''image/png'')
      else if starts_with [CHR 0xFF, CHR 0xD8, CHR 0xFF] data then Some (''jpg'', ''image/jpeg'')
      else None)"

definition unsupported_image :: response where
  "unsupported_image = problem 415 ''unsupported image'' ''avatar must be a PNG or JPEG image''"

definition store_avatar ::
  "'y server_env_scheme \<Rightarrow> auth_user \<Rightarrow> string \<Rightarrow> string \<Rightarrow> 'z media_world_scheme \<Rightarrow> response \<times> 'z media_world_scheme" where
  "store_avatar env auth ext data w =
     (let key = ''avatars/'' @ show_int (ac_id (au_actor auth)) @ ''.'' @ ext in
      case on_store (save_bytes key data) w of
        (Inl e, w) \<Rightarrow> (problem 500 ''storage error'' (sv_store_text env e), w)
      | (Inr stored, w) \<Rightarrow> or_500 env (exec (actor_set_avatar_path (ac_id (au_actor auth)) key) w) (\<lambda>found w. case found of
            None \<Rightarrow> (actor_vanished, w)
          | Some a \<Rightarrow> (reply 200 (JObj [(''avatar_path'', JStr key)]), w)))"

definition avatar ::
  "'y server_env_scheme \<Rightarrow> auth_user \<Rightarrow> part list \<Rightarrow> 'z media_world_scheme \<Rightarrow> response \<times> 'z media_world_scheme" where
  "avatar env auth parts w = with_pool env w (\<lambda>w. case read_file_field avatar_size_cap parts of
       Inl resp \<Rightarrow> (resp, w)
     | Inr None \<Rightarrow> (missing_file, w)
     | Inr (Some data) \<Rightarrow> (case sniff_image data of
         None \<Rightarrow> (unsupported_image, w)
       | Some (ext, mime) \<Rightarrow> store_avatar env auth ext data w))"

section \<open>Deletion\<close>

definition flip_clips :: "int \<Rightarrow> unit stmt" where
  "flip_clips actor_id = (\<lambda>t d. put_clips () (update_where (\<lambda>c. cl_actor_id c = actor_id \<and> cl_deleted_at c = None)
     (\<lambda>c. c\<lparr>cl_deleted_at := Some t, cl_status := Deleted, cl_updated_at := t\<rparr>) (clips d)) d)"

definition asset_paths_of :: "int \<Rightarrow> string list stmt" where
  "asset_paths_of actor_id = select (\<lambda>t d. [ma_path a. a \<leftarrow> media_assets d, c \<leftarrow> clips d,
     cl_id c = ma_clip_id a \<and> cl_actor_id c = actor_id])"

definition bury_person :: "string \<Rightarrow> unit stmt" where
  "bury_person ap_id = (\<lambda>t d. Inr ((), if list_ex (\<lambda>x. tb_ap_id x = ap_id) (tombstones d) then d
     else d\<lparr>tombstones := tombstones d @ [\<lparr>tb_ap_id = ap_id, tb_type = ''Person'', tb_deleted_at = t\<rparr>]\<rparr>))"

definition invalid_password :: "string \<Rightarrow> response" where
  "invalid_password detail = problem 401 ''invalid password'' detail"

text \<open>The statements after the password check, in their order; the first error ends the deletion.\<close>

definition erase_account :: "'y server_env_scheme \<Rightarrow> auth_user \<Rightarrow> 'z media_world_scheme \<Rightarrow> response \<times> 'z media_world_scheme" where
  "erase_account env auth w =
     (let actor_id = ac_id (au_actor auth); user_id = us_id (au_user auth) in
      or_500 env (exec (flip_clips actor_id) w) (\<lambda>_ w.
      or_500 env (exec (asset_paths_of actor_id) w) (\<lambda>paths w.
      or_500 env (exec (bury_person (ac_ap_id (au_actor auth))) (fold drop_file paths w)) (\<lambda>_ w.
      or_500 env (exec (user_mark_deleted_and_erase user_id) w) (\<lambda>_ w.
      or_500 env (exec (actor_mark_deleted actor_id) w) (\<lambda>_ w.
      or_500 env (exec (session_delete_for_user user_id) w) (\<lambda>_ w.
      or_500 env (exec (email_token_delete_for_user user_id) w) (\<lambda>_ w.
        ((reply 204 JNull)\<lparr>rs_set_cookie := Some clear_cookie\<rparr>, w)))))))))"

definition delete_me ::
  "'y server_env_scheme \<Rightarrow> auth_user \<Rightarrow> string \<Rightarrow> 'z media_world_scheme \<Rightarrow> response \<times> 'z media_world_scheme" where
  "delete_me env auth password w = with_pool env w (\<lambda>w. case us_password_hash (au_user auth) of
       None \<Rightarrow> (invalid_password ''no password on record'', w)
     | Some stored_hash \<Rightarrow>
         if \<not> sv_verify_password env password stored_hash then (invalid_password ''current password is required'', w)
         else erase_account env auth w)"

section \<open>What deletion leaves\<close>

lemma flip_clips_InrD:
  "flip_clips i t d = Inr (x, d') \<Longrightarrow> filter (\<lambda>c. cl_actor_id c = i \<and> cl_deleted_at c = None) (clips d') = [] \<and>
     users d' = users d \<and> actors d' = actors d"
proof -
  assume run: "flip_clips i t d = Inr (x, d')"
  have "filter (\<lambda>c. cl_actor_id c = i \<and> cl_deleted_at c = None) (update_where (\<lambda>c. cl_actor_id c = i \<and> cl_deleted_at c = None)
     (\<lambda>c. c\<lparr>cl_deleted_at := Some t, cl_status := Deleted, cl_updated_at := t\<rparr>) cs) = []" for cs
    by (induction cs) auto
  moreover have "clips d' = update_where (\<lambda>c. cl_actor_id c = i \<and> cl_deleted_at c = None)
     (\<lambda>c. c\<lparr>cl_deleted_at := Some t, cl_status := Deleted, cl_updated_at := t\<rparr>) (clips d)" "users d' = users d" "actors d' = actors d"
    using run by (clarsimp simp: flip_clips_def put_clips_def split: if_splits)+
  ultimately show ?thesis by simp
qed

lemma erase_InrD:
  assumes "user_mark_deleted_and_erase i t d = Inr (x, d')"
  shows "filter (\<lambda>u. us_id u = i \<and> (us_deleted_at u = None \<or> us_email u \<noteq> None \<or> us_password_hash u \<noteq> None)) (users d') = []"
    and "clips d' = clips d" "tombstones d' = tombstones d"
proof -
  have "filter (\<lambda>u. us_id u = i \<and> (us_deleted_at u = None \<or> us_email u \<noteq> None \<or> us_password_hash u \<noteq> None))
      (update_where (\<lambda>u. us_id u = i) (erase_row t) us) = []" for us
    by (induction us) (auto simp: erase_row_def)
  moreover have "users d' = update_where (\<lambda>u. us_id u = i) (erase_row t) (users d)"
    using assms by (clarsimp simp: user_mark_deleted_and_erase_def update_user_def put_users_def split: if_splits)
  ultimately show "filter (\<lambda>u. us_id u = i \<and> (us_deleted_at u = None \<or> us_email u \<noteq> None \<or> us_password_hash u \<noteq> None)) (users d') = []"
    by simp
  show "clips d' = clips d" "tombstones d' = tombstones d"
    using assms by (clarsimp simp: user_mark_deleted_and_erase_def update_user_def put_users_def split: if_splits)+
qed

lemma mark_deleted_InrD:
  assumes "actor_mark_deleted i t d = Inr (x, d')"
  shows "filter (\<lambda>a. ac_id a = i \<and> ac_deleted_at a = None) (actors d') = []"
    and "clips d' = clips d" "tombstones d' = tombstones d" "users d' = users d"
proof -
  have "filter (\<lambda>a. ac_id a = i \<and> ac_deleted_at a = None)
      (update_where (\<lambda>a. ac_id a = i) (\<lambda>a. a\<lparr>ac_deleted_at := Some t, ac_updated_at := t\<rparr>) as) = []" for as
    by (induction as) auto
  moreover have "actors d' = update_where (\<lambda>a. ac_id a = i) (\<lambda>a. a\<lparr>ac_deleted_at := Some t, ac_updated_at := t\<rparr>) (actors d)"
    using assms by (clarsimp simp: actor_mark_deleted_def update_actor_def put_actors_def Let_def split: if_splits)
  ultimately show "filter (\<lambda>a. ac_id a = i \<and> ac_deleted_at a = None) (actors d') = []" by simp
  show "clips d' = clips d" "tombstones d' = tombstones d" "users d' = users d"
    using assms by (clarsimp simp: actor_mark_deleted_def update_actor_def put_actors_def Let_def split: if_splits)+
qed

lemma drop_files_db: "db (fold drop_file ks w) = db w"
  by (induction ks arbitrary: w) (simp_all add: drop_file_db)


lemma bury_person_InrD: "bury_person x t d = Inr (y, d') \<Longrightarrow> has_tombstone x d' \<and> clips d' = clips d"
  by (auto simp: bury_person_def has_tombstone_def)

text \<open>A handler that goes on has run its statement.\<close>

lemma or_500_runE:
  assumes "or_500 env (exec f w) k = (resp, w')" and "rs_status resp \<noteq> 500"
  obtains a w1 where "f (now w) (db w) = Inr (a, db w1)" and "k a w1 = (resp, w')"
  using assms by (elim or_500_okE) (auto dest: exec_InrD)

lemma erase_account_runs:
  assumes "erase_account env auth w = (resp, w')" and "rs_status resp = 204"
  obtains x1 x4 x5 t1 t3 t4 t5 t6 t7 d1 d3 d4 d5 d6 where "flip_clips (ac_id (au_actor auth)) t1 (db w) = Inr (x1, d1)"
    and "bury_person (ac_ap_id (au_actor auth)) t3 d1 = Inr ((), d3)"
    and "user_mark_deleted_and_erase (us_id (au_user auth)) t4 d3 = Inr (x4, d4)"
    and "actor_mark_deleted (ac_id (au_actor auth)) t5 d4 = Inr (x5, d5)"
    and "session_delete_for_user (us_id (au_user auth)) t6 d5 = Inr ((), d6)"
    and "email_token_delete_for_user (us_id (au_user auth)) t7 d6 = Inr ((), db w')"
proof -
  have st: "rs_status resp \<noteq> 500" using assms(2) by simp
  have paths: "d' = d" if "asset_paths_of a t d = Inr (ps, d')" for a t d ps d'
    using that by (simp add: asset_paths_of_def select_def)
  show ?thesis
    using assms(1) unfolding erase_account_def Let_def
    by (elim or_500_runE [OF _ st]) (rule that; auto dest: paths simp: drop_files_db)
qed

lemma erase_account_ok:
  assumes "erase_account env auth w = (resp, w')" and "rs_status resp = 204"
  shows "filter (\<lambda>c. cl_actor_id c = ac_id (au_actor auth) \<and> cl_deleted_at c = None) (clips (db w')) = []"
    and "filter (\<lambda>u. us_id u = us_id (au_user auth) \<and> (us_deleted_at u = None \<or> us_email u \<noteq> None \<or> us_password_hash u \<noteq> None)) (users (db w')) = []"
    and "filter (\<lambda>a. ac_id a = ac_id (au_actor auth) \<and> ac_deleted_at a = None) (actors (db w')) = []"
    and "filter (\<lambda>s. se_user_id s = us_id (au_user auth)) (sessions (db w')) = []"
    and "filter (\<lambda>e. et_user_id e = us_id (au_user auth)) (email_tokens (db w')) = []"
    and "has_tombstone (ac_ap_id (au_actor auth)) (db w')"
proof -
  obtain x1 x4 x5 t1 t3 t4 t5 t6 t7 d1 d3 d4 d5 d6 where s1: "flip_clips (ac_id (au_actor auth)) t1 (db w) = Inr (x1, d1)"
    and s3: "bury_person (ac_ap_id (au_actor auth)) t3 d1 = Inr ((), d3)"
    and s4: "user_mark_deleted_and_erase (us_id (au_user auth)) t4 d3 = Inr (x4, d4)"
    and s5: "actor_mark_deleted (ac_id (au_actor auth)) t5 d4 = Inr (x5, d5)"
    and s6: "session_delete_for_user (us_id (au_user auth)) t6 d5 = Inr ((), d6)"
    and s7: "email_token_delete_for_user (us_id (au_user auth)) t7 d6 = Inr ((), db w')"
    by (rule erase_account_runs [OF assms])
  have d6: "d6 = d5\<lparr>sessions := delete_where (\<lambda>s. se_user_id s = us_id (au_user auth)) (sessions d5)\<rparr>"
    using s6 by (simp add: session_delete_for_user_def)
  have d7: "db w' = d6\<lparr>email_tokens := delete_where (\<lambda>e. et_user_id e = us_id (au_user auth)) (email_tokens d6)\<rparr>"
    using s7 by (simp add: email_token_delete_for_user_def)
  note frames = d7 d6 mark_deleted_InrD(2-4) [OF s5] erase_InrD(2,3) [OF s4] conjunct2 [OF bury_person_InrD [OF s3]]
  show "filter (\<lambda>c. cl_actor_id c = ac_id (au_actor auth) \<and> cl_deleted_at c = None) (clips (db w')) = []"
    using flip_clips_InrD [OF s1] by (simp add: frames)
  show "filter (\<lambda>u. us_id u = us_id (au_user auth) \<and> (us_deleted_at u = None \<or> us_email u \<noteq> None \<or> us_password_hash u \<noteq> None)) (users (db w')) = []"
    using erase_InrD(1) [OF s4] by (simp add: frames)
  show "filter (\<lambda>a. ac_id a = ac_id (au_actor auth) \<and> ac_deleted_at a = None) (actors (db w')) = []"
    using mark_deleted_InrD(1) [OF s5] by (simp add: d7 d6)
  show "filter (\<lambda>s. se_user_id s = us_id (au_user auth)) (sessions (db w')) = []"
    by (simp add: d7 d6 delete_where_def)
  show "filter (\<lambda>e. et_user_id e = us_id (au_user auth)) (email_tokens (db w')) = []"
    by (simp add: d7 delete_where_def)
  show "has_tombstone (ac_ap_id (au_actor auth)) (db w')"
    using bury_person_InrD [OF s3] by (simp add: has_tombstone_def frames)
qed


text \<open>Alice, with a clip and a session, deletes her account.\<close>

definition demo_leaving_world :: web_world where
  "demo_leaving_world = demo_web_world\<lparr>db := (db demo_web_world)\<lparr>clips := [demo_clip]\<rparr>\<rparr>"


end
