(* ===== verification/Remote.thy ===== *)
theory Remote
  imports Backfill Web
begin

text \<open>
  Resolving remote actors and the documents of the federation:
  \<^verbatim>\<open>crates/federation/src/lib.rs\<close> and \<^verbatim>\<open>parse_remote_actor_json\<close> of \<^verbatim>\<open>activity.rs\<close>. The HTTP
  exchange goes through the egress guard as in the backfill, and with the same parameters
  (\<open>backfill_env\<close>). The JRD builder of the federation crate is a parameter where it is used.
\<close>

section \<open>Reading a remote actor\<close>

definition actor_type_from_json :: "json \<Rightarrow> actor_type" where
  "actor_type_from_json v = (let kind = unwrap_or ''Person'' (get_str ''type'' v) in
     if kind = ''Application'' then Application else if kind = ''Service'' then Service else Person)"

text \<open>\<^verbatim>\<open>get(a).or_else(|| get(b))\<close>: the second key only when the first is absent.\<close>

definition get_either :: "string \<Rightarrow> string \<Rightarrow> json \<Rightarrow> json option" where
  "get_either a b v = coalesce (json_get a v) (json_get b v)"

definition shared_inbox_of :: "json \<Rightarrow> string option" where
  "shared_inbox_of v = Option.bind (coalesce (Option.bind (json_get ''endpoints'' v) (get_either ''sharedInbox'' ''shared_inbox''))
     (json_get ''sharedInbox'' v)) json_as_str"

definition public_key_of :: "json \<Rightarrow> string option" where
  "public_key_of v = Option.bind (Option.bind (json_get ''publicKey'' v) (get_either ''publicKeyPem'' ''public_key_pem'')) json_as_str"

definition is_web_url :: "string \<Rightarrow> bool" where
  "is_web_url u \<longleftrightarrow> starts_with ''https://'' u \<or> starts_with ''http://'' u"

definition plain_summary :: "string \<Rightarrow> string" where
  "plain_summary s = trim (strip_html_tags s)"

definition avatar_of :: "json \<Rightarrow> string option" where
  "avatar_of v = opt_filter is_web_url (Option.bind (json_get ''icon'' v) (get_str ''url''))"

definition remote_parts :: "json \<Rightarrow> url \<Rightarrow> string \<Rightarrow> string \<Rightarrow> string \<Rightarrow> remote_actor" where
  "remote_parts v i domain inbox key = \<lparr>
     rm_username = unwrap_or [] (Option.bind (get_either ''preferredUsername'' ''preferred_username'' v) json_as_str),
     rm_domain = domain, rm_actor_type = actor_type_from_json v, rm_public_key_pem = key,
     rm_inbox_url = inbox, rm_shared_inbox_url = shared_inbox_of v,
     rm_outbox_url = unwrap_or (u_str i) (get_str ''outbox'' v),
     rm_followers_url = unwrap_or (u_str i) (get_str ''followers'' v), rm_ap_id = u_str i,
     rm_display_name = nonempty (map_option trim (get_str ''name'' v)),
     rm_summary = nonempty (map_option plain_summary (get_str ''summary'' v)),
     rm_avatar_url = avatar_of v\<rparr>"

definition parse_remote_actor_json :: "(string \<Rightarrow> url option) \<Rightarrow> json \<Rightarrow> fed_error + remote_actor" where
  "parse_remote_actor_json parse_url v = (case get_str ''id'' v of
     None \<Rightarrow> Inl (Fed_Other ''remote actor json missing id'')
   | Some i \<Rightarrow> (case parse_url i of
       None \<Rightarrow> Inl (Fed_Other ''url'')
     | Some u \<Rightarrow> (case u_host u of
         None \<Rightarrow> Inl (Fed_Other ''remote actor id has no host'')
       | Some domain \<Rightarrow> (case get_str ''inbox'' v of
           None \<Rightarrow> Inl (Fed_Other ''remote actor json missing inbox'')
         | Some inbox \<Rightarrow> (case public_key_of v of
             None \<Rightarrow> Inl (Fed_Other ''remote actor json missing publicKey'')
           | Some key \<Rightarrow> Inr (remote_parts v u domain inbox key))))))"

section \<open>Fetching\<close>

text \<open>The answer must carry the id that was asked for.\<close>

definition fetch_remote_object_json ::
  "'y backfill_env_scheme \<Rightarrow> url \<Rightarrow> 'z deliver_world_scheme \<Rightarrow> (fed_error + json) \<times> 'z deliver_world_scheme" where
  "fetch_remote_object_json env u w = try_then (http_get env u w) (\<lambda>(status, body) w.
     if \<not> is_success status then (Inl (Fed_Other (''remote fetch '' @ u_str u @ '' failed with '' @ show_int status)), w)
     else case Option.bind body (bf_json env) of
       None \<Rightarrow> (Inl (Fed_Other ''json''), w)
     | Some v \<Rightarrow>
         let i = unwrap_or [] (get_str ''id'' v) in
         if i \<noteq> u_str u then (Inl (Fed_Other (''remote fetch '' @ u_str u @ '' returned object with id '' @ i)), w)
         else (Inr v, w))"

definition fetch_remote_actor ::
  "'y backfill_env_scheme \<Rightarrow> url \<Rightarrow> 'z deliver_world_scheme \<Rightarrow> (fed_error + actor) \<times> 'z deliver_world_scheme" where
  "fetch_remote_actor env u w = try_then (fetch_remote_object_json env u w) (\<lambda>v w.
     case parse_remote_actor_json (dv_parse_url env) v of
       Inl e \<Rightarrow> (Inl e, w)
     | Inr parts \<Rightarrow> try_then (fed (exec (actor_upsert_remote parts) w)) (\<lambda>row w.
         (Inr row, snd (exec (instance_upsert_success (rm_domain parts) None None (rm_inbox_url parts)) w))))"

section \<open>Handles and WebFinger\<close>

definition trim_ats :: "string \<Rightarrow> string" where
  "trim_ats s = dropWhile (\<lambda>c. c = CHR ''@'') s"

definition parse_remote_handle :: "string \<Rightarrow> (string \<times> string) option" where
  "parse_remote_handle handle = (case split_once (CHR ''@'') (trim_ats (trim handle)) of
     (name, Some domain) \<Rightarrow>
       if name = [] \<or> trim domain = [] then None else Some (name, trim domain)
   | (_, None) \<Rightarrow> None)"

text \<open>The links of the answer in order: the first usable \<^verbatim>\<open>self\<close> link decides.\<close>

definition self_link :: "'y backfill_env_scheme \<Rightarrow> url \<Rightarrow> json \<Rightarrow> url option" where
  "self_link env webfinger lnk =
     (if get_str ''rel'' lnk \<noteq> Some ''self'' then None
      else opt_filter (\<lambda>u. u_scheme u = ''https'' \<or> u_host webfinger = Some ''localhost'')
        (Option.bind (get_str ''href'' lnk) (dv_parse_url env)))"

definition first_self_link :: "'y backfill_env_scheme \<Rightarrow> url \<Rightarrow> json \<Rightarrow> url option" where
  "first_self_link env webfinger body = (case json_get ''links'' body of
     Some (JArr links) \<Rightarrow> fetch_optional (List.map_filter (self_link env webfinger) links)
   | _ \<Rightarrow> None)"

definition webfinger_url :: "string \<Rightarrow> string \<Rightarrow> string" where
  "webfinger_url name domain =
     ''https://'' @ domain @ ''/.well-known/webfinger?resource=acct:'' @ name @ ''@'' @ domain"

text \<open>Every failure on the way is \<^verbatim>\<open>Ok(None)\<close>.\<close>

definition resolve_at ::
  "'y backfill_env_scheme \<Rightarrow> string \<Rightarrow> string \<Rightarrow> 'z deliver_world_scheme \<Rightarrow> actor option \<times> 'z deliver_world_scheme" where
  "resolve_at env name domain w = (case dv_parse_url env (webfinger_url name domain) of
     None \<Rightarrow> (None, w)
   | Some u \<Rightarrow>
       if u_scheme u \<noteq> ''https'' then (None, w)
       else case http_get env u w of
         (Inl _, w) \<Rightarrow> (None, w)
       | (Inr (status, body), w) \<Rightarrow>
           (case (if is_success status then Option.bind (Option.bind body (bf_json env)) (first_self_link env u) else None) of
              None \<Rightarrow> (None, w)
            | Some actor_url \<Rightarrow> (case fetch_remote_actor env actor_url w of
                (Inl _, w) \<Rightarrow> (None, w)
              | (Inr a, w) \<Rightarrow> (Some a, w))))"

definition resolve_remote_actor_by_handle ::
  "'y backfill_env_scheme \<Rightarrow> string \<Rightarrow> 'z deliver_world_scheme \<Rightarrow> actor option \<times> 'z deliver_world_scheme" where
  "resolve_remote_actor_by_handle env handle w = (case parse_remote_handle handle of
     None \<Rightarrow> (None, w)
   | Some (name, domain) \<Rightarrow> resolve_at env name domain w)"

section \<open>Documents\<close>

definition nodeinfo_jrd :: "string \<Rightarrow> json" where
  "nodeinfo_jrd base_url = JObj [(''links'', JArr [
     JObj [(''rel'', JStr ''http://nodeinfo.diaspora.software/ns/schema/2.0''), (''href'', JStr (base_url @ ''/nodeinfo/2.0''))],
     JObj [(''rel'', JStr ''http://nodeinfo.diaspora.software/ns/schema/2.1''), (''href'', JStr (base_url @ ''/nodeinfo/2.1''))]])]"

text \<open>\<open>package_version\<close> is \<^verbatim>\<open>CARGO_PKG_VERSION\<close>.\<close>

definition nodeinfo_document :: "string \<Rightarrow> string \<Rightarrow> string \<Rightarrow> int \<Rightarrow> int \<Rightarrow> json" where
  "nodeinfo_document package_version base_url version user_count posts = JObj [(''version'', JStr version),
     (''software'', JObj [(''name'', JStr ''toottok''), (''version'', JStr package_version)]),
     (''protocols'', JArr [JStr ''activitypub'']),
     (''services'', JObj [(''inbound'', JArr []), (''outbound'', JArr [])]),
     (''openRegistrations'', JBool True),
     (''usage'', JObj [(''users'', JObj [(''total'', JInt user_count)]), (''localPosts'', JInt posts)]),
     (''metadata'', JObj [(''nodeName'', JStr base_url)])]"

definition ordered_collection_page :: "string \<Rightarrow> nat \<Rightarrow> json list \<Rightarrow> json" where
  "ordered_collection_page i item_count items = JObj [context_member, (''id'', JStr i),
     (''type'', JStr ''OrderedCollection''), (''totalItems'', JInt (int item_count)),
     (''first'', JObj [(''id'', JStr (i @ ''?page=1'')), (''type'', JStr ''OrderedCollectionPage''),
        (''partOf'', JStr i), (''orderedItems'', JArr items)])]"

end
