(* ===== verification/Reactions.thy ===== *)
theory Reactions
  imports Feed_Api
begin

text \<open>
  Likes, boosts, bookmarks, comments and notifications of \<^verbatim>\<open>crates/server/src/social.rs\<close>. The
  two pairs of reaction handlers differ in the table, the counter column and the names, so they are
  instances of one definition over a \<open>reaction_table\<close>. The locale \<open>counted_table\<close> states what such a
  table promises; the property is that the counters of a clip are the numbers of its rows, after any
  sequence of requests.
\<close>

section \<open>Statements\<close>

record reaction_table =
  rt_rows :: "db \<Rightarrow> reaction list"
  rt_put :: "reaction list \<Rightarrow> db \<Rightarrow> db"
  rt_count :: "clip \<Rightarrow> int"
  rt_set_count :: "(int \<Rightarrow> int) \<Rightarrow> clip \<Rightarrow> clip"
  rt_kind :: notification_kind
  rt_flag :: string
  rt_counter :: string

definition likes_table :: reaction_table where
  "likes_table = \<lparr>rt_rows = likes, rt_put = (\<lambda>rs d. d\<lparr>likes := rs\<rparr>), rt_count = cl_like_count,
     rt_set_count = cl_like_count_update, rt_kind = N_Like, rt_flag = ''liked'', rt_counter = ''like_count''\<rparr>"

definition announces_table :: reaction_table where
  "announces_table = \<lparr>rt_rows = announces, rt_put = (\<lambda>rs d. d\<lparr>announces := rs\<rparr>), rt_count = cl_share_count,
     rt_set_count = cl_share_count_update, rt_kind = N_Boost, rt_flag = ''announced'', rt_counter = ''share_count''\<rparr>"

text \<open>\<^verbatim>\<open>INSERT INTO likes (clip_id, actor_id) VALUES ($1, $2) ON CONFLICT DO NOTHING\<close>; whether a row was added.\<close>

definition reaction_add :: "reaction_table \<Rightarrow> int \<Rightarrow> int \<Rightarrow> bool stmt" where
  "reaction_add tab c a = (\<lambda>t d.
     if list_ex (reaction_at c a) (rt_rows tab d) then Inr (False, d)
     else if \<not> has_clip c d \<or> \<not> has_actor a d then Inl foreign_key_violation
     else Inr (True, rt_put tab (rt_rows tab d @
       [\<lparr>re_clip_id = c, re_actor_id = a, re_ap_activity_id = None, re_created_at = t\<rparr>]) d))"

definition reaction_remove :: "reaction_table \<Rightarrow> int \<Rightarrow> int \<Rightarrow> bool stmt" where
  "reaction_remove tab c a = (\<lambda>t d.
     Inr (list_ex (reaction_at c a) (rt_rows tab d), rt_put tab (delete_where (reaction_at c a) (rt_rows tab d)) d))"

text \<open>An \<^verbatim>\<open>UPDATE clips\<close> of a counter column; the trigger stamps \<^verbatim>\<open>updated_at\<close>.\<close>

definition count_clips :: "(clip \<Rightarrow> bool) \<Rightarrow> (clip \<Rightarrow> clip) \<Rightarrow> clip list stmt" where
  "count_clips P f = (\<lambda>t d. Inr (returning P (\<lambda>c. (f c)\<lparr>cl_updated_at := t\<rparr>) (clips d),
     d\<lparr>clips := update_where P (\<lambda>c. (f c)\<lparr>cl_updated_at := t\<rparr>) (clips d)\<rparr>))"

definition live_clip :: "int \<Rightarrow> clip \<Rightarrow> bool" where
  "live_clip i c \<longleftrightarrow> cl_id c = i \<and> cl_deleted_at c = None"

text \<open>\<^verbatim>\<open>UPDATE clips SET like_count = ... WHERE id = $1 AND deleted_at IS NULL RETURNING like_count\<close>.\<close>

definition count_live :: "reaction_table \<Rightarrow> int \<Rightarrow> (int \<Rightarrow> int) \<Rightarrow> int option stmt" where
  "count_live tab i f = (\<lambda>t d. case count_clips (live_clip i) (rt_set_count tab f) t d of
     Inl e \<Rightarrow> Inl e | Inr (rs, d) \<Rightarrow> Inr (map_option (rt_count tab) (fetch_optional rs), d))"

definition count_comments :: "int \<Rightarrow> (int \<Rightarrow> int) \<Rightarrow> unit stmt" where
  "count_comments i f = (\<lambda>t d. case count_clips (\<lambda>c. cl_id c = i) (cl_comment_count_update f) t d of
     Inl e \<Rightarrow> Inl e | Inr (_, d) \<Rightarrow> Inr ((), d))"

definition notify_stmt :: "int \<Rightarrow> notification_kind \<Rightarrow> int \<Rightarrow> int \<Rightarrow> unit stmt" where
  "notify_stmt actor_id kind source clip_id = (\<lambda>t d.
     if \<not> has_actor actor_id d \<or> \<not> has_actor source d \<or> \<not> has_clip clip_id d then Inl foreign_key_violation
     else Inr ((), d\<lparr>notifications := notifications d @ [\<lparr>nt_id = next_id d, nt_actor_id = actor_id, nt_kind = kind,
       nt_source_actor_id = source, nt_clip_id = Some clip_id, nt_read_at = None, nt_created_at = t\<rparr>],
       next_id := next_id d + 1\<rparr>))"

section \<open>Likes and boosts\<close>

definition no_live_clip :: "int \<Rightarrow> response" where
  "no_live_clip i = problem 404 ''clip not found'' (''no live clip with id '' @ show_int i)"

definition fetch_live_clip :: "'y server_env_scheme \<Rightarrow> int \<Rightarrow> 'z pool_scheme \<Rightarrow> (response + clip) \<times> 'z pool_scheme" where
  "fetch_live_clip env i w = (case exec (clip_fetch_by_id i) w of
     (Inl e, w) \<Rightarrow> (Inl (db_problem env e), w)
   | (Inr None, w) \<Rightarrow> (Inl (no_live_clip i), w)
   | (Inr (Some c), w) \<Rightarrow> if cl_deleted_at c = None then (Inr c, w) else (Inl (no_live_clip i), w))"

text \<open>\<^verbatim>\<open>Err(resp) => return resp\<close>.\<close>

definition or_answer :: "(response + 'a) \<times> 'w \<Rightarrow> ('a \<Rightarrow> 'w \<Rightarrow> response \<times> 'w) \<Rightarrow> response \<times> 'w" where
  "or_answer r k = (case r of (Inl resp, w) \<Rightarrow> (resp, w) | (Inr a, w) \<Rightarrow> k a w)"

definition reaction_state :: "reaction_table \<Rightarrow> bool \<Rightarrow> int \<Rightarrow> response" where
  "reaction_state tab on n = reply 200 (JObj [(rt_flag tab, JBool on), (rt_counter tab, JInt n)])"

text \<open>The author is told, unless it is the viewer.\<close>

definition notify_author ::
  "'y server_env_scheme \<Rightarrow> notification_kind \<Rightarrow> int \<Rightarrow> clip \<Rightarrow> response \<Rightarrow> 'z pool_scheme \<Rightarrow> response \<times> 'z pool_scheme" where
  "notify_author env kind viewer clip resp w =
     (if cl_actor_id clip \<noteq> viewer
      then or_500 env (exec (notify_stmt (cl_actor_id clip) kind viewer (cl_id clip)) w) (\<lambda>_ w. (resp, w))
      else (resp, w))"

definition react :: "reaction_table \<Rightarrow> 'y server_env_scheme \<Rightarrow> auth_user \<Rightarrow> int \<Rightarrow> 'z pool_scheme \<Rightarrow> response \<times> 'z pool_scheme" where
  "react tab env auth i w = with_pool env w (\<lambda>w.
     or_answer (fetch_live_clip env i w) (\<lambda>clip w.
     or_500 env (exec (reaction_add tab i (ac_id (au_actor auth))) w) (\<lambda>inserted w.
     if \<not> inserted then (reaction_state tab True (rt_count tab clip), w)
     else or_500 env (exec (count_live tab i (\<lambda>n. n + 1)) w) (\<lambda>count w. case count of
         None \<Rightarrow> (no_live_clip i, w)
       | Some n \<Rightarrow> notify_author env (rt_kind tab) (ac_id (au_actor auth)) clip (reaction_state tab True n) w))))"

definition unreact :: "reaction_table \<Rightarrow> 'y server_env_scheme \<Rightarrow> auth_user \<Rightarrow> int \<Rightarrow> 'z pool_scheme \<Rightarrow> response \<times> 'z pool_scheme" where
  "unreact tab env auth i w = with_pool env w (\<lambda>w.
     or_answer (fetch_live_clip env i w) (\<lambda>clip w.
     or_500 env (exec (reaction_remove tab i (ac_id (au_actor auth))) w) (\<lambda>removed w.
     if \<not> removed then (reaction_state tab False (rt_count tab clip), w)
     else or_500 env (exec (count_live tab i (\<lambda>n. max (n - 1) 0)) w) (\<lambda>count w.
       (reaction_state tab False (unwrap_or (rt_count tab clip) count), w)))))"

definition like_clip :: "'y server_env_scheme \<Rightarrow> auth_user \<Rightarrow> int \<Rightarrow> 'z pool_scheme \<Rightarrow> response \<times> 'z pool_scheme" where
  "like_clip = react likes_table"

definition unlike_clip :: "'y server_env_scheme \<Rightarrow> auth_user \<Rightarrow> int \<Rightarrow> 'z pool_scheme \<Rightarrow> response \<times> 'z pool_scheme" where
  "unlike_clip = unreact likes_table"

definition api_announce_clip :: "'y server_env_scheme \<Rightarrow> auth_user \<Rightarrow> int \<Rightarrow> 'z pool_scheme \<Rightarrow> response \<times> 'z pool_scheme" where
  "api_announce_clip = react announces_table"

definition unannounce_clip :: "'y server_env_scheme \<Rightarrow> auth_user \<Rightarrow> int \<Rightarrow> 'z pool_scheme \<Rightarrow> response \<times> 'z pool_scheme" where
  "unannounce_clip = unreact announces_table"

section \<open>Bookmarks\<close>

text \<open>Any failure of the look-up, a database error too, is answered 404.\<close>

definition bookmark_clip :: "'y server_env_scheme \<Rightarrow> auth_user \<Rightarrow> int \<Rightarrow> 'z pool_scheme \<Rightarrow> response \<times> 'z pool_scheme" where
  "bookmark_clip env auth i w = with_pool env w (\<lambda>w. case fetch_live_clip env i w of
     (Inl _, w) \<Rightarrow> (problem 404 ''clip not found'' (''no live clip '' @ show_int i), w)
   | (Inr _, w) \<Rightarrow> or_500 env (exec (bookmark_add i (ac_id (au_actor auth))) w) (\<lambda>_ w.
       (reply 200 (JObj [(''bookmarked'', JBool True)]), w)))"

definition unbookmark_clip :: "'y server_env_scheme \<Rightarrow> auth_user \<Rightarrow> int \<Rightarrow> 'z pool_scheme \<Rightarrow> response \<times> 'z pool_scheme" where
  "unbookmark_clip env auth i w = with_pool env w (\<lambda>w.
     or_500 env (exec (bookmark_remove i (ac_id (au_actor auth))) w) (\<lambda>_ w.
       (reply 200 (JObj [(''bookmarked'', JBool False)]), w)))"

section \<open>Comments\<close>

record comment_row =
  cr_id :: int
  cr_body_html :: string
  cr_created_at :: timestamp
  cr_username :: string
  cr_domain :: "string option"

definition comment_rows :: "int \<Rightarrow> db \<Rightarrow> comment_row list" where
  "comment_rows clip_id d = [\<lparr>cr_id = cm_id c, cr_body_html = cm_body_html c, cr_created_at = cm_created_at c,
     cr_username = ac_username a, cr_domain = ac_domain a\<rparr>.
     c \<leftarrow> comments d, cm_clip_id c = clip_id \<and> cm_deleted_at c = None, a \<leftarrow> actors d, ac_id a = cm_actor_id c]"

definition comment_key :: "comment_row \<Rightarrow> keyset" where
  "comment_key r = (cr_created_at r, cr_id r)"

definition after_cursor :: "keyset option \<Rightarrow> comment_row \<Rightarrow> bool" where
  "after_cursor cur r = (case cur of None \<Rightarrow> True | Some c \<Rightarrow> c < comment_key r)"

text \<open>Oldest first.\<close>

definition comment_page :: "int \<Rightarrow> keyset option \<Rightarrow> int \<Rightarrow> comment_row list stmt" where
  "comment_page clip_id cur n = (\<lambda>t d.
     case limit_rows n (sort_key comment_key (filter (after_cursor cur) (comment_rows clip_id d))) of
       Inl e \<Rightarrow> Inl e | Inr rs \<Rightarrow> Inr (rs, d))"

definition comment_json :: "(timestamp \<Rightarrow> string) \<Rightarrow> comment_row \<Rightarrow> json" where
  "comment_json rfc3339 r = JObj [(''id'', JInt (cr_id r)), (''body_html'', JStr (cr_body_html r)),
     (''created_at'', JStr (rfc3339 (cr_created_at r))),
     (''author'', JObj [(''username'', JStr (cr_username r)), (''domain'', opt_json JStr (cr_domain r))])]"

definition list_comments :: "'y api_env_scheme \<Rightarrow> int \<Rightarrow> feed_params \<Rightarrow> 'z pool_scheme \<Rightarrow> response \<times> 'z pool_scheme" where
  "list_comments env i params w = with_pool env w (\<lambda>w.
     case cursor_keyset (ap_time_ok env) params of
       Inl resp \<Rightarrow> (resp, w)
     | Inr (after_created_at, after_id) \<Rightarrow>
         or_500 env (exec (comment_page i (opt_zip after_created_at after_id) (page_limit 50 100 params)) w) (\<lambda>rows w.
           (reply 200 (JObj [(''items'', JArr (map (comment_json (sv_rfc3339 env)) rows)),
              (''next_cursor'', next_cursor comment_key rows (page_limit 50 100 params))]), w)))"

definition comment_max_chars :: nat where
  "comment_max_chars = 1000"

text \<open>\<^verbatim>\<open>chars().count()\<close>: the bytes that do not continue a character.\<close>

definition char_count :: "string \<Rightarrow> nat" where
  "char_count s = length (filter (\<lambda>c. \<not> (128 \<le> code c \<and> code c < 192)) s)"

text \<open>The comment as it is stored, or the refusal.\<close>

definition comment_text :: "string \<Rightarrow> response + string" where
  "comment_text body =
     (let text = trim (strip_html_tags body) in
      if text = [] then Inl (problem 400 ''empty comment'' ''comment body is required'')
      else if char_count text > comment_max_chars
      then Inl (problem 400 ''comment too long'' (''comment body must be at most '' @ show_nat comment_max_chars @ '' characters''))
      else Inr text)"

definition comment_ap_id :: "string \<Rightarrow> int \<Rightarrow> string" where
  "comment_ap_id base i = base @ ''/comments/'' @ show_int i"

text \<open>\<^verbatim>\<open>Uuid::new_v4\<close> draws from the random generator.\<close>

definition store_comment ::
  "'y api_env_scheme \<Rightarrow> auth_user \<Rightarrow> clip \<Rightarrow> string \<Rightarrow> 'z web_world_scheme \<Rightarrow> response \<times> 'z web_world_scheme" where
  "store_comment env auth clip text w =
     (let placeholder = ''https://toottok.local/comments/'' @ ap_uuid env (ww_draws w);
          w = w\<lparr>ww_draws := Suc (ww_draws w)\<rparr>; viewer = ac_id (au_actor auth) in
      or_500 env (exec (comment_create (cl_id clip) viewer None placeholder text) w) (\<lambda>comment w.
      or_500 env (exec (comment_set_ap_id (cm_id comment) (comment_ap_id (sv_base_url env) (cm_id comment))) w) (\<lambda>_ w.
      or_500 env (exec (count_comments (cl_id clip) (\<lambda>n. n + 1)) w) (\<lambda>_ w.
      notify_author env N_Comment viewer clip
        (reply 201 (JObj [(''id'', JInt (cm_id comment)), (''body_html'', JStr (cm_body_html comment))])) w))))"

definition create_comment ::
  "'y api_env_scheme \<Rightarrow> auth_user \<Rightarrow> int \<Rightarrow> string \<Rightarrow> 'z web_world_scheme \<Rightarrow> response \<times> 'z web_world_scheme" where
  "create_comment env auth i body w = with_pool env w (\<lambda>w.
     or_answer (fetch_live_clip env i w) (\<lambda>clip w.
     if cl_comments_disabled clip
     then (problem 403 ''comments disabled'' (''clip '' @ show_int i @ '' does not accept comments''), w)
     else case comment_text body of Inl resp \<Rightarrow> (resp, w) | Inr text \<Rightarrow> store_comment env auth clip text w))"

text \<open>\<^verbatim>\<open>UPDATE comments SET deleted_at = now(), body_html = '[deleted]' WHERE id = $1 AND deleted_at IS NULL\<close>.\<close>

definition live_comment :: "int \<Rightarrow> comment \<Rightarrow> bool" where
  "live_comment i c \<longleftrightarrow> cm_id c = i \<and> cm_deleted_at c = None"

definition comment_bury :: "int \<Rightarrow> bool stmt" where
  "comment_bury i = (\<lambda>t d. Inr (list_ex (live_comment i) (comments d), d\<lparr>comments := update_where (live_comment i)
     (\<lambda>c. c\<lparr>cm_deleted_at := Some t, cm_body_html := ''[deleted]''\<rparr>) (comments d)\<rparr>))"

definition delete_comment :: "'y server_env_scheme \<Rightarrow> auth_user \<Rightarrow> int \<Rightarrow> 'z pool_scheme \<Rightarrow> response \<times> 'z pool_scheme" where
  "delete_comment env auth i w = with_pool env w (\<lambda>w.
     or_500 env (exec (comment_fetch_by_id i) w) (\<lambda>found w.
     case opt_filter (\<lambda>c. cm_deleted_at c = None) found of
       None \<Rightarrow> (problem 404 ''comment not found'' (''no live comment with id '' @ show_int i), w)
     | Some comment \<Rightarrow>
         if cm_actor_id comment \<noteq> ac_id (au_actor auth) \<and> \<not> us_is_admin (au_user auth)
         then (problem 403 ''forbidden'' ''only the comment author or an admin may delete a comment'', w)
         else or_500 env (exec (comment_bury i) w) (\<lambda>removed w.
           let resp = reply 200 (JObj [(''deleted'', JBool True), (''id'', JInt i)]) in
           if \<not> removed then (resp, w)
           else or_500 env (exec (count_comments (cm_clip_id comment) (\<lambda>n. max (n - 1) 0)) w) (\<lambda>_ w. (resp, w)))))"

section \<open>Notifications\<close>

fun kind_name :: "notification_kind \<Rightarrow> string" where
  "kind_name N_Follow = ''follow''"
| "kind_name N_Like = ''like''"
| "kind_name N_Comment = ''comment''"
| "kind_name N_Mention = ''mention''"
| "kind_name N_Boost = ''boost''"

definition notification_rows :: "int \<Rightarrow> db \<Rightarrow> (notification \<times> actor) list" where
  "notification_rows actor_id d = [(n, a). n \<leftarrow> notifications d, nt_actor_id n = actor_id, a \<leftarrow> actors d, ac_id a = nt_source_actor_id n]"

definition notification_key :: "notification \<times> actor \<Rightarrow> keyset" where
  "notification_key r = (nt_created_at (fst r), nt_id (fst r))"

definition notification_page :: "int \<Rightarrow> timestamp option \<Rightarrow> int option \<Rightarrow> int \<Rightarrow> (notification \<times> actor) list stmt" where
  "notification_page actor_id = keyset_page notification_key (notification_rows actor_id)"

definition notification_json :: "(timestamp \<Rightarrow> string) \<Rightarrow> notification \<times> actor \<Rightarrow> json" where
  "notification_json rfc3339 r = (case r of (n, a) \<Rightarrow> JObj [(''id'', JInt (nt_id n)), (''kind'', JStr (kind_name (nt_kind n))),
     (''source'', JObj [(''username'', JStr (ac_username a)), (''avatar_path'', opt_json JStr (ac_avatar_path a))]),
     (''clip_id'', opt_json JInt (nt_clip_id n)), (''read_at'', opt_json (\<lambda>t. JStr (rfc3339 t)) (nt_read_at n)),
     (''created_at'', JStr (rfc3339 (nt_created_at n)))])"

definition list_notifications :: "'y api_env_scheme \<Rightarrow> auth_user \<Rightarrow> feed_params \<Rightarrow> 'z pool_scheme \<Rightarrow> response \<times> 'z pool_scheme" where
  "list_notifications env auth params w = with_pool env w (\<lambda>w.
     case cursor_keyset (ap_time_ok env) params of
       Inl resp \<Rightarrow> (resp, w)
     | Inr (before_created_at, before_id) \<Rightarrow>
         or_500 env (exec (notification_page (ac_id (au_actor auth)) before_created_at before_id (page_limit 30 50 params)) w) (\<lambda>rows w.
           (reply 200 (JObj [(''items'', JArr (map (notification_json (sv_rfc3339 env)) rows)),
              (''next_cursor'', next_cursor notification_key rows (page_limit 30 50 params))]), w)))"

definition unread_of :: "int \<Rightarrow> int list option \<Rightarrow> notification \<Rightarrow> bool" where
  "unread_of actor_id ids n \<longleftrightarrow> nt_actor_id n = actor_id \<and> nt_read_at n = None \<and>
     (case ids of Some (i # is) \<Rightarrow> nt_id n \<in> set (i # is) | _ \<Rightarrow> True)"

definition notifications_mark_read :: "int \<Rightarrow> int list option \<Rightarrow> nat stmt" where
  "notifications_mark_read actor_id ids = (\<lambda>t d. Inr (length (filter (unread_of actor_id ids) (notifications d)),
     d\<lparr>notifications := update_where (unread_of actor_id ids) (\<lambda>n. n\<lparr>nt_read_at := Some t\<rparr>) (notifications d)\<rparr>))"

definition mark_read :: "'y server_env_scheme \<Rightarrow> auth_user \<Rightarrow> int list option \<Rightarrow> 'z pool_scheme \<Rightarrow> response \<times> 'z pool_scheme" where
  "mark_read env auth ids w = with_pool env w (\<lambda>w.
     or_500 env (exec (notifications_mark_read (ac_id (au_actor auth)) ids) w) (\<lambda>n w.
       (reply 200 (JObj [(''updated'', JInt (int n))]), w)))"

section \<open>What a counted table promises\<close>

text \<open>Every clip counts the rows of the table that name it, and an actor has at most one row per clip.\<close>

definition row_count :: "reaction_table \<Rightarrow> int \<Rightarrow> db \<Rightarrow> int" where
  "row_count tab i d = int (length (filter (\<lambda>r. re_clip_id r = i) (rt_rows tab d)))"

definition counted :: "reaction_table \<Rightarrow> db \<Rightarrow> bool" where
  "counted tab d \<longleftrightarrow> list_all (\<lambda>c. rt_count tab c = row_count tab (cl_id c) d) (clips d) \<and>
     distinct (map (\<lambda>r. (re_clip_id r, re_actor_id r)) (rt_rows tab d)) \<and> distinct (map cl_id (clips d))"

definition notified :: "notification \<Rightarrow> db \<Rightarrow> db" where
  "notified n d = d\<lparr>notifications := notifications d @ [n], next_id := next_id d + 1\<rparr>"

definition maybe_notified :: "db \<Rightarrow> db \<Rightarrow> bool" where
  "maybe_notified d d' \<longleftrightarrow> d' = d \<or> (\<exists>n. d' = notified n d)"

lemma maybe_notified_intros [simp, intro]: "maybe_notified d d" "maybe_notified d (notified n d)"
  by (auto simp: maybe_notified_def)

definition recount :: "reaction_table \<Rightarrow> int \<Rightarrow> (int \<Rightarrow> int) \<Rightarrow> timestamp \<Rightarrow> db \<Rightarrow> db" where
  "recount tab i f t d = d\<lparr>clips := update_where (live_clip i) (\<lambda>c. (rt_set_count tab f c)\<lparr>cl_updated_at := t\<rparr>) (clips d)\<rparr>"

lemma clips_notified [simp]: "clips (notified n d) = clips d"
  by (simp add: notified_def)

lemma count_live_apply: "\<exists>n. count_live tab i f t d = Inr (n, recount tab i f t d)"
  by (simp add: count_live_def count_clips_def recount_def)

lemma notify_stmt_apply: "notify_stmt a k s c t d = Inr ((), d') \<Longrightarrow> \<exists>n. d' = notified n d"
  by (auto simp: notify_stmt_def notified_def split: if_splits)

lemma notify_author_db:
  assumes "link w = all_up" and "notify_author env kind viewer clip resp w = (resp', w')"
  shows "link w' = all_up" and "maybe_notified (db w) (db w')"
  using assms notify_stmt_apply [of "cl_actor_id clip" kind viewer "cl_id clip" "now w" "db w"]
  by (cases "notify_stmt (cl_actor_id clip) kind viewer (cl_id clip) (now w) (db w)";
      auto simp: notify_author_def or_500_def exec_up split: if_splits)+

lemma fetch_live_clip_up:
  assumes "link w = all_up" and "fetch_live_clip env i w = (r, w')"
  shows "w' = w\<lparr>ticks := Suc (ticks w)\<rparr>" and "r = Inr c \<Longrightarrow> c \<in> set (clips (db w)) \<and> live_clip i c"
  using assms by (auto simp: fetch_live_clip_def exec_up clip_fetch_by_id_def select_def live_clip_def
    dest!: fetch_optional_Some_mem split: option.splits if_splits)

text \<open>What a reaction does to the tables.\<close>

lemma react_db:
  assumes "link w = all_up" and "react tab env auth i w = (resp, w')"
  shows "link w' = all_up \<and> (db w' = db w \<or> (\<exists>r t d1. (\<exists>c \<in> set (clips (db w)). live_clip i c) \<and>
     \<not> list_ex (reaction_at i (ac_id (au_actor auth))) (rt_rows tab (db w)) \<and> reaction_at i (ac_id (au_actor auth)) r \<and>
     d1 = recount tab i (\<lambda>n. n + 1) t (rt_put tab (rt_rows tab (db w) @ [r]) (db w)) \<and>
     maybe_notified d1 (db w')))"
proof (cases "sv_has_pool env")
  case True
  let ?a = "ac_id (au_actor auth)"
  obtain found w1 where fetch: "fetch_live_clip env i w = (found, w1)" by fastforce
  note w1 = fetch_live_clip_up [OF assms(1) fetch]
  show ?thesis
  proof (cases found)
    case (Inl _)
    then show ?thesis using assms True w1 fetch by (auto simp: react_def with_pool_def or_answer_def)
  next
    case (Inr clip)
    have rest: "or_500 env (exec (reaction_add tab i ?a) w1) (\<lambda>inserted w.
        if \<not> inserted then (reaction_state tab True (rt_count tab clip), w)
        else or_500 env (exec (count_live tab i (\<lambda>n. n + 1)) w) (\<lambda>count w. case count of
            None \<Rightarrow> (no_live_clip i, w)
          | Some n \<Rightarrow> notify_author env (rt_kind tab) ?a clip (reaction_state tab True n) w)) = (resp, w')"
      using assms(2) True fetch Inr by (simp add: react_def with_pool_def or_answer_def)
    have up: "link w1 = all_up" "db w1 = db w" using assms(1) w1(1) by simp_all
    show ?thesis
    proof (cases "reaction_add tab i ?a (now w1) (db w1)")
      case (Inl e)
      with rest up show ?thesis by (auto simp: or_500_def exec_up)
    next
      case (Inr r)
      then obtain added d where add: "reaction_add tab i ?a (now w1) (db w1) = Inr (added, d)" by (cases r) simp
      show ?thesis
      proof (cases added)
        case True
        then obtain r where r: "d = rt_put tab (rt_rows tab (db w) @ [r]) (db w)" "reaction_at i ?a r"
            "\<not> list_ex (reaction_at i ?a) (rt_rows tab (db w))"
          using add up by (auto simp: reaction_add_def reaction_at_def split: if_splits)
        define w2 where "w2 = w1\<lparr>ticks := Suc (ticks w1), db := d\<rparr>"
        have up2: "link w2 = all_up" "db w2 = d" "exec (reaction_add tab i ?a) w1 = (Inr added, w2)"
          using up add by (simp_all add: w2_def exec_up)
        define w3 where "w3 = w2\<lparr>ticks := Suc (ticks w2), db := recount tab i (\<lambda>n. n + 1) (now w2) d\<rparr>"
        obtain n where n: "exec (count_live tab i (\<lambda>n. n + 1)) w2 = (Inr n, w3)"
          using count_live_apply [of tab i "\<lambda>n. n + 1" "now w2" d] up2 by (auto simp: exec_up w3_def)
        have up3: "link w3 = all_up" using up2 by (simp add: w3_def)
        have "(case n of None \<Rightarrow> (no_live_clip i, w3)
            | Some n \<Rightarrow> notify_author env (rt_kind tab) ?a clip (reaction_state tab True n) w3) = (resp, w')"
          using rest True up2(3) n by (simp add: or_500_def)
        then have "link w' = all_up \<and> maybe_notified (db w3) (db w')"
        proof (cases n)
          case None
          then show ?thesis using \<open>(case n of None \<Rightarrow> _ | Some n \<Rightarrow> _) = (resp, w')\<close> up3 by simp
        next
          case (Some m)
          then have "notify_author env (rt_kind tab) ?a clip (reaction_state tab True m) w3 = (resp, w')"
            using \<open>(case n of None \<Rightarrow> _ | Some n \<Rightarrow> _) = (resp, w')\<close> by simp
          from notify_author_db [OF up3 this] show ?thesis by simp
        qed
        moreover have "db w3 = recount tab i (\<lambda>n. n + 1) (now w2) (rt_put tab (rt_rows tab (db w) @ [r]) (db w))"
          using r(1) by (simp add: w3_def)
        moreover have "\<exists>c \<in> set (clips (db w)). live_clip i c" using w1(2) \<open>found = Inr clip\<close> by blast
        ultimately show ?thesis using r(2,3) by blast
      qed (use rest add up in \<open>auto simp: or_500_def exec_up reaction_add_def split: if_splits\<close>)
    qed
  qed
qed (use assms in \<open>simp add: react_def with_pool_def\<close>)

lemma unreact_db:
  assumes "link w = all_up" and "unreact tab env auth i w = (resp, w')"
  shows "link w' = all_up \<and> (db w' = db w \<or> (\<exists>t. (\<exists>c \<in> set (clips (db w)). live_clip i c) \<and>
     (let rs = delete_where (reaction_at i (ac_id (au_actor auth))) (rt_rows tab (db w)) in
       if list_ex (reaction_at i (ac_id (au_actor auth))) (rt_rows tab (db w))
       then db w' = recount tab i (\<lambda>n. max (n - 1) 0) t (rt_put tab rs (db w)) else db w' = rt_put tab rs (db w))))"
proof (cases "sv_has_pool env")
  case True
  let ?a = "ac_id (au_actor auth)"
  let ?rs = "delete_where (reaction_at i ?a) (rt_rows tab (db w))"
  obtain found w1 where fetch: "fetch_live_clip env i w = (found, w1)" by fastforce
  note w1 = fetch_live_clip_up [OF assms(1) fetch]
  show ?thesis
  proof (cases found)
    case (Inl _)
    then show ?thesis using assms True w1 fetch by (auto simp: unreact_def with_pool_def or_answer_def)
  next
    case (Inr clip)
    have live: "\<exists>c \<in> set (clips (db w)). live_clip i c" using w1(2) Inr by blast
    have up: "link w1 = all_up" "db w1 = db w" using assms(1) w1(1) by simp_all
    define w2 where "w2 = w1\<lparr>ticks := Suc (ticks w1), db := rt_put tab ?rs (db w)\<rparr>"
    have removed: "exec (reaction_remove tab i ?a) w1 = (Inr (list_ex (reaction_at i ?a) (rt_rows tab (db w))), w2)"
      using up by (simp add: exec_up reaction_remove_def w2_def)
    have up2: "link w2 = all_up" "db w2 = rt_put tab ?rs (db w)" using up by (simp_all add: w2_def)
    obtain n where n: "exec (count_live tab i (\<lambda>n. max (n - 1) 0)) w2 =
        (Inr n, w2\<lparr>ticks := Suc (ticks w2), db := recount tab i (\<lambda>n. max (n - 1) 0) (now w2) (db w2)\<rparr>)"
      using count_live_apply [of tab i "\<lambda>n. max (n - 1) 0" "now w2" "db w2"] up2 by (auto simp: exec_up)
    have "link w' = all_up" and "if list_ex (reaction_at i ?a) (rt_rows tab (db w))
        then db w' = recount tab i (\<lambda>n. max (n - 1) 0) (now w2) (rt_put tab ?rs (db w)) else db w' = rt_put tab ?rs (db w)"
      using assms(2) True fetch Inr removed n up2 by (auto simp: unreact_def with_pool_def or_answer_def or_500_def split: if_splits)
    with live show ?thesis unfolding Let_def by blast
  qed
qed (use assms in \<open>simp add: unreact_def with_pool_def\<close>)

lemma filter_other_keys:
  assumes "distinct (map k (xs @ r # ys))"
  shows "filter (\<lambda>s. k s \<noteq> k r) (xs @ ys) = xs @ ys"
proof -
  have "k s \<noteq> k r" if "s \<in> set (xs @ ys)" for s
    using assms that by (auto simp: image_iff)
  then show ?thesis by (simp add: filter_id_conv)
qed

text \<open>The laws: the table and the counter are read back as written, and neither reaches the \<open>others\<close>.\<close>

locale counted_table =
  fixes tab :: reaction_table and others :: "db \<Rightarrow> bool"
  assumes rows_put: "rt_rows tab (rt_put tab rs d) = rs"
    and clips_put: "clips (rt_put tab rs d) = clips d"
    and rows_recount: "rt_rows tab (recount tab i f t d) = rt_rows tab d"
    and rows_notified: "rt_rows tab (notified n d) = rt_rows tab d"
    and count_set: "rt_count tab ((rt_set_count tab f c)\<lparr>cl_updated_at := t\<rparr>) = f (rt_count tab c)"
    and id_set: "cl_id ((rt_set_count tab f c)\<lparr>cl_updated_at := t\<rparr>) = cl_id c"
    and others_put: "others d \<Longrightarrow> others (rt_put tab rs d)"
    and others_recount: "others d \<Longrightarrow> others (recount tab i f t d)"
    and others_notified: "others d \<Longrightarrow> others (notified n d)"
begin

definition well :: "db \<Rightarrow> bool" where
  "well d \<longleftrightarrow> counted tab d \<and> others d"

lemma well_notified: "well d \<Longrightarrow> maybe_notified d d' \<Longrightarrow> well d'"
  by (auto simp: well_def maybe_notified_def counted_def row_count_def rows_notified others_notified)

text \<open>Changing the rows of one live clip and its counter by the same amount keeps the counts.\<close>

lemma well_recount:
  assumes "well d" and "\<exists>c \<in> set (clips d). live_clip i c"
    and "distinct (map (\<lambda>r. (re_clip_id r, re_actor_id r)) rs)"
    and "\<And>j. j \<noteq> i \<Longrightarrow> length (filter (\<lambda>r. re_clip_id r = j) rs) = length (filter (\<lambda>r. re_clip_id r = j) (rt_rows tab d))"
    and "f (row_count tab i d) = int (length (filter (\<lambda>r. re_clip_id r = i) rs))"
  shows "well (recount tab i f t (rt_put tab rs d))"
proof -
  let ?d = "recount tab i f t (rt_put tab rs d)" and ?g = "\<lambda>c. (rt_set_count tab f c)\<lparr>cl_updated_at := t\<rparr>"
  have rows: "rt_rows tab ?d = rs" by (simp add: rows_recount rows_put)
  have clips: "clips ?d = update_where (live_clip i) ?g (clips d)" by (simp add: recount_def clips_put)
  obtain c0 where c0: "c0 \<in> set (clips d)" "cl_id c0 = i" "cl_deleted_at c0 = None"
    using assms(2) by (auto simp: live_clip_def)
  have d: "distinct (map cl_id (clips d))" "\<And>c. c \<in> set (clips d) \<Longrightarrow> rt_count tab c = row_count tab (cl_id c) d"
    using assms(1) by (auto simp: well_def counted_def list_all_iff)
  have "rt_count tab c' = row_count tab (cl_id c') ?d" if "c' \<in> set (clips ?d)" for c'
  proof -
    obtain c where c: "c \<in> set (clips d)" "c' = (if live_clip i c then ?g c else c)"
      using \<open>c' \<in> set (clips ?d)\<close> by (auto simp: clips set_update_where)
    show ?thesis
    proof (cases "cl_id c = i")
      case True
      then have "c = c0" using d(1) c(1) c0(1,2) by (metis distinct_map inj_onD)
      then have "c' = ?g c" using c(2) c0 by (simp add: live_clip_def)
      with True c(1) d(2) assms(5) show ?thesis by (simp add: count_set id_set row_count_def rows)
    next
      case False
      with c assms(4) [OF False] d(2) show ?thesis by (simp add: live_clip_def row_count_def rows)
    qed
  qed
  moreover have "map cl_id (clips ?d) = map cl_id (clips d)"
    unfolding clips by (intro map_update_where) (simp add: id_set)
  ultimately show ?thesis
    using assms(1,3) d(1) by (simp add: well_def counted_def list_all_iff rows others_recount others_put)
qed

lemma react_keeps_counts:
  assumes "link w = all_up" and "well (db w)" and "react tab env auth i w = (resp, w')"
  shows "link w' = all_up \<and> well (db w')"
proof -
  let ?at = "reaction_at i (ac_id (au_actor auth))" and ?rs = "rt_rows tab (db w)"
  have "well (recount tab i (\<lambda>n. n + 1) t (rt_put tab (?rs @ [r]) (db w)))"
    if "\<exists>c \<in> set (clips (db w)). live_clip i c" "\<not> list_ex ?at ?rs" "?at r" for r t
    using assms(2) that
    by (intro well_recount) (auto simp: well_def counted_def row_count_def reaction_at_def list_ex_iff)
  note added = this
  from react_db [OF assms(1,3)] have up: "link w' = all_up"
    and "db w' = db w \<or> (\<exists>d1. well d1 \<and> maybe_notified d1 (db w'))"
    by (auto intro: added)
  with assms(2) show ?thesis by (auto intro: well_notified)
qed

text \<open>Deleting the row of a pair removes exactly one row.\<close>

lemma unreact_keeps_counts:
  assumes "link w = all_up" and "well (db w)" and "unreact tab env auth i w = (resp, w')"
  shows "link w' = all_up \<and> well (db w')"
proof -
  let ?a = "ac_id (au_actor auth)" and ?rs = "rt_rows tab (db w)"
  let ?rs' = "delete_where (reaction_at i ?a) ?rs"
  have distinct: "distinct (map (\<lambda>r. (re_clip_id r, re_actor_id r)) ?rs)"
    using assms(2) by (simp add: well_def counted_def)
  then have distinct': "distinct (map (\<lambda>r. (re_clip_id r, re_actor_id r)) ?rs')"
    by (simp add: delete_where_def distinct_map_filter)
  have others: "length (filter (\<lambda>r. re_clip_id r = j) ?rs') = length (filter (\<lambda>r. re_clip_id r = j) ?rs)" if "j \<noteq> i" for j
    using that by (simp add: delete_where_def reaction_at_def conj_commute) (metis (mono_tags, lifting) filter_cong)
  have "well (recount tab i (\<lambda>n. max (n - 1) 0) t (rt_put tab ?rs' (db w)))"
    if "\<exists>c \<in> set (clips (db w)). live_clip i c" "list_ex (reaction_at i ?a) ?rs" for t
  proof (rule well_recount [OF assms(2) that(1) distinct' others])
    from that(2) obtain xs r ys where rows: "?rs = xs @ r # ys" and "reaction_at i ?a r"
      by (auto simp: list_ex_iff dest: split_list)
    then have "filter (\<lambda>r. \<not> reaction_at i ?a r) (xs @ ys) = xs @ ys"
      using filter_other_keys [of "\<lambda>r. (re_clip_id r, re_actor_id r)" xs r ys] distinct by (simp add: reaction_at_def)
    with rows \<open>reaction_at i ?a r\<close> show "max (row_count tab i (db w) - 1) 0 = int (length (filter (\<lambda>r. re_clip_id r = i) ?rs'))"
      by (simp add: row_count_def delete_where_def reaction_at_def)
  qed
  moreover have "well (rt_put tab ?rs' (db w))" if "\<not> list_ex (reaction_at i ?a) ?rs"
    using that assms(2) by (simp add: well_def counted_def row_count_def rows_put clips_put others_put delete_where_def
        list_ex_iff filter_id_conv)
  moreover from unreact_db [OF assms(1,3)] have "link w' = all_up" by simp
  moreover from unreact_db [OF assms(1,3)] obtain t where "db w' = db w \<or> (\<exists>c \<in> set (clips (db w)). live_clip i c) \<and>
      (if list_ex (reaction_at i ?a) ?rs then db w' = recount tab i (\<lambda>n. max (n - 1) 0) t (rt_put tab ?rs' (db w))
       else db w' = rt_put tab ?rs' (db w))"
    unfolding Let_def by blast
  ultimately show ?thesis
    using assms(2) by (cases "list_ex (reaction_at i ?a) ?rs") (simp only: if_True if_False, metis)+
qed

end

section \<open>What the comments promise\<close>

definition live_comments :: "int \<Rightarrow> db \<Rightarrow> int" where
  "live_comments i d = int (length (filter (\<lambda>c. cm_clip_id c = i \<and> cm_deleted_at c = None) (comments d)))"

definition comments_exact :: "db \<Rightarrow> bool" where
  "comments_exact d \<longleftrightarrow> list_all (\<lambda>c. cl_comment_count c = live_comments (cl_id c) d) (clips d)"

text \<open>Comment ids are given out once, and no comment holds the canonical id of a later one.\<close>

definition comment_ids_ok :: "string \<Rightarrow> db \<Rightarrow> bool" where
  "comment_ids_ok base d \<longleftrightarrow> 0 \<le> next_id d \<and> distinct (map cm_id (comments d)) \<and> distinct (map cm_ap_id (comments d)) \<and>
     list_all (\<lambda>c. cm_id c < next_id d) (comments d) \<and>
     (\<forall>i \<ge> next_id d. comment_ap_id base i \<notin> set (map cm_ap_id (comments d)))"

definition comments_ok :: "string \<Rightarrow> db \<Rightarrow> bool" where
  "comments_ok base d \<longleftrightarrow> comments_exact d \<and> comment_ids_ok base d \<and> distinct (map cl_id (clips d))"

definition reactions_ok :: "db \<Rightarrow> bool" where
  "reactions_ok d \<longleftrightarrow> counted likes_table d \<and> counted announces_table d"

definition social_ok :: "string \<Rightarrow> db \<Rightarrow> bool" where
  "social_ok base d \<longleftrightarrow> reactions_ok d \<and> comments_ok base d"

lemma table_simps [simp]:
  "rt_rows likes_table = likes" "rt_rows announces_table = announces"
  "rt_count likes_table = cl_like_count" "rt_count announces_table = cl_share_count"
  "rt_set_count likes_table = cl_like_count_update" "rt_set_count announces_table = cl_share_count_update"
  "rt_put likes_table rs d = d\<lparr>likes := rs\<rparr>" "rt_put announces_table rs d = d\<lparr>announces := rs\<rparr>"
  by (simp_all add: likes_table_def announces_table_def)

lemma recount_frame [simp]:
  "likes (recount tab i f t d) = likes d" "announces (recount tab i f t d) = announces d"
  "comments (recount tab i f t d) = comments d" "next_id (recount tab i f t d) = next_id d"
  by (simp_all add: recount_def)

lemma notified_frame [simp]:
  "likes (notified n d) = likes d" "announces (notified n d) = announces d" "comments (notified n d) = comments d"
  "next_id (notified n d) = next_id d + 1"
  by (simp_all add: notified_def)

text \<open>A change of another counter column leaves the counts of a table alone.\<close>

lemma counted_frame:
  assumes "rt_rows tab d' = rt_rows tab d" and "clips d' = update_where P f (clips d)"
    and "\<And>c. cl_id (f c) = cl_id c" and "\<And>c. rt_count tab (f c) = rt_count tab c"
  shows "counted tab d' = counted tab d"
  using assms by (simp add: counted_def row_count_def list_all_update_where map_update_where)

lemma comments_exact_frame:
  assumes "comments d' = comments d" and "clips d' = update_where P f (clips d)"
    and "\<And>c. cl_id (f c) = cl_id c" and "\<And>c. cl_comment_count (f c) = cl_comment_count c"
  shows "comments_exact d' = comments_exact d" and "distinct (map cl_id (clips d')) = distinct (map cl_id (clips d))"
  using assms by (simp_all add: comments_exact_def live_comments_def list_all_update_where map_update_where)

lemma comment_ids_frame:
  "comments d' = comments d \<Longrightarrow> next_id d \<le> next_id d' \<Longrightarrow> comment_ids_ok base d \<Longrightarrow> comment_ids_ok base d'"
  by (auto simp: comment_ids_ok_def list_all_iff)

lemma comments_ok_put [simp]:
  "comments_ok base (d\<lparr>likes := rs\<rparr>) = comments_ok base d" "comments_ok base (d\<lparr>announces := rs\<rparr>) = comments_ok base d"
  by (simp_all add: comments_ok_def comments_exact_def live_comments_def comment_ids_ok_def)

lemma comments_ok_notified: "comments_ok base d \<Longrightarrow> comments_ok base (notified n d)"
  using comment_ids_frame [of "notified n d" d base]
  by (simp add: comments_ok_def comments_exact_def live_comments_def)

lemma comments_ok_recount:
  assumes "comments_ok base d" and "tab \<in> {likes_table, announces_table}"
  shows "comments_ok base (recount tab i f t d)"
  using assms comments_exact_frame [of "recount tab i f t d" d "live_clip i" "\<lambda>c. (rt_set_count tab f c)\<lparr>cl_updated_at := t\<rparr>"]
    comment_ids_frame [of "recount tab i f t d" d base]
  by (auto simp: comments_ok_def recount_def)

lemma counted_others:
  "counted likes_table (recount announces_table i f t d) = counted likes_table d"
  "counted announces_table (recount likes_table i f t d) = counted announces_table d"
  using counted_frame [of likes_table "recount announces_table i f t d" d "live_clip i" "\<lambda>c. (cl_share_count_update f c)\<lparr>cl_updated_at := t\<rparr>"]
    counted_frame [of announces_table "recount likes_table i f t d" d "live_clip i" "\<lambda>c. (cl_like_count_update f c)\<lparr>cl_updated_at := t\<rparr>"]
  by (simp_all add: recount_def)

lemma counted_put [simp]:
  "counted likes_table (d\<lparr>announces := rs\<rparr>) = counted likes_table d"
  "counted announces_table (d\<lparr>likes := rs\<rparr>) = counted announces_table d"
  by (simp_all add: counted_def row_count_def)

lemma counted_notified: "tab \<in> {likes_table, announces_table} \<Longrightarrow> counted tab (notified n d) = counted tab d"
  by (auto simp: counted_def row_count_def)

interpretation like_table: counted_table likes_table "\<lambda>d. counted announces_table d \<and> comments_ok base d" for base
  by unfold_locales (auto simp: counted_others counted_notified comments_ok_notified intro: comments_ok_recount)

interpretation announce_table: counted_table announces_table "\<lambda>d. counted likes_table d \<and> comments_ok base d" for base
  by unfold_locales (auto simp: counted_others counted_notified comments_ok_notified intro: comments_ok_recount)

section \<open>The counters stay exact\<close>

lemma show_nat_inj: "show_nat m = show_nat n \<Longrightarrow> m = n"
  by (metis digits_show_nat of_nat_eq_iff)

lemma comment_ap_id_inj: "0 \<le> i \<Longrightarrow> 0 \<le> j \<Longrightarrow> comment_ap_id base i = comment_ap_id base j \<Longrightarrow> i = j"
  by (auto simp: comment_ap_id_def show_int_def dest: show_nat_inj)

text \<open>The first two statements of a new comment, taken together.\<close>

lemma comment_create_InrD:
  assumes "comment_create clip_id a None ap_id body t d = Inr (c, d')"
  shows "d' = d\<lparr>comments := comments d @ [c], next_id := next_id d + 1\<rparr>" and "cm_id c = next_id d"
    and "cm_clip_id c = clip_id" and "cm_deleted_at c = None"
  using assms by (auto simp: comment_create_def Let_def split: if_splits)

lemma canonical_comment:
  assumes "comment_ids_ok base d" and "comment_create clip_id a None ap_id body t d = Inr (c, d')"
  shows "comment_set_ap_id (cm_id c) (comment_ap_id base (cm_id c)) t' d' =
    Inr ((), d'\<lparr>comments := comments d @ [c\<lparr>cm_ap_id := comment_ap_id base (cm_id c)\<rparr>]\<rparr>)"
    and "comment_ids_ok base (d'\<lparr>comments := comments d @ [c\<lparr>cm_ap_id := comment_ap_id base (cm_id c)\<rparr>]\<rparr>)"
proof -
  let ?c = "c\<lparr>cm_ap_id := comment_ap_id base (cm_id c)\<rparr>"
  note new = comment_create_InrD [OF assms(2)]
  have old: "update_where (\<lambda>c. cm_id c = next_id d) f (comments d) = comments d" for f
    using assms(1) by (intro update_where_id) (auto simp: comment_ids_ok_def list_all_iff)
  have "distinct (map cm_ap_id (comments d @ [?c]))"
    using assms(1) new(2) by (simp add: comment_ids_ok_def)
  then show "comment_set_ap_id (cm_id c) (comment_ap_id base (cm_id c)) t' d' = Inr ((), d'\<lparr>comments := comments d @ [?c]\<rparr>)"
    using new(1,2) old by (simp add: comment_set_ap_id_def unique_on_def List.map_filter_simps map_filter_def comp_def)
  have "comment_ap_id base i \<noteq> comment_ap_id base (next_id d)" if "next_id d + 1 \<le> i" for i
    using comment_ap_id_inj [of i "next_id d" base] assms(1) that by (auto simp: comment_ids_ok_def)
  then show "comment_ids_ok base (d'\<lparr>comments := comments d @ [?c]\<rparr>)"
    using assms(1) new(1,2) by (auto simp: comment_ids_ok_def list_all_iff)
qed

text \<open>Adding or burying one live comment and moving the counter by one.\<close>

lemma comments_exact_step:
  assumes "comments_exact d" and "clips d' = update_where (\<lambda>c. cl_id c = i) g (clips d)" and "\<And>c. cl_id (g c) = cl_id c"
    and "\<And>c. cl_comment_count (g c) = f (cl_comment_count c)" and "live_comments i d' = f (live_comments i d)"
    and "\<And>j. j \<noteq> i \<Longrightarrow> live_comments j d' = live_comments j d"
  shows "comments_exact d'"
proof -
  have "cl_comment_count c' = live_comments (cl_id c') d'" if "c' \<in> set (clips d')" for c'
  proof -
    obtain c where "c \<in> set (clips d)" "c' = (if cl_id c = i then g c else c)"
      using \<open>c' \<in> set (clips d')\<close> by (auto simp: assms(2) set_update_where)
    moreover from this(1) have "cl_comment_count c = live_comments (cl_id c) d"
      using assms(1) by (simp add: comments_exact_def list_all_iff)
    ultimately show ?thesis using assms(3-6) by (cases "cl_id c = i") simp_all
  qed
  then show ?thesis by (simp add: comments_exact_def list_all_iff)
qed

definition count_comments_db :: "int \<Rightarrow> (int \<Rightarrow> int) \<Rightarrow> timestamp \<Rightarrow> db \<Rightarrow> db" where
  "count_comments_db i f t d =
     d\<lparr>clips := update_where (\<lambda>c. cl_id c = i) (\<lambda>c. (cl_comment_count_update f c)\<lparr>cl_updated_at := t\<rparr>) (clips d)\<rparr>"

lemma count_comments_apply: "count_comments i f t d = Inr ((), count_comments_db i f t d)"
  by (simp add: count_comments_def count_clips_def count_comments_db_def)

lemma reactions_ok_frame:
  assumes "reactions_ok d" and "likes d' = likes d" and "announces d' = announces d"
    and "clips d' = update_where P f (clips d)" and "\<And>c. cl_id (f c) = cl_id c"
    and "\<And>c. cl_like_count (f c) = cl_like_count c" and "\<And>c. cl_share_count (f c) = cl_share_count c"
  shows "reactions_ok d'"
  using assms counted_frame [of likes_table d' d P f] counted_frame [of announces_table d' d P f]
  by (simp add: reactions_ok_def)

lemma social_ok_notified: "social_ok base d \<Longrightarrow> maybe_notified d d' \<Longrightarrow> social_ok base d'"
  by (auto simp: maybe_notified_def social_ok_def reactions_ok_def counted_notified comments_ok_notified)

lemma social_ok_recount_comments:
  assumes "social_ok base d" and "comment_ids_ok base (d\<lparr>comments := cs, next_id := n\<rparr>)"
    and "live_comments i (d\<lparr>comments := cs, next_id := n\<rparr>) = f (live_comments i d)"
    and "\<And>j. j \<noteq> i \<Longrightarrow> live_comments j (d\<lparr>comments := cs, next_id := n\<rparr>) = live_comments j d"
  shows "social_ok base (count_comments_db i f t (d\<lparr>comments := cs, next_id := n\<rparr>))"
proof -
  let ?d = "d\<lparr>comments := cs, next_id := n\<rparr>"
  let ?d' = "count_comments_db i f t ?d"
  let ?g = "\<lambda>c. (cl_comment_count_update f c)\<lparr>cl_updated_at := t\<rparr>"
  have clips: "clips ?d' = update_where (\<lambda>c. cl_id c = i) ?g (clips d)" by (simp add: count_comments_db_def)
  have "live_comments j ?d' = live_comments j ?d" for j by (simp add: live_comments_def count_comments_db_def)
  then have "comments_exact ?d'"
    using assms(1,3,4) by (intro comments_exact_step [OF _ clips, of f]) (simp_all add: social_ok_def comments_ok_def)
  moreover have "comment_ids_ok base ?d'"
    by (rule comment_ids_frame [OF _ _ assms(2)]) (simp_all add: count_comments_db_def)
  moreover have "distinct (map cl_id (clips ?d'))"
    using assms(1) by (simp add: clips map_update_where social_ok_def comments_ok_def)
  moreover have "reactions_ok ?d'"
    by (rule reactions_ok_frame [OF _ _ _ clips]) (use assms(1) in \<open>simp_all add: count_comments_db_def social_ok_def\<close>)
  ultimately show ?thesis by (simp add: social_ok_def comments_ok_def)
qed

lemma store_comment_keeps:
  assumes "link w = all_up" and "social_ok (sv_base_url env) (db w)" and "store_comment env auth clip text w = (resp, w')"
  shows "link w' = all_up \<and> social_ok (sv_base_url env) (db w')"
proof -
  let ?base = "sv_base_url env" and ?viewer = "ac_id (au_actor auth)"
  let ?w = "w\<lparr>ww_draws := Suc (ww_draws w)\<rparr>"
  let ?ap = "''https://toottok.local/comments/'' @ ap_uuid env (ww_draws w)"
  show ?thesis
  proof (cases "comment_create (cl_id clip) ?viewer None ?ap text (now ?w) (db ?w)")
    case (Inl e)
    then have "resp = db_problem env (Sql e)" and "w' = ?w\<lparr>ticks := Suc (ticks ?w)\<rparr>"
      using assms(1,3) by (auto simp: store_comment_def Let_def or_500_def exec_up)
    with assms show ?thesis by simp
  next
    case (Inr r)
    then obtain c d where create: "comment_create (cl_id clip) ?viewer None ?ap text (now ?w) (db w) = Inr (c, d)"
      by (cases r) simp
    note new = comment_create_InrD [OF create]
    have ids: "comment_ids_ok ?base (db w)" using assms(2) by (simp add: social_ok_def comments_ok_def)
    note canon = canonical_comment [OF ids create]
    let ?c = "c\<lparr>cm_ap_id := comment_ap_id ?base (cm_id c)\<rparr>"
    define w1 where "w1 = ?w\<lparr>ticks := Suc (ticks w), db := d\<rparr>"
    have run1: "exec (comment_create (cl_id clip) ?viewer None ?ap text) ?w = (Inr c, w1)"
      using assms(1) create by (simp add: exec_up w1_def)
    define w2 where "w2 = w1\<lparr>ticks := Suc (ticks w1), db := d\<lparr>comments := comments (db w) @ [?c]\<rparr>\<rparr>"
    have run2: "exec (comment_set_ap_id (cm_id c) (comment_ap_id ?base (cm_id c))) w1 = (Inr (), w2)"
      using assms(1) canon(1) by (simp add: exec_up w1_def w2_def)
    define w3 where "w3 = w2\<lparr>ticks := Suc (ticks w2), db := count_comments_db (cl_id clip) (\<lambda>n. n + 1) (now w2) (db w2)\<rparr>"
    have run3: "exec (count_comments (cl_id clip) (\<lambda>n. n + 1)) w2 = (Inr (), w3)"
      using assms(1) by (simp add: exec_up w1_def w2_def w3_def count_comments_apply)
    have up: "link w3 = all_up" using assms(1) by (simp add: w1_def w2_def w3_def)
    have tables: "d\<lparr>comments := comments (db w) @ [?c]\<rparr> = (db w)\<lparr>comments := comments (db w) @ [?c], next_id := next_id (db w) + 1\<rparr>"
      using new(1) by simp
    have "social_ok ?base (db w3)"
    proof -
      have "social_ok ?base (count_comments_db (cl_id clip) (\<lambda>n. n + 1) (now w2)
          ((db w)\<lparr>comments := comments (db w) @ [?c], next_id := next_id (db w) + 1\<rparr>))"
        using canon(2) new(3,4) assms(2)
        by (intro social_ok_recount_comments) (simp_all add: tables live_comments_def)
      then show ?thesis by (simp add: w3_def w2_def tables)
    qed
    moreover obtain resp' where "notify_author env N_Comment ?viewer clip resp' w3 = (resp, w')"
      using assms(3) run1 run2 run3 by (auto simp: store_comment_def Let_def or_500_def)
    ultimately show ?thesis
      using notify_author_db [OF up] social_ok_notified by blast
  qed
qed

lemma create_comment_keeps:
  assumes "link w = all_up" and "social_ok (sv_base_url env) (db w)" and "create_comment env auth i body w = (resp, w')"
  shows "link w' = all_up \<and> social_ok (sv_base_url env) (db w')"
proof (cases "sv_has_pool env")
  case True
  obtain found w1 where fetch: "fetch_live_clip env i w = (found, w1)" by fastforce
  have w1: "link w1 = all_up" "db w1 = db w" using fetch_live_clip_up(1) [OF assms(1) fetch] assms(1) by simp_all
  then have "(resp, w') = (resp, w1) \<or> (\<exists>clip text. store_comment env auth clip text w1 = (resp, w'))"
    using assms(3) True fetch
    by (cases found) (auto simp: create_comment_def with_pool_def or_answer_def split: if_splits sum.splits)
  then show ?thesis
  proof (elim disjE exE)
    fix clip body1 assume "store_comment env auth clip body1 w1 = (resp, w')"
    from store_comment_keeps [OF w1(1) _ this] assms(2) w1(2) show ?thesis by simp
  qed (use assms(1,2) w1 in simp)
qed (use assms in \<open>simp add: create_comment_def with_pool_def\<close>)

text \<open>Burying a live comment takes one off the live comments of its clip.\<close>

lemma filter_update_other:
  "(\<And>r. Q r \<Longrightarrow> \<not> P r) \<Longrightarrow> (\<And>r. P r \<Longrightarrow> \<not> Q (f r)) \<Longrightarrow> filter Q (update_where P f rs) = filter Q rs"
  by (induction rs) auto

lemma bury_counts:
  assumes "distinct (map cm_id cs)" and "c \<in> set cs" and "live_comment i c" and "\<And>m. \<not> Q (g m)"
    and "Q = (\<lambda>m. cm_clip_id m = j \<and> cm_deleted_at m = None)"
  shows "int (length (filter Q (update_where (live_comment i) g cs))) =
    int (length (filter Q cs)) - (if cm_clip_id c = j then 1 else 0)"
proof -
  obtain xs ys where cs: "cs = xs @ c # ys" using assms(2) by (auto dest: split_list)
  then have "\<forall>m \<in> set (xs @ ys). \<not> live_comment i m"
    using assms(1,3) by (auto simp: live_comment_def image_iff)
  then have "update_where (live_comment i) g xs = xs" and "update_where (live_comment i) g ys = ys"
    by (auto intro!: update_where_id)
  with cs assms(3-5) show ?thesis by (simp add: live_comment_def)
qed

lemma delete_comment_keeps:
  assumes "link w = all_up" and "social_ok base (db w)" and "delete_comment env auth i w = (resp, w')"
  shows "link w' = all_up \<and> social_ok base (db w')"
proof -
  let ?found = "fetch_optional (filter (\<lambda>c. cm_id c = i) (comments (db w)))" and ?w = "w\<lparr>ticks := Suc (ticks w)\<rparr>"
  let ?g = "\<lambda>c. c\<lparr>cm_deleted_at := Some (now ?w), cm_body_html := ''[deleted]''\<rparr>"
  let ?cs = "update_where (live_comment i) ?g (comments (db w))"
  have fetch: "exec (comment_fetch_by_id i) w = (Inr ?found, ?w)"
    using assms(1) by (simp add: exec_up comment_fetch_by_id_def select_def)
  show ?thesis
  proof (cases "\<exists>c. ?found = Some c \<and> cm_deleted_at c = None \<and> (cm_actor_id c = ac_id (au_actor auth) \<or> us_is_admin (au_user auth)) \<and> sv_has_pool env")
    case True
    then obtain c where c: "?found = Some c" "cm_deleted_at c = None"
        "cm_actor_id c = ac_id (au_actor auth) \<or> us_is_admin (au_user auth)" "sv_has_pool env" by blast
    then have mem: "c \<in> set (comments (db w))" "live_comment i c"
      by (auto simp: live_comment_def dest!: fetch_optional_Some_mem)
    then have removed: "list_ex (live_comment i) (comments (db w))" by (auto simp: list_ex_iff)
    define w2 where "w2 = ?w\<lparr>ticks := Suc (Suc (ticks w)), db := (db w)\<lparr>comments := ?cs\<rparr>\<rparr>"
    have bury: "exec (comment_bury i) ?w = (Inr True, w2)"
      using assms(1) removed by (simp add: exec_up comment_bury_def w2_def)
    have w2: "link w2 = all_up" "db w2 = (db w)\<lparr>comments := ?cs, next_id := next_id (db w)\<rparr>"
      using assms(1) by (simp_all add: w2_def)
    have "w' = w2\<lparr>ticks := Suc (ticks w2), db := count_comments_db (cm_clip_id c) (\<lambda>n. max (n - 1) 0) (now w2) (db w2)\<rparr>"
      using assms(3) fetch bury c w2(1)
      by (auto simp: delete_comment_def with_pool_def or_500_def opt_filter_def Let_def exec_up count_comments_apply split: if_splits)
    moreover have "social_ok base (count_comments_db (cm_clip_id c) (\<lambda>n. max (n - 1) 0) (now w2) (db w2))"
      unfolding w2(2)
    proof (rule social_ok_recount_comments [OF assms(2)])
      have ids: "comment_ids_ok base (db w)" using assms(2) by (simp add: social_ok_def comments_ok_def)
      have "map cm_id ?cs = map cm_id (comments (db w))" "map cm_ap_id ?cs = map cm_ap_id (comments (db w))"
        by (simp_all add: map_update_where)
      moreover have "list_all (\<lambda>c. cm_id c < next_id (db w)) ?cs"
        using ids by (simp add: comment_ids_ok_def list_all_update_where)
      ultimately show "comment_ids_ok base ((db w)\<lparr>comments := ?cs, next_id := next_id (db w)\<rparr>)"
        using ids by (simp add: comment_ids_ok_def del: map_map list.map_comp)
      have "distinct (map cm_id (comments (db w)))" using ids by (simp add: comment_ids_ok_def)
      note counts = bury_counts [OF this mem, of _ ?g, OF _ refl]
      have "0 < live_comments (cm_clip_id c) (db w)"
        using mem(1) c(2) by (force simp: live_comments_def filter_empty_conv)
      then show "live_comments (cm_clip_id c) ((db w)\<lparr>comments := ?cs, next_id := next_id (db w)\<rparr>) =
          max (live_comments (cm_clip_id c) (db w) - 1) 0"
        using counts [of "cm_clip_id c"] by (simp add: live_comments_def)
      show "live_comments j ((db w)\<lparr>comments := ?cs, next_id := next_id (db w)\<rparr>) = live_comments j (db w)" if "j \<noteq> cm_clip_id c" for j
        using counts [of j] that by (simp add: live_comments_def)
    qed
    ultimately show ?thesis using w2(1) by simp
  next
    case False
    then have "w' = w \<or> w' = ?w"
      using assms(3) fetch by (auto simp: delete_comment_def with_pool_def or_500_def opt_filter_def Let_def split: if_splits option.splits)
    with assms(1,2) show ?thesis by auto
  qed
qed

section \<open>Any sequence of social requests\<close>

datatype social_request =
    Like int | Unlike int | Boost int | Unboost int | Comment int string | Uncomment int

fun serve_social :: "'y api_env_scheme \<Rightarrow> auth_user \<times> social_request \<Rightarrow> 'z web_world_scheme \<Rightarrow> 'z web_world_scheme" where
  "serve_social env (auth, Like i) w = snd (like_clip env auth i w)"
| "serve_social env (auth, Unlike i) w = snd (unlike_clip env auth i w)"
| "serve_social env (auth, Boost i) w = snd (api_announce_clip env auth i w)"
| "serve_social env (auth, Unboost i) w = snd (unannounce_clip env auth i w)"
| "serve_social env (auth, Comment i body) w = snd (create_comment env auth i body w)"
| "serve_social env (auth, Uncomment i) w = snd (delete_comment env auth i w)"

definition serve_social_all :: "'y api_env_scheme \<Rightarrow> (auth_user \<times> social_request) list \<Rightarrow> 'z web_world_scheme \<Rightarrow> 'z web_world_scheme" where
  "serve_social_all env rs w = fold (serve_social env) rs w"

lemma like_well: "like_table.well base d = social_ok base d" and announce_well: "announce_table.well base d = social_ok base d"
  by (auto simp: like_table.well_def announce_table.well_def social_ok_def reactions_ok_def)

lemma react_keeps_social:
  assumes "link w = all_up" and "social_ok base (db w)"
  shows "link (snd (like_clip env auth i w)) = all_up \<and> social_ok base (db (snd (like_clip env auth i w)))"
    and "link (snd (unlike_clip env auth i w)) = all_up \<and> social_ok base (db (snd (unlike_clip env auth i w)))"
    and "link (snd (api_announce_clip env auth i w)) = all_up \<and> social_ok base (db (snd (api_announce_clip env auth i w)))"
    and "link (snd (unannounce_clip env auth i w)) = all_up \<and> social_ok base (db (snd (unannounce_clip env auth i w)))"
  unfolding like_clip_def unlike_clip_def api_announce_clip_def unannounce_clip_def
  using assms like_table.react_keeps_counts [OF _ _ surjective_pairing, unfolded like_well]
    like_table.unreact_keeps_counts [OF _ _ surjective_pairing, unfolded like_well]
    announce_table.react_keeps_counts [OF _ _ surjective_pairing, unfolded announce_well]
    announce_table.unreact_keeps_counts [OF _ _ surjective_pairing, unfolded announce_well]
  by blast+

lemma serve_social_keeps:
  assumes "link w = all_up" and "social_ok (sv_base_url env) (db w)"
  shows "link (serve_social env r w) = all_up \<and> social_ok (sv_base_url env) (db (serve_social env r w))"
  using react_keeps_social [OF assms, of env] create_comment_keeps [OF assms surjective_pairing]
    delete_comment_keeps [OF assms surjective_pairing, of env]
  by (cases "(env, r, w)" rule: serve_social.cases) simp_all

text \<open>C35: Whatever likes, boosts, comments and their retractions clients send in any order, with the database
  reachable, the like, share and comment counters of every clip stay the numbers of its like rows, announce rows
  and live comments: repeated requests do not count twice and no counter goes below zero.\<close>

theorem counters_stay_exact:
  assumes "link w = all_up" and "social_ok (sv_base_url env) (db w)"
  shows "social_ok (sv_base_url env) (db (serve_social_all env rs w))"
  using assms by (induction rs arbitrary: w) (simp_all add: serve_social_all_def serve_social_keeps)

lemma demo_social_ok: "social_ok ''https://a.test'' (db demo_feed_world)"
  by (simp add: social_ok_def reactions_ok_def comments_ok_def comments_exact_def comment_ids_ok_def counted_def row_count_def
      live_comments_def demo_feed_world_def demo_inbox_db_def demo_clip_at_def demo_bob_clip_def demo_clip_def empty_db_def)

theorem counters_stay_exact_witness:
  "social_ok ''https://a.test'' (db (serve_social_all demo_api_env
     [(demo_auth, Like 7), (demo_auth, Like 7), (demo_auth, Comment 8 ''hi''), (demo_auth, Unlike 7)] demo_feed_world))"
  using counters_stay_exact [of demo_feed_world demo_api_env "[(demo_auth, Like 7), (demo_auth, Like 7), (demo_auth, Comment 8 ''hi''), (demo_auth, Unlike 7)]"]
    demo_social_ok
  by (simp add: demo_feed_world_def demo_web_world_def demo_api_env_def demo_server_env_def)

text \<open>The sequence above runs request after request. Between the statements of two requests of one actor the
  counter can drift: an unlike that runs between the two statements of a like floors the counter at
  zero before the like raises it.\<close>

lemma recount_twice: "clips (recount tab i g t' (recount tab i f t d)) = update_where (live_clip i)
    (\<lambda>c. (rt_set_count tab g c)\<lparr>cl_updated_at := t'\<rparr>) (update_where (live_clip i) (\<lambda>c. (rt_set_count tab f c)\<lparr>cl_updated_at := t\<rparr>) (clips d))"
  by (simp add: recount_def)

lemma interleaved_unlike_drifts:
  assumes "counted likes_table d" and "c \<in> set (clips d)" and "live_clip i c" and "cl_like_count c = 0" and "has_actor a d"
  shows "\<exists>d1 d2 n3 d3 n4 d4. reaction_add likes_table i a t1 d = Inr (True, d1) \<and> reaction_remove likes_table i a t2 d1 = Inr (True, d2) \<and>
    count_live likes_table i (\<lambda>n. max (n - 1) 0) t3 d2 = Inr (n3, d3) \<and> count_live likes_table i (\<lambda>n. n + 1) t4 d3 = Inr (n4, d4) \<and>
    \<not> counted likes_table d4"
proof -
  have none: "filter (\<lambda>r. re_clip_id r = i) (likes d) = []"
    using assms(1-4) by (auto simp: counted_def row_count_def list_all_iff live_clip_def)
  then have fresh: "\<not> list_ex (reaction_at i a) (likes d)" and kept: "delete_where (reaction_at i a) (likes d) = likes d"
    by (auto simp: list_ex_iff reaction_at_def filter_empty_conv delete_where_def filter_id_conv)
  define r where "r = \<lparr>re_clip_id = i, re_actor_id = a, re_ap_activity_id = None, re_created_at = t1\<rparr>"
  let ?d1 = "d\<lparr>likes := likes d @ [r]\<rparr>"
  have add: "reaction_add likes_table i a t1 d = Inr (True, ?d1)"
    using fresh assms(2,3,5) by (auto simp: reaction_add_def r_def has_clip_def list_ex_iff live_clip_def)
  have remove: "reaction_remove likes_table i a t2 ?d1 = Inr (True, d)"
    using kept by (simp add: reaction_remove_def r_def reaction_at_def delete_where_def)
  let ?d3 = "recount likes_table i (\<lambda>n. max (n - 1) 0) t3 d"
  let ?d4 = "recount likes_table i (\<lambda>n. n + 1) t4 ?d3"
  let ?c = "c\<lparr>cl_like_count := 1, cl_updated_at := t4\<rparr>"
  have "(update_where (live_clip i) f (update_where (live_clip i) g (clips d))) = map (\<lambda>c. if live_clip i c then f (g c) else c) (clips d)"
    if "\<And>c. live_clip i (g c) = live_clip i c" for f g using that by (simp add: update_where_def)
  then have "?c \<in> set (clips ?d4)"
    unfolding recount_twice using assms(2-4) by (force simp: live_clip_def)
  moreover have "rt_count likes_table ?c \<noteq> row_count likes_table (cl_id ?c) ?d4"
    using none assms(3) by (simp add: row_count_def live_clip_def)
  ultimately have "\<not> counted likes_table ?d4" unfolding counted_def list_all_iff by blast
  moreover obtain n3 n4 where "count_live likes_table i (\<lambda>n. max (n - 1) 0) t3 d = Inr (n3, ?d3)"
      "count_live likes_table i (\<lambda>n. n + 1) t4 ?d3 = Inr (n4, ?d4)"
    using count_live_apply by metis
  ultimately show ?thesis using add remove by blast
qed

end
