(* ===== verification/Follow_Api.thy ===== *)
theory Follow_Api
  imports Remote Reactions
begin

text \<open>
  The federation endpoints and the follow API: \<^verbatim>\<open>crates/server/src/federation.rs\<close>, with
  \<^verbatim>\<open>DbActor::to_json\<close> of \<^verbatim>\<open>object.rs\<close> and the answers of \<^verbatim>\<open>error.rs\<close>. Parameters (record
  \<open>fed_server\<close>): the federation data of the instance, the network of the backfill, what the
  crate \<^verbatim>\<open>activitypub_federation\<close> builds (its default context, public keys, WebFinger answers and the
  verification of an incoming activity), the path of a URL, and error texts. A panic of a handler ends the request
  without an answer.
\<close>

datatype inbox_error =
    Signature_Invalid string | Digest_Invalid string | Unparseable string | Url_Verification string | Other_Error string

record fed_server =
  fx_data :: fed_env
  fx_net :: backfill_env
  fx_context :: json
  fx_public_key :: "string \<Rightarrow> string \<Rightarrow> json"
  fx_webfinger_name :: "string \<Rightarrow> string + string"
  fx_webfinger_jrd :: "string \<Rightarrow> string \<Rightarrow> json"
  fx_verify :: "string \<Rightarrow> inbox_error + ap_activity"
  fx_path :: "url \<Rightarrow> string"
  fx_url_error :: "string \<Rightarrow> string"
  fx_fed_text :: "fed_error \<Rightarrow> string"
  fx_package_version :: string

definition panicked :: response where
  "panicked = reply 0 JNull"

definition accepts_activity_json :: "(string \<times> string) list \<Rightarrow> bool" where
  "accepts_activity_json headers = (case header_str ''accept'' headers of
     None \<Rightarrow> True
   | Some accept \<Rightarrow> contains_sub ''*/*'' accept \<or> contains_sub ''application/activity+json'' accept \<or>
       contains_sub ''application/ld+json'' accept)"

definition not_acceptable :: response where
  "not_acceptable = problem 406 ''not acceptable'' ''client must accept application/activity+json''"

text \<open>\<^verbatim>\<open>with_pool\<close> and the \<^verbatim>\<open>Accept\<close> header at the head of the object endpoints.\<close>

definition for_activity_json ::
  "'y server_env_scheme \<Rightarrow> (string \<times> string) list \<Rightarrow> 'w \<Rightarrow> ('w \<Rightarrow> response \<times> 'w) \<Rightarrow> response \<times> 'w" where
  "for_activity_json env headers w k = with_pool env w (\<lambda>w. if accepts_activity_json headers then k w else (not_acceptable, w))"

text \<open>\<^verbatim>\<open>.await.ok().flatten()\<close>: an error counts as nothing found.\<close>

definition found_or_none :: "(db_error + 'a option) \<times> 'w \<Rightarrow> 'a option \<times> 'w" where
  "found_or_none r = (case r of (Inl _, w) \<Rightarrow> (None, w) | (Inr x, w) \<Rightarrow> (x, w))"

section \<open>Actors\<close>

definition with_context :: "fed_server \<Rightarrow> json \<Rightarrow> json" where
  "with_context fx doc = (case doc of JObj ms \<Rightarrow> JObj ((''@context'', fx_context fx) # ms) | v \<Rightarrow> v)"

definition actor_type_name :: "actor_type \<Rightarrow> string" where
  "actor_type_name t = (case t of Person \<Rightarrow> ''Person'' | Application \<Rightarrow> ''Application'' | Service \<Rightarrow> ''Service'')"

text \<open>A member that is skipped when it is \<^verbatim>\<open>None\<close>.\<close>

definition optional_member :: "string \<Rightarrow> json option \<Rightarrow> (string \<times> json) list" where
  "optional_member k v = (case v of None \<Rightarrow> [] | Some v \<Rightarrow> [(k, v)])"

text \<open>\<^verbatim>\<open>DbActor::from_row(row).to_json()\<close>; \<open>None\<close> when the stored id or inbox is no URL.\<close>

definition actor_json :: "fed_server \<Rightarrow> actor \<Rightarrow> json option" where
  "actor_json fx a =
     (let parse = \<lambda>s. map_option (\<lambda>u. JStr (u_str u)) (dv_parse_url (fx_net fx) s) in
      case (parse (ac_ap_id a), parse (ac_inbox_url a)) of
        (Some i, Some inbox) \<Rightarrow> Some (with_context fx (JObj (
          [(''type'', JStr (actor_type_name (ac_actor_type a))), (''id'', i), (''preferredUsername'', JStr (ac_username a))] @
          optional_member ''name'' (map_option JStr (ac_display_name a)) @
          optional_member ''summary'' (map_option JStr (ac_summary a)) @
          [(''inbox'', inbox)] @
          optional_member ''outbox'' (parse (ac_outbox_url a)) @
          optional_member ''followers'' (parse (ac_followers_url a)) @
          optional_member ''endpoints'' (map_option (\<lambda>u. JObj [(''sharedInbox'', u)]) (Option.bind (ac_shared_inbox_url a) parse)) @
          [(''publicKey'', fx_public_key fx (ac_ap_id a) (ac_public_key_pem a))])))
      | _ \<Rightarrow> None)"

definition answer_actor :: "fed_server \<Rightarrow> actor \<Rightarrow> response" where
  "answer_actor fx a = (case actor_json fx a of Some doc \<Rightarrow> reply 200 doc | None \<Rightarrow> panicked)"

definition instance_ap_id :: "fed_server \<Rightarrow> string" where
  "instance_ap_id fx = fe_base_url (fx_data fx) @ ''/ap/actor''"

definition instance_actor ::
  "'y server_env_scheme \<Rightarrow> fed_server \<Rightarrow> (string \<times> string) list \<Rightarrow> 'z pool_scheme \<Rightarrow> response \<times> 'z pool_scheme" where
  "instance_actor env fx headers w = for_activity_json env headers w (\<lambda>w.
     case found_or_none (exec (actor_fetch_by_ap_id (instance_ap_id fx)) w) of
       (None, w) \<Rightarrow> (problem 404 ''actor'' ''instance actor not found'', w)
     | (Some a, w) \<Rightarrow> (answer_actor fx a, w))"

definition no_such_user :: "string \<Rightarrow> response" where
  "no_such_user username = problem 404 ''actor'' (''no such user: '' @ username)"

definition user_actor ::
  "'y server_env_scheme \<Rightarrow> fed_server \<Rightarrow> string \<Rightarrow> (string \<times> string) list \<Rightarrow> 'z pool_scheme \<Rightarrow> response \<times> 'z pool_scheme" where
  "user_actor env fx username headers w = for_activity_json env headers w (\<lambda>w.
     case found_or_none (exec (actor_fetch_by_username_local username) w) of
       (None, w) \<Rightarrow> (no_such_user username, w)
     | (Some a, w) \<Rightarrow> (if ac_deleted_at a \<noteq> None then no_such_user username else answer_actor fx a, w))"

definition no_such_actor :: "string \<Rightarrow> response" where
  "no_such_actor resource = problem 404 ''webfinger'' (''no such actor: '' @ resource)"

text \<open>\<^verbatim>\<open>Json(build_webfinger_response(resource, Url::parse(&actor.ap_id)))\<close>.\<close>

definition answer_jrd :: "fed_server \<Rightarrow> string \<Rightarrow> actor \<Rightarrow> response" where
  "answer_jrd fx resource a = (case dv_parse_url (fx_net fx) (ac_ap_id a) of
     None \<Rightarrow> panicked | Some u \<Rightarrow> reply 200 (fx_webfinger_jrd fx resource (u_str u)))"

definition webfinger ::
  "'y server_env_scheme \<Rightarrow> fed_server \<Rightarrow> string \<Rightarrow> 'z pool_scheme \<Rightarrow> response \<times> 'z pool_scheme" where
  "webfinger env fx resource w = with_pool env w (\<lambda>w. case fx_webfinger_name fx resource of
     Inl e \<Rightarrow> (problem 404 ''webfinger'' e, w)
   | Inr name \<Rightarrow> (case found_or_none (exec (actor_fetch_by_username_local name) w) of
       (Some a, w) \<Rightarrow> (answer_jrd fx resource a, w)
     | (None, w) \<Rightarrow>
         if name \<noteq> hd (split_on (CHR '':'') (fe_domain (fx_data fx))) then (no_such_actor resource, w)
         else case found_or_none (exec (actor_fetch_by_ap_id (instance_ap_id fx)) w) of
           (Some a, w) \<Rightarrow> (answer_jrd fx resource a, w)
         | (None, w) \<Rightarrow> (no_such_actor resource, w)))"

fun ap_id_list :: "int list \<Rightarrow> 'z pool_scheme \<Rightarrow> json list \<times> 'z pool_scheme" where
  "ap_id_list [] w = ([], w)"
| "ap_id_list (i # is) w = (case found_or_none (exec (actor_fetch_by_id i) w) of
     (found, w) \<Rightarrow> (case ap_id_list is w of
       (rest, w) \<Rightarrow> ((case found of Some a \<Rightarrow> JStr (ac_ap_id a) # rest | None \<Rightarrow> rest), w)))"

definition collection_items :: "int list stmt \<Rightarrow> 'z pool_scheme \<Rightarrow> json list \<times> 'z pool_scheme" where
  "collection_items ids w = (case exec ids w of (Inl _, w) \<Rightarrow> ([], w) | (Inr is, w) \<Rightarrow> ap_id_list is w)"

definition user_collection ::
  "'y server_env_scheme \<Rightarrow> fed_server \<Rightarrow> string \<Rightarrow> string \<Rightarrow> (string \<times> string) list \<Rightarrow> 'z pool_scheme \<Rightarrow> response \<times> 'z pool_scheme" where
  "user_collection env fx username coll headers w = for_activity_json env headers w (\<lambda>w.
     case found_or_none (exec (actor_fetch_by_username_local username) w) of
       (None, w) \<Rightarrow> (no_such_user username, w)
     | (Some a, w) \<Rightarrow> (case dv_parse_url (fx_net fx) (fe_base_url (fx_data fx) @ ''/users/'' @ username @ ''/'' @ coll) of
         None \<Rightarrow> (panicked, w)
       | Some u \<Rightarrow>
           let answer = \<lambda>(items, w). (reply 200 (ordered_collection_page (u_str u) (length items) items), w) in
           if coll = ''followers'' then answer (collection_items (follow_follower_actor_ids (ac_id a)) w)
           else if coll = ''following'' then answer (collection_items (follow_following_actor_ids (ac_id a)) w)
           else if coll = ''outbox'' then answer ([], w)
           else (problem 404 ''collection'' (''no such collection: '' @ coll), w)))"

section \<open>Clips\<close>

datatype clip_ap_shape = Note_Shape | Create_Shape

definition no_clip :: "int \<Rightarrow> response" where
  "no_clip i = problem 404 ''clip not found'' (''no clip with id '' @ show_int i)"

definition clip_document :: "clip_ap_shape \<Rightarrow> (timestamp \<Rightarrow> string) \<Rightarrow> string \<Rightarrow> clip \<Rightarrow> actor \<Rightarrow> string option \<Rightarrow> json" where
  "clip_document shape = (case shape of Note_Shape \<Rightarrow> clip_note_json | Create_Shape \<Rightarrow> clip_create_activity)"

definition serve_clip_ap ::
  "'y server_env_scheme \<Rightarrow> fed_server \<Rightarrow> clip_ap_shape \<Rightarrow> int \<Rightarrow> (string \<times> string) list \<Rightarrow> 'z pool_scheme \<Rightarrow>
     response \<times> 'z pool_scheme" where
  "serve_clip_ap env fx shape i headers w = for_activity_json env headers w (\<lambda>w.
     case found_or_none (exec (clip_fetch_by_id i) w) of
       (None, w) \<Rightarrow> (no_clip i, w)
     | (Some c, w) \<Rightarrow>
         if cl_deleted_at c \<noteq> None \<or> cl_ap_id c \<noteq> clip_object_id (fe_base_url (fx_data fx)) i then (no_clip i, w)
         else case found_or_none (exec (actor_fetch_by_id (cl_actor_id c)) w) of
           (None, w) \<Rightarrow> (problem 404 ''clip not found'' (''clip '' @ show_int i @ '' has no author''), w)
         | (Some a, w) \<Rightarrow> (case found_or_none (exec (asset_largest_video_filename (cl_id c)) w) of
             (filename, w) \<Rightarrow> (reply 200 (with_context fx (clip_document shape (sv_rfc3339 env) (fe_base_url (fx_data fx)) c a
               (coalesce filename (Some ''720.mp4'')))), w)))"

definition clip_object ::
  "'y server_env_scheme \<Rightarrow> fed_server \<Rightarrow> int \<Rightarrow> (string \<times> string) list \<Rightarrow> 'z pool_scheme \<Rightarrow> response \<times> 'z pool_scheme" where
  "clip_object env fx = serve_clip_ap env fx Note_Shape"

definition clip_activity ::
  "'y server_env_scheme \<Rightarrow> fed_server \<Rightarrow> int \<Rightarrow> (string \<times> string) list \<Rightarrow> 'z pool_scheme \<Rightarrow> response \<times> 'z pool_scheme" where
  "clip_activity env fx = serve_clip_ap env fx Create_Shape"

section \<open>The inbox\<close>

text \<open>\<^verbatim>\<open>IntoResponse for Error\<close>.\<close>

definition error_answer :: "nat \<Rightarrow> string \<Rightarrow> string \<Rightarrow> response" where
  "error_answer status title detail = reply status (JObj [(''title'', JStr title), (''status'', JInt (int status)), (''detail'', JStr detail)])"

fun inbox_error_answer :: "inbox_error \<Rightarrow> response" where
  "inbox_error_answer (Signature_Invalid e) = error_answer 401 ''signature invalid'' e"
| "inbox_error_answer (Digest_Invalid e) = error_answer 401 ''body digest invalid'' e"
| "inbox_error_answer (Unparseable e) = error_answer 400 ''unparseable activity'' e"
| "inbox_error_answer (Url_Verification e) = error_answer 400 ''url verification failed'' e"
| "inbox_error_answer (Other_Error e) = error_answer 500 ''internal error'' e"

definition inbox :: "fed_server \<Rightarrow> string \<Rightarrow> 'z pool_scheme \<Rightarrow> response \<times> 'z pool_scheme" where
  "inbox fx request w = (case fx_verify fx request of
     Inl e \<Rightarrow> (inbox_error_answer e, w)
   | Inr activity \<Rightarrow> (case receive (fx_data fx) activity w of
       (Inr _, w) \<Rightarrow> (reply 202 JNull, w)
     | (Inl Fed_Panic, w) \<Rightarrow> (panicked, w)
     | (Inl e, w) \<Rightarrow> (inbox_error_answer (Other_Error (fx_fed_text fx e)), w)))"

section \<open>Node information\<close>

definition api_nodeinfo_jrd :: "fed_server \<Rightarrow> response" where
  "api_nodeinfo_jrd fx = reply 200 (nodeinfo_jrd (fe_base_url (fx_data fx)))"

definition count_active_users :: "int stmt" where
  "count_active_users = select (\<lambda>t d. int (length [u. u \<leftarrow> users d, us_deleted_at u = None \<and> us_status u = Active,
     a \<leftarrow> actors d, ac_id a = us_actor_id u \<and> ac_suspended_at a = None]))"

definition count_ready_clips :: "int stmt" where
  "count_ready_clips = select (\<lambda>t d. int (length (filter (\<lambda>c. cl_deleted_at c = None \<and> cl_status c = Ready) (clips d))))"

text \<open>\<^verbatim>\<open>unwrap_or(0)\<close> on a count.\<close>

definition or_zero_count :: "(db_error + int) \<times> 'w \<Rightarrow> int \<times> 'w" where
  "or_zero_count r = (case r of (Inl _, w) \<Rightarrow> (0, w) | (Inr n, w) \<Rightarrow> (n, w))"

definition nodeinfo_doc :: "'y server_env_scheme \<Rightarrow> fed_server \<Rightarrow> string \<Rightarrow> 'z pool_scheme \<Rightarrow> response \<times> 'z pool_scheme" where
  "nodeinfo_doc env fx version w =
     (let doc = nodeinfo_document (fx_package_version fx) (fe_base_url (fx_data fx)) version in
      if version \<noteq> ''2.0'' \<and> version \<noteq> ''2.1''
      then (problem 404 ''nodeinfo'' (''unsupported nodeinfo version: '' @ version), w)
      else if \<not> sv_has_pool env then (reply 200 (doc 0 0), w)
      else case or_zero_count (exec count_active_users w) of
        (n, w) \<Rightarrow> (case or_zero_count (exec count_ready_clips w) of (m, w) \<Rightarrow> (reply 200 (doc n m), w)))"

section \<open>Following\<close>

record follow_request =
  fq_actor_uri :: "string option"
  fq_target_actor_id :: "int option"

fun follow_state_text :: "follow_state \<Rightarrow> string" where
  "follow_state_text Requested = ''requested''"
| "follow_state_text Accepted = ''accepted''"
| "follow_state_text Rejected = ''rejected''"

definition follow_answer :: "nat \<Rightarrow> auth_user \<Rightarrow> actor \<Rightarrow> follow_state \<Rightarrow> string \<Rightarrow> response" where
  "follow_answer status auth target state follow_id = reply status (JObj [(''follower'', JStr (ac_ap_id (au_actor auth))),
     (''target'', JStr (ac_ap_id target)), (''target_actor_id'', JInt (ac_id target)),
     (''state'', JStr (follow_state_text state)), (''activity_id'', JStr follow_id)])"

definition no_self_follow :: response where
  "no_self_follow = problem 400 ''cannot follow self'' ''you cannot follow yourself''"

definition no_actor_id :: "int \<Rightarrow> response" where
  "no_actor_id i = problem 404 ''actor not found'' (''no actor with id '' @ show_int i)"

text \<open>A federation error answered 500.\<close>

definition or_fed_500 ::
  "fed_server \<Rightarrow> string \<Rightarrow> (fed_error + 'a) \<times> 'w \<Rightarrow> ('a \<Rightarrow> 'w \<Rightarrow> response \<times> 'w) \<Rightarrow> response \<times> 'w" where
  "or_fed_500 fx title r k = (case r of
     (Inl e, w) \<Rightarrow> (problem 500 title (fx_fed_text fx e), w) | (Inr a, w) \<Rightarrow> k a w)"

definition log_outbound :: "json \<Rightarrow> auth_user \<Rightarrow> string \<Rightarrow> 'z pool_scheme \<Rightarrow> 'z pool_scheme" where
  "log_outbound activity auth ob w = snd (exec (activity_create_outbound (activity_id_from_json activity)
     (ac_ap_id (au_actor auth)) (Some ob) activity) w)"

definition new_follow_activity :: "fed_server \<Rightarrow> auth_user \<Rightarrow> actor \<Rightarrow> 'z pool_scheme \<Rightarrow> json" where
  "new_follow_activity fx auth target w =
     follow_activity (fe_uuid (fx_data fx) (ticks w)) (fe_base_url (fx_data fx)) (ac_ap_id (au_actor auth)) (ac_ap_id target)"

text \<open>The fast path: the target is known by its row.\<close>

definition follow_row ::
  "'y server_env_scheme \<Rightarrow> fed_server \<Rightarrow> auth_user \<Rightarrow> actor \<Rightarrow> 'z pool_scheme \<Rightarrow> response \<times> 'z pool_scheme" where
  "follow_row env fx auth target w =
     (let activity = new_follow_activity fx auth target w; follow_id = activity_id_from_json activity;
          viewer = ac_id (au_actor auth) in
      if ac_domain target = None
      then or_500 env (exec (follow_upsert viewer (ac_id target) (Some follow_id) Accepted) w) (\<lambda>_ w.
        (follow_answer 200 auth target Accepted follow_id, w))
      else or_500 env (exec (follow_upsert viewer (ac_id target) (Some follow_id) Requested) w) (\<lambda>_ w.
        or_fed_500 fx ''database error'' (enqueue_delivery viewer (shared_inbox_or_inbox target) activity
            (log_outbound activity auth (ac_ap_id target) w)) (\<lambda>_ w.
        (follow_answer 200 auth target Requested follow_id, w))))"

definition follow_by_id ::
  "'y server_env_scheme \<Rightarrow> fed_server \<Rightarrow> auth_user \<Rightarrow> int \<Rightarrow> 'z pool_scheme \<Rightarrow> response \<times> 'z pool_scheme" where
  "follow_by_id env fx auth target_id w =
     (if target_id = ac_id (au_actor auth) then (no_self_follow, w)
      else or_500 env (exec (actor_fetch_by_id target_id) w) (\<lambda>found w. case found of
          None \<Rightarrow> (no_actor_id target_id, w)
        | Some target \<Rightarrow> follow_row env fx auth target w))"

text \<open>The target of a URI: a local row by the last segment of the path, a remote actor by fetching it.\<close>

definition uri_target ::
  "'y server_env_scheme \<Rightarrow> fed_server \<Rightarrow> url \<Rightarrow> 'z deliver_world_scheme \<Rightarrow> (response + actor) \<times> 'z deliver_world_scheme" where
  "uri_target env fx u w =
     (if is_local_url u (fe_domain (fx_data fx))
      then case exec (actor_fetch_by_username_local (last (split_on (CHR ''/'') (fx_path fx u)))) w of
          (Inl e, w) \<Rightarrow> (Inl (db_problem env e), w)
        | (Inr None, w) \<Rightarrow> (Inl (problem 400 ''actor not found'' (''no local actor at '' @ u_str u)), w)
        | (Inr (Some a), w) \<Rightarrow> (Inr a, w)
      else case fetch_remote_actor (fx_net fx) u w of
          (Inl e, w) \<Rightarrow> (Inl (problem 502 ''actor fetch failed'' (''could not fetch remote actor: '' @ fx_fed_text fx e)), w)
        | (Inr a, w) \<Rightarrow> (Inr a, w))"

definition follow_uri_target ::
  "'y server_env_scheme \<Rightarrow> fed_server \<Rightarrow> auth_user \<Rightarrow> bool \<Rightarrow> actor \<Rightarrow> 'z pool_scheme \<Rightarrow> response \<times> 'z pool_scheme" where
  "follow_uri_target env fx auth local_target target w =
     (let activity = new_follow_activity fx auth target w; follow_id = activity_id_from_json activity;
          viewer = ac_id (au_actor auth); state = (if local_target then Accepted else Requested) in
      if ac_id target = viewer then (no_self_follow, w)
      else or_500 env (exec (follow_upsert viewer (ac_id target) (Some follow_id) state) w) (\<lambda>_ w.
        let w = log_outbound activity auth (ac_ap_id target) w; answer = follow_answer 202 auth target state follow_id in
        if local_target then (answer, w)
        else or_fed_500 fx ''job error'' (enqueue_follow_delivery viewer (ac_id target) activity w) (\<lambda>_ w. (answer, w))))"

definition follow_by_uri ::
  "'y server_env_scheme \<Rightarrow> fed_server \<Rightarrow> auth_user \<Rightarrow> string \<Rightarrow> 'z deliver_world_scheme \<Rightarrow> response \<times> 'z deliver_world_scheme" where
  "follow_by_uri env fx auth uri w = (case dv_parse_url (fx_net fx) uri of
     None \<Rightarrow> (problem 400 ''invalid actor_uri'' (fx_url_error fx uri), w)
   | Some u \<Rightarrow>
       if u_scheme u \<noteq> ''https'' \<and> u_scheme u \<noteq> ''http''
       then (problem 400 ''invalid actor_uri'' ''actor_uri must be an http(s) URL'', w)
       else case uri_target env fx u w of
         (Inl resp, w) \<Rightarrow> (resp, w)
       | (Inr target, w) \<Rightarrow> follow_uri_target env fx auth (is_local_url u (fe_domain (fx_data fx))) target w)"

definition api_follow ::
  "'y server_env_scheme \<Rightarrow> fed_server \<Rightarrow> auth_user \<Rightarrow> follow_request \<Rightarrow> 'z deliver_world_scheme \<Rightarrow> response \<times> 'z deliver_world_scheme" where
  "api_follow env fx auth body w = with_pool env w (\<lambda>w.
     case (fq_target_actor_id body, fq_actor_uri body) of
       (Some target_id, _) \<Rightarrow> follow_by_id env fx auth target_id w
     | (None, Some uri) \<Rightarrow> follow_by_uri env fx auth uri w
     | (None, None) \<Rightarrow> (problem 400 ''invalid request'' ''either actor_uri or target_actor_id is required'', w))"

definition undo_follow ::
  "'y server_env_scheme \<Rightarrow> fed_server \<Rightarrow> auth_user \<Rightarrow> int \<Rightarrow> string \<Rightarrow> 'z pool_scheme \<Rightarrow> response \<times> 'z pool_scheme" where
  "undo_follow env fx auth target_id follow_id w =
     (let w = snd (exec (follow_delete (ac_id (au_actor auth)) target_id) w);
          activity = undo_activity (fe_uuid (fx_data fx) (ticks w)) (fe_base_url (fx_data fx)) (ac_ap_id (au_actor auth)) follow_id;
          w = log_outbound activity auth follow_id w in
      case found_or_none (exec (actor_fetch_by_id target_id) w) of
        (None, w) \<Rightarrow> (reply 204 JNull, w)
      | (Some target, w) \<Rightarrow> or_fed_500 fx ''job error''
          (enqueue_delivery (ac_id (au_actor auth)) (shared_inbox_or_inbox target) activity w) (\<lambda>_ w. (reply 204 JNull, w)))"

definition api_unfollow ::
  "'y server_env_scheme \<Rightarrow> fed_server \<Rightarrow> auth_user \<Rightarrow> int \<Rightarrow> 'z pool_scheme \<Rightarrow> response \<times> 'z pool_scheme" where
  "api_unfollow env fx auth target_id w = with_pool env w (\<lambda>w.
     case found_or_none (exec (follow_fetch_by_pair (ac_id (au_actor auth)) target_id) w) of
       (None, w) \<Rightarrow> (problem 404 ''follow'' ''no such follow relation'', w)
     | (Some f, w) \<Rightarrow> (case fo_ap_activity_id f of
         None \<Rightarrow> (problem 409 ''follow'' ''follow has no activity id'', w)
       | Some follow_id \<Rightarrow> undo_follow env fx auth target_id follow_id w))"

definition api_my_follows :: "'y server_env_scheme \<Rightarrow> auth_user \<Rightarrow> 'z pool_scheme \<Rightarrow> response \<times> 'z pool_scheme" where
  "api_my_follows env auth w = with_pool env w (\<lambda>w.
     or_500 env (exec (follow_following_rows (ac_id (au_actor auth))) w) (\<lambda>rows w.
       (reply 200 (JObj [(''following'', JArr (map (\<lambda>(i, username, domain). JObj [(''actor_id'', JInt i),
          (''username'', JStr username), (''domain'', opt_json JStr domain)]) rows))]), w)))"

definition no_profile :: "string \<Rightarrow> response" where
  "no_profile username = problem 404 ''profile not found'' (''no actor named @'' @ username)"

definition api_follow_state :: "'y server_env_scheme \<Rightarrow> auth_user \<Rightarrow> string \<Rightarrow> 'z pool_scheme \<Rightarrow> response \<times> 'z pool_scheme" where
  "api_follow_state env auth username w = with_pool env w (\<lambda>w.
     or_500 env (exec (actor_fetch_by_username_local username) w) (\<lambda>found w. case found of
         None \<Rightarrow> (no_profile username, w)
       | Some target \<Rightarrow> or_500 env (exec (follow_fetch_by_pair (ac_id (au_actor auth)) (ac_id target)) w) (\<lambda>f w.
           (reply 200 (JObj [(''target_actor_id'', JInt (ac_id target)),
              (''state'', JStr (case f of Some f \<Rightarrow> follow_state_text (fo_state f) | None \<Rightarrow> ''none''))]), w))))"

definition api_follow_list :: "'y server_env_scheme \<Rightarrow> string \<Rightarrow> string \<Rightarrow> 'z pool_scheme \<Rightarrow> response \<times> 'z pool_scheme" where
  "api_follow_list env username which w = with_pool env w (\<lambda>w.
     if which \<noteq> ''followers'' \<and> which \<noteq> ''following'' then (problem 404 ''list'' ''use followers or following'', w)
     else or_500 env (exec (actor_fetch_by_username_local username) w) (\<lambda>found w. case found of
         None \<Rightarrow> (no_profile username, w)
       | Some target \<Rightarrow> or_500 env (exec ((if which = ''followers'' then follow_follower_rows else follow_following_list) (ac_id target) 200) w)
           (\<lambda>rows w. (reply 200 (JObj [(''items'', JArr (map (\<lambda>(i, username). JObj [(''actor_id'', JInt i),
              (''username'', JStr username)]) rows))]), w))))"

section \<open>Which rows a follow touches\<close>

definition local_accounts :: "db \<Rightarrow> actor list" where
  "local_accounts d = filter (\<lambda>a. ac_domain a = None) (actors d)"

lemma upsert_remote_keeps_local:
  assumes "\<And>a. a \<in> set l \<Longrightarrow> ac_ap_id a \<noteq> rm_ap_id r"
  shows "keeps (\<lambda>d. local_accounts d = l) (actor_upsert_remote r)"
proof (rule keepsI)
  fix t d a d' assume l: "local_accounts d = l" and run: "actor_upsert_remote r t d = Inr (a, d')"
  have other: "ac_domain b \<noteq> None" if "b \<in> set (actors d)" "ac_ap_id b = rm_ap_id r" for b
  proof
    assume "ac_domain b = None"
    then have "b \<in> set l" using l that by (auto simp: local_accounts_def)
    with assms that show False by blast
  qed
  show "local_accounts d' = l"
  proof (cases "list_ex (\<lambda>a. ac_ap_id a = rm_ap_id r) (actors d)")
    case True
    then have "actors d' = update_where (\<lambda>a. ac_ap_id a = rm_ap_id r) (\<lambda>a. (refresh_actor r t a)\<lparr>ac_updated_at := t\<rparr>) (actors d)"
      using run by (auto simp: actor_upsert_remote_def fetch_one_def update_actor_def put_actors_def Let_def
          split: if_splits option.splits sum.splits)
    moreover have "filter (\<lambda>a. ac_domain a = None) (update_where (\<lambda>a. ac_ap_id a = rm_ap_id r)
        (\<lambda>a. (refresh_actor r t a)\<lparr>ac_updated_at := t\<rparr>) rs) = filter (\<lambda>a. ac_domain a = None) rs"
      if "set rs \<subseteq> set (actors d)" for rs
      using that other by (induction rs) (auto simp: refresh_actor_def)
    ultimately show ?thesis using l by (simp add: local_accounts_def)
  next
    case False
    then have "\<exists>b. actors d' = actors d @ [b] \<and> ac_domain b = Some (rm_domain r)"
      using run by (auto simp: actor_upsert_remote_def insert_actor_def put_actors_def new_actor_def split: if_splits)
    then show ?thesis using l by (auto simp: local_accounts_def)
  qed
qed

text \<open>Statements that leave the table of actors alone.\<close>

lemma keeps_actors:
  "(\<And>t d x d'. f t d = Inr (x, d') \<Longrightarrow> actors d' = actors d) \<Longrightarrow> keeps (\<lambda>d. local_accounts d = l) f"
  by (rule keepsI) (auto simp: local_accounts_def)

lemma follow_stmts_keep_local:
  "keeps (\<lambda>d. local_accounts d = l) (follow_upsert a b i st)"
  "keeps (\<lambda>d. local_accounts d = l) (activity_create_outbound act x ob v)"
  "keeps (\<lambda>d. local_accounts d = l) (job_create k payload t)"
  "keeps (\<lambda>d. local_accounts d = l) (instance_upsert_success host sw ver inb)"
proof -
  show "keeps (\<lambda>d. local_accounts d = l) (follow_upsert a b i st)"
    by (rule keeps_actors) (auto simp: follow_upsert_def fetch_one_def update_follow_def insert_follow_def Let_def
        split: if_splits option.splits sum.splits)
  show "keeps (\<lambda>d. local_accounts d = l) (activity_create_outbound act x ob v)"
    by (rule keeps_actors) (auto simp: activity_create_outbound_def append_activity_def Let_def split: if_splits)
  show "keeps (\<lambda>d. local_accounts d = l) (job_create k payload t)"
    by (rule keeps_actors) (auto simp: job_create_def Let_def split: if_splits)
  show "keeps (\<lambda>d. local_accounts d = l) (instance_upsert_success host sw ver inb)"
    by (rule keeps_actors) (auto simp: instance_upsert_success_def Let_def split: if_splits option.splits)
qed


lemma keep_local_or_500:
  assumes "keeps (\<lambda>d. local_accounts d = l) f" and "local_accounts (db w) = l"
    and "\<And>x w. local_accounts (db w) = l \<Longrightarrow> local_accounts (db (snd (k x w))) = l"
  shows "local_accounts (db (snd (or_500 env (exec f w) k))) = l"
  using keeps_execD [OF assms(1,2)] assms(3) by (cases "exec f w") (auto simp: or_500_def split: sum.splits)

lemma job_keeps_local: "local_accounts (db w) = l \<Longrightarrow> local_accounts (db (snd (exec (job_create k payload t) w))) = l"
  by (rule keeps_exec [OF follow_stmts_keep_local(3)])

lemma enqueue_keeps_local:
  assumes "local_accounts (db w) = l"
  shows "local_accounts (db (snd (enqueue_delivery a u v w))) = l"
    and "local_accounts (db (snd (enqueue_follow_delivery a b v w))) = l"
  unfolding enqueue_delivery_def enqueue_follow_delivery_def using assms
  by (auto simp: try_then_def fed_def job_keeps_local split: prod.splits sum.splits
      dest!: arg_cong [where f = "\<lambda>r. local_accounts (db (snd r))" and x = "exec _ _"])

lemma log_outbound_keeps_local: "local_accounts (db w) = l \<Longrightarrow> local_accounts (db (log_outbound v auth ob w)) = l"
  unfolding log_outbound_def by (rule keeps_exec [OF follow_stmts_keep_local(2)])

lemma keep_local_or_fed_500:
  assumes "local_accounts (db (snd r)) = l"
    and "\<And>x w. local_accounts (db w) = l \<Longrightarrow> local_accounts (db (snd (k x w))) = l"
  shows "local_accounts (db (snd (or_fed_500 fx title r k))) = l"
  using assms by (cases r) (auto simp: or_fed_500_def split: sum.splits)

lemma follow_row_keeps_local:
  "local_accounts (db w) = l \<Longrightarrow> local_accounts (db (snd (follow_row env fx auth target w))) = l"
  by (auto simp: follow_row_def Let_def enqueue_keeps_local log_outbound_keeps_local
      intro!: keep_local_or_500 keep_local_or_fed_500 follow_stmts_keep_local)

lemma follow_uri_target_keeps_local:
  "local_accounts (db w) = l \<Longrightarrow> local_accounts (db (snd (follow_uri_target env fx auth b target w))) = l"
  by (auto simp: follow_uri_target_def Let_def enqueue_keeps_local log_outbound_keeps_local
      intro!: keep_local_or_500 keep_local_or_fed_500 follow_stmts_keep_local)

lemma follow_by_id_keeps_local:
  "local_accounts (db w) = l \<Longrightarrow> local_accounts (db (snd (follow_by_id env fx auth i w))) = l"
  by (auto simp: follow_by_id_def actor_fetch_by_id_def actor_by_def follow_row_keeps_local split: option.splits intro!: keep_local_or_500)

text \<open>What is fetched carries the id that was asked for.\<close>

lemma fetch_remote_object_json_id:
  assumes "fetch_remote_object_json env u w = (r, w')"
  shows "db w' = db w" and "r = Inr v \<Longrightarrow> unwrap_or [] (get_str ''id'' v) = u_str u"
  using assms http_get_db [of env u w]
  by (auto simp: fetch_remote_object_json_def try_then_def Let_def split: prod.splits sum.splits if_splits option.splits)


text \<open>Parsing the text of a parsed URL gives that URL again, and the ids of local actors are local URLs.\<close>

definition parse_is_stable :: "fed_server \<Rightarrow> bool" where
  "parse_is_stable fx \<longleftrightarrow> (\<forall>s u. dv_parse_url (fx_net fx) s = Some u \<longrightarrow> dv_parse_url (fx_net fx) (u_str u) = Some u)"

definition local_ids_are_local :: "fed_server \<Rightarrow> actor list \<Rightarrow> bool" where
  "local_ids_are_local fx as \<longleftrightarrow> (\<forall>a\<in>set as. case dv_parse_url (fx_net fx) (ac_ap_id a) of
     None \<Rightarrow> False | Some u \<Rightarrow> is_local_url u (fe_domain (fx_data fx)))"

lemma parsed_ap_id:
  "parse_remote_actor_json p v = Inr r \<Longrightarrow> \<exists>u. p (unwrap_or [] (get_str ''id'' v)) = Some u \<and> rm_ap_id r = u_str u"
  by (auto simp: parse_remote_actor_json_def remote_parts_def unwrap_or_def split: option.splits)

lemma fetch_remote_actor_keeps_local:
  assumes stable: "parse_is_stable fx" and ids: "local_ids_are_local fx l" and l: "local_accounts (db w) = l"
    and u: "dv_parse_url (fx_net fx) s = Some u" "\<not> is_local_url u (fe_domain (fx_data fx))"
  shows "local_accounts (db (snd (fetch_remote_actor (fx_net fx) u w))) = l"
proof -
  obtain r w1 where fetch: "fetch_remote_object_json (fx_net fx) u w = (r, w1)" by fastforce
  have w1: "local_accounts (db w1) = l" using fetch_remote_object_json_id(1) [OF fetch] l by simp
  have upsert: "keeps (\<lambda>d. local_accounts d = l) (actor_upsert_remote parts)"
    if "r = Inr v" "parse_remote_actor_json (dv_parse_url (fx_net fx)) v = Inr parts" for v parts
  proof (rule upsert_remote_keeps_local)
    have "rm_ap_id parts = u_str u"
      using parsed_ap_id [OF that(2)] fetch_remote_object_json_id(2) [OF fetch that(1)] stable u(1)
      by (auto simp: parse_is_stable_def)
    then show "ac_ap_id a \<noteq> rm_ap_id parts" if "a \<in> set l" for a
      using that ids stable u by (auto simp: local_ids_are_local_def parse_is_stable_def split: option.splits)
  qed
  show ?thesis
  proof (cases r)
    case (Inr v)
    show ?thesis
    proof (cases "parse_remote_actor_json (dv_parse_url (fx_net fx)) v")
      case (Inr parts)
      then have "local_accounts (db (snd (exec (actor_upsert_remote parts) w1))) = l"
        using keeps_exec [OF upsert [OF \<open>r = Inr v\<close> Inr], of w1] w1 by simp
      then show ?thesis using fetch \<open>r = Inr v\<close> Inr
        by (cases "exec (actor_upsert_remote parts) w1"; cases "fst (exec (actor_upsert_remote parts) w1)")
           (auto simp: fetch_remote_actor_def try_then_def fed_def intro!: keeps_exec [OF follow_stmts_keep_local(4)])
    qed (use fetch w1 \<open>r = Inr v\<close> in \<open>simp add: fetch_remote_actor_def try_then_def\<close>)
  qed (use fetch w1 in \<open>simp add: fetch_remote_actor_def try_then_def\<close>)
qed

lemma follow_by_uri_keeps_local:
  assumes "parse_is_stable fx" and "local_ids_are_local fx l" and l: "local_accounts (db w) = l"
  shows "local_accounts (db (snd (follow_by_uri env fx auth uri w))) = l"
proof (cases "dv_parse_url (fx_net fx) uri")
  case (Some u)
  obtain r w1 where t: "uri_target env fx u w = (r, w1)" by fastforce
  have "local_accounts (db w1) = l"
  proof (cases "is_local_url u (fe_domain (fx_data fx))")
    case True
    have "local_accounts (db (snd (exec (actor_fetch_by_username_local x) w))) = l" for x
      using l by (simp add: actor_fetch_by_username_local_def actor_by_def)
    from this [of "last (split_on (CHR ''/'') (fx_path fx u))"] True t show ?thesis
      by (auto simp: uri_target_def split: prod.splits sum.splits option.splits)
  next
    case False
    with fetch_remote_actor_keeps_local [OF assms Some False] t show ?thesis
      by (auto simp: uri_target_def split: prod.splits sum.splits)
  qed
  then show ?thesis using Some t
    by (auto simp: follow_by_uri_def l follow_uri_target_keeps_local split: sum.splits)
qed (simp add: follow_by_uri_def l)

text \<open>C38: following anyone, by id or by URI, leaves every local account exactly as it was: a URI of this
  instance is answered from its own rows, and a document that is fetched can only update the row of the URL it was
  fetched from, which is no local one. This rests on the URL parser reading its own output back, and on the
  ids of the local actors being URLs of this instance.\<close>

theorem follow_spares_local_accounts:
  assumes "parse_is_stable fx" and "local_ids_are_local fx (local_accounts (db w))"
  shows "local_accounts (db (snd (api_follow env fx auth body w))) = local_accounts (db w)"
  using assms
  by (auto simp: api_follow_def with_pool_def follow_by_id_keeps_local
      intro: follow_by_uri_keeps_local split: option.splits)


section \<open>What resolving a handle does\<close>

lemma upserted_is_remote:
  assumes "actor_upsert_remote r t d = Inr (a, d')"
  shows "ac_ap_id a = rm_ap_id r \<and> (\<forall>b\<in>set (actors d'). ac_ap_id b = rm_ap_id r \<longrightarrow> ac_domain b \<noteq> None)"
proof (cases "list_ex (\<lambda>a. ac_ap_id a = rm_ap_id r) (actors d)")
  case True
  have no_miss: "ac_domain b \<noteq> None"
    if "b \<in> set (update_where (\<lambda>a. ac_ap_id a = rm_ap_id r) (\<lambda>a. (refresh_actor r t a)\<lparr>ac_updated_at := t\<rparr>) rs)"
      "ac_ap_id b = rm_ap_id r" for b rs
    using that by (induction rs) (auto simp: refresh_actor_def split: if_splits)
  have hits: "ac_ap_id b = rm_ap_id r"
    if "returning (\<lambda>a. ac_ap_id a = rm_ap_id r) (\<lambda>a. (refresh_actor r t a)\<lparr>ac_updated_at := t\<rparr>) rs = b # bs" for b bs rs
    using that by (induction rs) (auto simp: returning_def refresh_actor_def split: if_splits)
  from True assms show ?thesis
    by (auto simp: actor_upsert_remote_def fetch_one_def update_actor_def put_actors_def Let_def fetch_optional_def
        split: if_splits option.splits sum.splits list.splits dest: no_miss hits)
next
  case False
  with assms show ?thesis
    by (auto simp: actor_upsert_remote_def insert_actor_def put_actors_def new_actor_def list_ex_iff split: if_splits)
qed

lemma fetched_is_remote:
  assumes "fetch_remote_actor env u w = (Inr a, w')"
  shows "\<forall>b\<in>set (actors (db w')). ac_ap_id b = ac_ap_id a \<longrightarrow> ac_domain b \<noteq> None"
proof -
  obtain v w1 where "fetch_remote_object_json env u w = (Inr v, w1)"
    using assms by (auto simp: fetch_remote_actor_def try_then_def split: prod.splits sum.splits)
  moreover from this obtain parts where "parse_remote_actor_json (dv_parse_url env) v = Inr parts"
    using assms by (auto simp: fetch_remote_actor_def try_then_def split: sum.splits)
  ultimately obtain w2 where up: "exec (actor_upsert_remote parts) w1 = (Inr a, w2)"
    and w': "w' = snd (exec (instance_upsert_success (rm_domain parts) None None (rm_inbox_url parts)) w2)"
    using assms by (auto simp: fetch_remote_actor_def try_then_def fed_def split: prod.splits sum.splits)
  have "actor_upsert_remote parts (now w1) (db w1) = Inr (a, db w2)"
    using exec_InrD [OF up] by simp
  from upserted_is_remote [OF this]
  have "\<forall>b\<in>set (actors (db w2)). ac_ap_id b = ac_ap_id a \<longrightarrow> ac_domain b \<noteq> None" by auto
  moreover have "actors (db w') = actors (db w2)" unfolding w'
    by (rule keeps_exec [of "\<lambda>d. actors d = actors (db w2)"])
       (auto intro!: keepsI simp: instance_upsert_success_def Let_def split: if_splits option.splits)
  ultimately show ?thesis by simp
qed

text \<open>C39: a handle that resolves leaves no row with the id of the result that counts as local. The
  domain of the handle is never compared with that of the instance: when it is the instance's own, the row
  of the local account itself becomes a remote one, and its owner can no longer be found by name.\<close>

theorem resolved_actor_is_remote:
  assumes "resolve_remote_actor_by_handle env handle w = (Some a, w')"
  shows "filter (\<lambda>b. ac_ap_id b = ac_ap_id a \<and> ac_domain b = None) (actors (db w')) = []"
  using assms
  by (auto simp: resolve_remote_actor_by_handle_def resolve_at_def filter_empty_conv split: option.splits prod.splits if_splits sum.splits
      dest!: fetched_is_remote)

section \<open>A small federation\<close>

text \<open>The actor documents of \<^verbatim>\<open>a.test\<close> and \<^verbatim>\<open>b.test\<close>, as their servers publish them.\<close>

definition demo_actor_doc :: "string \<Rightarrow> json" where
  "demo_actor_doc i = JObj [(''id'', JStr i), (''type'', JStr ''Person''), (''preferredUsername'', JStr ''alice''),
     (''inbox'', JStr (i @ ''/inbox'')), (''publicKey'', JObj [(''publicKeyPem'', JStr ''pub'')])]"

definition demo_fed_net :: backfill_env where
  "demo_fed_net = demo_backfill_env\<lparr>bf_get := (\<lambda>_ _ u. Got 200 (Some (u_str u))),
     bf_json := (\<lambda>s. Some (if contains_sub ''webfinger'' s
       then JObj [(''links'', JArr [JObj [(''rel'', JStr ''self''), (''href'', JStr ''https://a.test/users/alice'')]])]
       else demo_actor_doc s))\<rparr>"

definition demo_fed_server :: fed_server where
  "demo_fed_server = \<lparr>fx_data = demo_env, fx_net = demo_fed_net, fx_context = JNull, fx_public_key = (\<lambda>_ _. JNull),
     fx_webfinger_name = (\<lambda>s. Inr s), fx_webfinger_jrd = (\<lambda>_ _. JNull), fx_verify = (\<lambda>_. Inl (Unparseable [])),
     fx_path = (\<lambda>u. u_str u), fx_url_error = (\<lambda>_. ''url''), fx_fed_text = (\<lambda>_. ''fed''), fx_package_version = ''0''\<rparr>"

definition demo_follow :: follow_request where
  "demo_follow = \<lparr>fq_actor_uri = Some ''https://b.test/users/2'', fq_target_actor_id = None\<rparr>"

lemma demo_follow_server_ok:
  "parse_is_stable demo_fed_server" "local_ids_are_local demo_fed_server (local_accounts (db demo_web_world))"
  by (auto simp: parse_is_stable_def demo_fed_server_def demo_fed_net_def demo_backfill_env_def demo_parse_url_def
      split: if_splits) code_simp

theorem follow_spares_local_accounts_witness:
  "local_accounts (db (snd (api_follow demo_server_env demo_fed_server demo_auth demo_follow demo_web_world))) = [demo_author] \<and>
   length (actors (db (snd (api_follow demo_server_env demo_fed_server demo_auth demo_follow demo_web_world)))) = 3"
proof -
  have l: "local_accounts (db demo_web_world) = [demo_author]" by code_simp
  have n: "length (actors (db (snd (api_follow demo_server_env demo_fed_server demo_auth demo_follow demo_web_world)))) = 3"
    by code_simp
  from follow_spares_local_accounts [OF demo_follow_server_ok, of demo_server_env demo_auth demo_follow] l n
  show ?thesis by simp
qed

text \<open>Resolving \<^verbatim>\<open>alice@a.test\<close> on \<^verbatim>\<open>a.test\<close>: alice is a local account before and none after.\<close>

lemma demo_handle: "parse_remote_handle ''alice@a.test'' = Some (''alice'', ''a.test'')"
  using trim_graphic [of "''alice@a.test''"] trim_graphic [of "''a.test''"]
  by (simp add: parse_remote_handle_def trim_ats_def split_once_def graphic_def code_def)

theorem resolved_actor_is_remote_witness:
  "filter (\<lambda>b. ac_ap_id b = ''https://a.test/users/alice'' \<and> ac_domain b = None)
     (actors (db (snd (resolve_remote_actor_by_handle demo_fed_net ''alice@a.test'' demo_web_world)))) = [] \<and>
   length (filter (\<lambda>b. ac_ap_id b = ''https://a.test/users/alice'' \<and> ac_domain b = None) (actors (db demo_web_world))) = 1"
proof -
  have r: "map_option ac_ap_id (fst (resolve_remote_actor_by_handle demo_fed_net ''alice@a.test'' demo_web_world)) =
      Some ''https://a.test/users/alice''"
    unfolding resolve_remote_actor_by_handle_def demo_handle option.case prod.case by code_simp
  then obtain a where a: "fst (resolve_remote_actor_by_handle demo_fed_net ''alice@a.test'' demo_web_world) = Some a"
    and i: "ac_ap_id a = ''https://a.test/users/alice''" by auto
  have "length (filter (\<lambda>b. ac_ap_id b = ''https://a.test/users/alice'' \<and> ac_domain b = None) (actors (db demo_web_world))) = 1"
    by code_simp
  with resolved_actor_is_remote [OF prod_eqI, of demo_fed_net "''alice@a.test''" demo_web_world a
      "snd (resolve_remote_actor_by_handle demo_fed_net ''alice@a.test'' demo_web_world)"] a i
  show ?thesis by simp
qed

end
