(* ===== verification/Profile_Api.thy ===== *)
theory Profile_Api
  imports Accounts Follow_Api
begin

text \<open>
  The public lookups of \<^verbatim>\<open>crates/server/src/social.rs\<close>: the search over actors, tags and captions, which
  resolves unknown handles over the network, and the profile page. Parameters (record \<open>search_env\<close>): SQL's
  \<^verbatim>\<open>ILIKE\<close>, and the network of the federation. A query without \<^verbatim>\<open>ORDER BY\<close> is read in table order.
\<close>

record search_env = upload_env +
  se_ilike :: "string \<Rightarrow> string \<Rightarrow> bool"
  se_net :: backfill_env

section \<open>Search\<close>

record search_params =
  sp_q :: "string option"
  sp_kind_filter :: "string option"

record actor_search_row =
  asr_username :: string
  asr_display_name :: "string option"
  asr_domain :: "string option"
  asr_avatar_path :: "string option"

definition actor_hit :: "actor \<Rightarrow> actor_search_row" where
  "actor_hit a = \<lparr>asr_username = ac_username a, asr_display_name = ac_display_name a, asr_domain = ac_domain a,
     asr_avatar_path = ac_avatar_path a\<rparr>"

definition actor_hit_json :: "actor_search_row \<Rightarrow> json" where
  "actor_hit_json r = JObj [(''username'', JStr (asr_username r)), (''display_name'', opt_json JStr (asr_display_name r)),
     (''domain'', opt_json JStr (asr_domain r)), (''avatar_path'', opt_json JStr (asr_avatar_path r))]"

text \<open>\<^verbatim>\<open>NULL ILIKE $1\<close> is not true.\<close>

definition matches :: "(string \<Rightarrow> string \<Rightarrow> bool) \<Rightarrow> string option \<Rightarrow> string \<Rightarrow> bool" where
  "matches ilike column pattern = (case column of None \<Rightarrow> False | Some s \<Rightarrow> ilike s pattern)"

definition search_actors :: "(string \<Rightarrow> string \<Rightarrow> bool) \<Rightarrow> string \<Rightarrow> actor_search_row list stmt" where
  "search_actors ilike q = select (\<lambda>t d. take 10 (map actor_hit (filter (\<lambda>a.
     (ilike (ac_username a) (q @ ''%'') \<or> matches ilike (ac_display_name a) (q @ ''%'')) \<and> in_good_standing a) (actors d))))"

definition search_tags :: "(string \<Rightarrow> string \<Rightarrow> bool) \<Rightarrow> string \<Rightarrow> string list stmt" where
  "search_tags ilike q = select (\<lambda>t d. take 10 (filter (\<lambda>tag.
     ilike tag (dropWhile (\<lambda>c. c = CHR ''#'') q @ ''%'')) (map ht_tag (hashtags d))))"

definition search_clips :: "(string \<Rightarrow> string \<Rightarrow> bool) \<Rightarrow> string \<Rightarrow> (int \<times> string option) list stmt" where
  "search_clips ilike q = select (\<lambda>t d. take 20 (map (\<lambda>c. (cl_id c, cl_caption_html c)) (filter (\<lambda>c.
     matches ilike (cl_caption_html c) (''%'' @ q @ ''%'') \<and> live_public c \<and> cl_status c = Ready) (clips d))))"

text \<open>No cached hit for something that looks like a handle: ask the network.\<close>

definition resolve_hits ::
  "'y search_env_scheme \<Rightarrow> string \<Rightarrow> actor_search_row list \<Rightarrow> 'z deliver_world_scheme \<Rightarrow>
     actor_search_row list \<times> 'z deliver_world_scheme" where
  "resolve_hits env q rows w =
     (if rows = [] \<and> CHR ''@'' \<in> set q
      then case resolve_remote_actor_by_handle (se_net env) (trim_ats (trim q)) w of
        (Some a, w) \<Rightarrow> ([actor_hit a], w)
      | (None, w) \<Rightarrow> ([], w)
      else (rows, w))"

definition wants :: "search_params \<Rightarrow> string \<Rightarrow> bool" where
  "wants params section_name = (case sp_kind_filter params of None \<Rightarrow> True | Some k \<Rightarrow> k = section_name)"

text \<open>One section of the answer: a statement whose error ends the request, and its member.\<close>

definition search_section ::
  "'y server_env_scheme \<Rightarrow> bool \<Rightarrow> 'a stmt \<Rightarrow> ('a \<Rightarrow> 'w pool_scheme \<Rightarrow> (string \<times> json) \<times> 'w pool_scheme) \<Rightarrow>
     (string \<times> json) list \<Rightarrow> 'w pool_scheme \<Rightarrow> ((string \<times> json) list \<Rightarrow> 'w pool_scheme \<Rightarrow> response \<times> 'w pool_scheme) \<Rightarrow>
     response \<times> 'w pool_scheme" where
  "search_section env wanted stmt member out w k =
     (if wanted then or_500 env (exec stmt w) (\<lambda>rows w. case member rows w of (m, w) \<Rightarrow> k (out @ [m]) w) else k out w)"

definition actors_member ::
  "'y search_env_scheme \<Rightarrow> string \<Rightarrow> actor_search_row list \<Rightarrow> 'z deliver_world_scheme \<Rightarrow> (string \<times> json) \<times> 'z deliver_world_scheme" where
  "actors_member env q rows w = (case resolve_hits env q rows w of
     (rows, w) \<Rightarrow> ((''actors'', JArr (map actor_hit_json rows)), w))"

definition tags_member :: "string list \<Rightarrow> 'w \<Rightarrow> (string \<times> json) \<times> 'w" where
  "tags_member tags w = ((''tags'', JArr (map JStr tags)), w)"

definition clips_member :: "(int \<times> string option) list \<Rightarrow> 'w \<Rightarrow> (string \<times> json) \<times> 'w" where
  "clips_member rows w = ((''clips'', JArr (map (\<lambda>(i, caption). JObj [(''id'', JInt i),
     (''caption_html'', opt_json JStr caption)]) rows)), w)"

definition search ::
  "'y search_env_scheme \<Rightarrow> search_params \<Rightarrow> 'z deliver_world_scheme \<Rightarrow> response \<times> 'z deliver_world_scheme" where
  "search env params w = with_pool env w (\<lambda>w.
     let q = trim (unwrap_or [] (sp_q params)); ilike = se_ilike env in
     if char_count q < 2 then (problem 400 ''invalid query'' ''q is required and must be at least 2 characters'', w)
     else if \<not> (case sp_kind_filter params of None \<Rightarrow> True | Some k \<Rightarrow> k \<in> {''actors'', ''tags'', ''clips''})
     then (problem 400 ''invalid type'' ''type must be one of actors, tags, clips'', w)
     else search_section env (wants params ''actors'') (search_actors ilike q) (actors_member env q) [] w (\<lambda>out w.
       search_section env (wants params ''tags'') (search_tags ilike q) tags_member out w (\<lambda>out w.
       search_section env (wants params ''clips'') (search_clips ilike q) clips_member out w (\<lambda>out w.
         (reply 200 (JObj out), w)))))"

section \<open>Profiles\<close>

record profile_params =
  pp_domain :: "string option"
  pp_cursor :: "string option"
  pp_page :: "64 word option"

definition profile_actor :: "string \<Rightarrow> string option \<Rightarrow> actor option stmt" where
  "profile_actor username domain = select (\<lambda>t d. fetch_optional (filter (\<lambda>a. citext_eq (ac_username a) username \<and>
     ac_domain a = domain \<and> in_good_standing a) (actors d)))"

definition profile_rows :: "int \<Rightarrow> db \<Rightarrow> feed_clip_row list" where
  "profile_rows actor_id d = [feed_row c a. c \<leftarrow> clips d, a \<leftarrow> actors d,
     ac_id a = cl_actor_id c \<and> live_public c \<and> playable c \<and> cl_actor_id c = actor_id]"

definition profile_clips :: "int \<Rightarrow> timestamp option \<Rightarrow> int option \<Rightarrow> int \<Rightarrow> feed_clip_row list stmt" where
  "profile_clips actor_id = keyset_page feed_key (profile_rows actor_id)"

definition count_followers :: "int \<Rightarrow> int stmt" where
  "count_followers i = select (\<lambda>t d. int (length (filter (\<lambda>f. fo_target_actor_id f = i \<and> fo_state f = Accepted) (follows d))))"

definition count_following :: "int \<Rightarrow> int stmt" where
  "count_following i = select (\<lambda>t d. int (length (filter (\<lambda>f. fo_follower_actor_id f = i \<and> fo_state f = Accepted) (follows d))))"

text \<open>\<^verbatim>\<open>SUM\<close> of a \<^verbatim>\<open>BIGINT\<close> column is a \<^verbatim>\<open>NUMERIC\<close>, which sqlx does not decode as \<^verbatim>\<open>i64\<close>: the
  error is replaced by 0.\<close>

definition sum_likes :: "int \<Rightarrow> int stmt" where
  "sum_likes i = select (\<lambda>t d. sum_list (map cl_like_count (filter (\<lambda>c. cl_actor_id c = i \<and> cl_deleted_at c = None) (clips d))))"

definition i64_of_numeric :: "int \<Rightarrow> int option" where
  "i64_of_numeric n = None"

definition total_likes :: "int \<Rightarrow> 'z pool_scheme \<Rightarrow> int \<times> 'z pool_scheme" where
  "total_likes i w = (case exec (sum_likes i) w of (Inl e, w) \<Rightarrow> (0, w) | (Inr n, w) \<Rightarrow> (unwrap_or 0 (i64_of_numeric n), w))"

lemma likes_received_is_zero: "fst (total_likes i w) = 0"
  by (simp add: total_likes_def i64_of_numeric_def unwrap_or_def split: prod.splits sum.splits)

definition viewer_following :: "auth_user option \<Rightarrow> int \<Rightarrow> 'z pool_scheme \<Rightarrow> bool \<times> 'z pool_scheme" where
  "viewer_following viewer i w = (case viewer of
     None \<Rightarrow> (False, w)
   | Some auth \<Rightarrow> (case found_or_none (exec (follow_fetch_by_pair (ac_id (au_actor auth)) i) w) of
       (f, w) \<Rightarrow> ((case f of None \<Rightarrow> False | Some f \<Rightarrow> fo_state f = Accepted), w)))"

definition profile_card :: "actor \<Rightarrow> json" where
  "profile_card a = JObj [(''actor_id'', JInt (ac_id a)), (''username'', JStr (ac_username a)),
     (''display_name'', opt_json JStr (ac_display_name a)), (''domain'', opt_json JStr (ac_domain a)),
     (''avatar_path'', opt_json JStr (ac_avatar_path a)), (''summary'', opt_json JStr (ac_summary a))]"

definition profile_answer ::
  "auth_user option \<Rightarrow> actor \<Rightarrow> json list \<Rightarrow> json \<Rightarrow> 'z pool_scheme \<Rightarrow> response \<times> 'z pool_scheme" where
  "profile_answer viewer a items cursor w =
     (case or_zero_count (exec (count_followers (ac_id a)) w) of (followers, w) \<Rightarrow>
      case or_zero_count (exec (count_following (ac_id a)) w) of (following, w) \<Rightarrow>
      case total_likes (ac_id a) w of (likes_received, w) \<Rightarrow>
      case viewer_following viewer (ac_id a) w of (is_following, w) \<Rightarrow>
        (reply 200 (JObj [(''actor'', profile_card a), (''follower_count'', JInt followers),
           (''following_count'', JInt following), (''likes_received'', JInt likes_received),
           (''is_following'', JBool is_following), (''clips'', JArr items), (''next_cursor'', cursor)]), w))"

definition profile_grid ::
  "'y api_env_scheme \<Rightarrow> auth_user option \<Rightarrow> string \<Rightarrow> profile_params \<Rightarrow> 'z pool_scheme \<Rightarrow> response \<times> 'z pool_scheme" where
  "profile_grid env viewer username params w = with_pool env w (\<lambda>w.
     let page = \<lparr>fp_cursor = pp_cursor params, fp_page = pp_page params\<rparr>; limit = feed_limit page in
     case cursor_keyset (ap_time_ok env) page of
       Inl resp \<Rightarrow> (resp, w)
     | Inr (before_created_at, before_id) \<Rightarrow>
         or_500 env (exec (profile_actor username (pp_domain params)) w) (\<lambda>found w. case found of
             None \<Rightarrow> (problem 404 ''profile not found'' (''no actor named @'' @ username), w)
           | Some a \<Rightarrow> or_500 env (exec (profile_clips (ac_id a) before_created_at before_id limit) w) (\<lambda>rows w.
               case feed_rows_to_values env rows w of
                 (Inl resp, w) \<Rightarrow> (resp, w)
               | (Inr items, w) \<Rightarrow> profile_answer viewer a items (next_cursor feed_key rows limit) w)))"


section \<open>What a search may change\<close>

text \<open>A search only reads, unless its text holds an \<^verbatim>\<open>@\<close>: then it may store one remote actor.\<close>

lemma search_section_db:
  fixes w :: "'w pool_scheme"
  assumes "\<And>out w. db w = d \<Longrightarrow> db (snd (k out w)) = d" and "\<And>rows w. db w = d \<Longrightarrow> db (snd (member rows w)) = d"
    and "db w = d" and "\<And>v :: 'w pool_scheme. db (snd (exec stmt v)) = db v"
  shows "db (snd (search_section env wanted stmt member out w k)) = d"
proof -
  obtain r w1 where run: "exec stmt w = (r, w1)" by fastforce
  have w1: "db w1 = d" using assms(4) [of w] assms(3) run by simp
  show ?thesis
  proof (cases r)
    case (Inr rows)
    obtain m w2 where m: "member rows w1 = (m, w2)" by fastforce
    have "db w2 = d" using assms(2) [OF w1, of rows] m by simp
    then show ?thesis using assms(1,3) run Inr m by (simp add: search_section_def or_500_def)
  qed (use assms(1,3) run w1 in \<open>simp add: search_section_def or_500_def\<close>)
qed

lemma search_reads_only:
  assumes "CHR ''@'' \<notin> set (trim (unwrap_or [] (sp_q params)))"
  shows "db (snd (search env params w)) = db w"
  using assms
  by (auto simp: search_def with_pool_def Let_def search_actors_def search_tags_def search_clips_def actors_member_def
      resolve_hits_def tags_member_def clips_member_def intro!: search_section_db)

end
