(* ===== verification/Rate_Limit.thy ===== *)
theory Rate_Limit
  imports Egress
begin

text \<open>
  The in-memory rate limiter of \<^verbatim>\<open>crates/server/src/ratelimit.rs\<close>: one fixed window per client address,
  and the choice of the client address of a request. The map behind the mutex is a function from
  addresses to windows, every call of \<^verbatim>\<open>check\<close> one atomic step. Instants count nanoseconds;
  \<^verbatim>\<open>duration_since\<close> saturates, as subtraction on \<open>nat\<close> does. The counters are 32-bit words. The parser of
  addresses is a parameter.
\<close>

section \<open>The limiter\<close>

record window =
  wn_start :: nat
  wn_count :: "32 word"

record rate_limiter =
  rl_inner :: "ip \<Rightarrow> window option"
  rl_limit :: "32 word"
  rl_window :: nat
  rl_trusted_proxies :: "ip list"

definition from_secs :: "nat \<Rightarrow> nat" where
  "from_secs n = n * 1000000000"

definition as_secs :: "nat \<Rightarrow> nat" where
  "as_secs d = d div 1000000000"

definition rate_limiter_new :: "32 word \<Rightarrow> rate_limiter" where
  "rate_limiter_new limit_per_min = \<lparr>rl_inner = (\<lambda>_. None), rl_limit = limit_per_min, rl_window = from_secs 60,
     rl_trusted_proxies = []\<rparr>"

definition rl_auth :: rate_limiter where "rl_auth = rate_limiter_new 10"
definition rl_upload :: rate_limiter where "rl_upload = rate_limiter_new 6"
definition rl_accounts :: rate_limiter where "rl_accounts = rate_limiter_new 60"
definition rl_admin :: rate_limiter where "rl_admin = rate_limiter_new 30"
definition rl_general :: rate_limiter where "rl_general = rate_limiter_new 120"

definition with_trusted_proxies :: "rate_limiter \<Rightarrow> ip list \<Rightarrow> rate_limiter" where
  "with_trusted_proxies rl proxies = rl\<lparr>rl_trusted_proxies := proxies\<rparr>"

text \<open>The bucket a hit meets: the stored one, or a fresh one if there is none or it has expired.\<close>

definition current_window :: "nat \<Rightarrow> nat \<Rightarrow> window option \<Rightarrow> window" where
  "current_window win t w = (case w of
     None \<Rightarrow> \<lparr>wn_start = t, wn_count = 0\<rparr>
   | Some b \<Rightarrow> if t - wn_start b \<ge> win then \<lparr>wn_start = t, wn_count = 0\<rparr> else b)"

definition check :: "rate_limiter \<Rightarrow> nat \<Rightarrow> ip \<Rightarrow> (nat + unit) \<times> rate_limiter" where
  "check rl t ip =
     (let b = current_window (rl_window rl) t (rl_inner rl ip) in
      if wn_count b \<ge> rl_limit rl
      then (Inl (max 1 (as_secs (rl_window rl - (t - wn_start b)))), rl\<lparr>rl_inner := (rl_inner rl)(ip \<mapsto> b)\<rparr>)
      else (Inr (), rl\<lparr>rl_inner := (rl_inner rl)(ip \<mapsto> b\<lparr>wn_count := wn_count b + 1\<rparr>)\<rparr>))"

section \<open>The client address\<close>

text \<open>What the limiter reads of a request: the socket peer, if known, and the \<^verbatim>\<open>X-Forwarded-For\<close> header.\<close>

record request_origin =
  ro_peer :: "ip option"
  ro_xff :: "string option"

definition forwarded_first_hop :: "(string \<Rightarrow> ip option) \<Rightarrow> request_origin \<Rightarrow> ip option" where
  "forwarded_first_hop parse_ip req =
     Option.bind (ro_xff req) (\<lambda>s. parse_ip (trim (hd (split_on (CHR '','') s))))"

definition localhost :: ip where
  "localhost = IP4 (V4 127 0 0 1)"

definition client_ip :: "(string \<Rightarrow> ip option) \<Rightarrow> request_origin \<Rightarrow> ip list \<Rightarrow> ip" where
  "client_ip parse_ip req trusted_proxies = (case ro_peer req of
     Some peer \<Rightarrow>
       if peer \<in> set trusted_proxies
       then (case forwarded_first_hop parse_ip req of Some xff \<Rightarrow> xff | None \<Rightarrow> peer)
       else peer
   | None \<Rightarrow> (case forwarded_first_hop parse_ip req of Some xff \<Rightarrow> xff | None \<Rightarrow> localhost))"

text \<open>\<^verbatim>\<open>apply\<close>: the request goes on, or is answered \<^verbatim>\<open>429\<close> with the number of seconds to wait.\<close>

definition apply_limit ::
  "(string \<Rightarrow> ip option) \<Rightarrow> request_origin \<Rightarrow> nat \<Rightarrow> rate_limiter \<Rightarrow> (nat + unit) \<times> rate_limiter" where
  "apply_limit parse_ip req t rl = check rl t (client_ip parse_ip req (rl_trusted_proxies rl))"

section \<open>Runs\<close>

text \<open>A sequence of hits; the result of each is whether it passed.\<close>

fun run_checks :: "rate_limiter \<Rightarrow> (nat \<times> ip) list \<Rightarrow> (nat \<times> ip \<times> bool) list" where
  "run_checks rl [] = []"
| "run_checks rl ((t, ip) # hs) = (case check rl t ip of
     (r, rl') \<Rightarrow> (t, ip, r = Inr ()) # run_checks rl' hs)"

definition passed_between :: "nat \<Rightarrow> nat \<Rightarrow> ip \<Rightarrow> (nat \<times> ip \<times> bool) list \<Rightarrow> nat" where
  "passed_between a b ip rs = length (filter (\<lambda>(t, i, ok). i = ip \<and> ok \<and> a \<le> t \<and> t < b) rs)"

text \<open>The hits of one address see only its own bucket.\<close>

fun bucket_run :: "nat \<Rightarrow> 32 word \<Rightarrow> window option \<Rightarrow> nat list \<Rightarrow> (nat \<times> bool) list" where
  "bucket_run win limit w [] = []"
| "bucket_run win limit w (t # ts) =
     (let b = current_window win t w in
      if wn_count b \<ge> limit then (t, False) # bucket_run win limit (Some b) ts
      else (t, True) # bucket_run win limit (Some (b\<lparr>wn_count := wn_count b + 1\<rparr>)) ts)"

lemma run_is_bucket_run:
  "map (\<lambda>(t, i, ok). (t, ok)) (filter (\<lambda>(t, i, ok). i = ip) (run_checks rl hs)) =
     bucket_run (rl_window rl) (rl_limit rl) (rl_inner rl ip) (map fst (filter (\<lambda>(t, i). i = ip) hs))"
proof (induction hs arbitrary: rl)
  case (Cons h hs)
  obtain t i where h: "h = (t, i)" by fastforce
  show ?case using Cons.IH by (auto simp: h check_def Let_def)
qed simp

definition passed_in :: "nat \<Rightarrow> nat \<Rightarrow> (nat \<times> bool) list \<Rightarrow> nat" where
  "passed_in a b rs = length (filter (\<lambda>(t, ok). ok \<and> a \<le> t \<and> t < b) rs)"

lemma passed_between_bucket:
  "passed_between a b ip (run_checks rl hs) =
     passed_in a b (bucket_run (rl_window rl) (rl_limit rl) (rl_inner rl ip) (map fst (filter (\<lambda>(t, i). i = ip) hs)))"
  unfolding run_is_bucket_run [symmetric] passed_between_def passed_in_def
  by (auto simp: filter_map comp_def case_prod_beta intro!: arg_cong [where f = length] filter_cong)

lemma passed_in_none: "list_all (\<lambda>t. b \<le> t) ts \<Longrightarrow> passed_in a b (bucket_run win limit w ts) = 0"
  by (induction ts arbitrary: w) (simp_all add: passed_in_def Let_def)

lemma passed_in_Cons: "passed_in a b ((t, ok) # rs) = (if ok \<and> a \<le> t \<and> t < b then Suc (passed_in a b rs) else passed_in a b rs)"
  by (simp add: passed_in_def)

text \<open>How many hits an interval of the length of the window can still let through, given the bucket: one
  that starts in the interval is the last that matters, one that reaches into it is followed by one
  more, and one that ended before it by at most two.\<close>

definition allowance :: "nat \<Rightarrow> nat \<Rightarrow> nat \<Rightarrow> window option \<Rightarrow> nat" where
  "allowance win limit a w = (case w of
     None \<Rightarrow> 2 * limit
   | Some b \<Rightarrow>
       if a \<le> wn_start b then limit - unat (wn_count b)
       else if a < wn_start b + win then 2 * limit - unat (wn_count b)
       else 2 * limit)"

lemma count_suc:
  assumes "c < (l :: 32 word)"
  shows "unat (c + 1) = Suc (unat c)" "Suc (unat c) \<le> unat l"
proof -
  have "c + 1 \<noteq> 0"
  proof
    assume "c + 1 = 0"
    then have "c = - 1" by (simp add: eq_neg_iff_add_eq_0)
    with assms show False by (simp add: word_less_def) (metis max_word_max not_less word_less_def)
  qed
  then show "unat (c + 1) = Suc (unat c)" using unatSuc [of c] by (simp add: add.commute)
  show "Suc (unat c) \<le> unat l" using assms by (simp add: word_less_nat_alt)
qed

lemma bucket_bound:
  assumes "sorted ts" and "list_all (\<lambda>t. \<forall>b. w = Some b \<longrightarrow> wn_start b \<le> t \<and> wn_count b \<le> limit) ts" and "0 < win"
  shows "passed_in a (a + win) (bucket_run win limit w ts) \<le> allowance win (unat limit) a w"
  using assms
proof (induction ts arbitrary: w)
  case (Cons t ts)
  define b where "b = current_window win t w"
  have later: "list_all (\<lambda>u. t \<le> u) ts" "sorted ts" using Cons.prems(1) by (auto simp: list_all_iff)
  have start: "wn_start b \<le> t" using Cons.prems(2) by (auto simp: b_def current_window_def split: option.splits)
  show ?case
  proof (cases "a + win \<le> t")
    case True
    with later have "list_all (\<lambda>u. a + win \<le> u) (t # ts)" by (auto simp: list_all_iff)
    from passed_in_none [OF this] show ?thesis by simp
  next
    case False
    have next_ok: "list_all (\<lambda>u. \<forall>b'. Some v = Some b' \<longrightarrow> wn_start b' \<le> u \<and> wn_count b' \<le> limit) ts"
      if "wn_start v \<le> t" "wn_count v \<le> limit" for v
      using later(1) that by (auto simp: list_all_iff)
    have count: "wn_count b \<le> limit"
      using Cons.prems(2) by (auto simp: b_def current_window_def word_le_nat_alt split: option.splits)
    have keep: "allowance win (unat limit) a (Some b) \<le> allowance win (unat limit) a w"
    proof (cases w)
      case None
      then show ?thesis by (auto simp: allowance_def)
    next
      case (Some b0)
      with Cons.prems(2) False Cons.prems(3) show ?thesis
        by (auto simp: allowance_def b_def current_window_def word_le_nat_alt)
    qed
    have fresh: "t < wn_start b + win"
      using Cons.prems(3) by (auto simp: b_def current_window_def split: option.splits)
    show ?thesis
    proof (cases "limit \<le> wn_count b")
      case True
      then have "bucket_run win limit w (t # ts) = (t, False) # bucket_run win limit (Some b) ts"
        by (simp add: b_def [symmetric] Let_def)
      with Cons.IH [OF later(2) next_ok [OF start count] Cons.prems(3)] keep show ?thesis by (simp add: passed_in_Cons)
    next
      case free: False
      let ?b = "b\<lparr>wn_count := wn_count b + 1\<rparr>"
      have lt: "wn_count b < limit" using free by simp
      note suc = count_suc [OF lt]
      have le: "wn_count ?b \<le> limit" using suc by (simp add: word_le_nat_alt)
      have run: "bucket_run win limit w (t # ts) = (t, True) # bucket_run win limit (Some ?b) ts"
        using free by (simp add: b_def [symmetric] Let_def)
      have ih: "passed_in a (a + win) (bucket_run win limit (Some ?b) ts) \<le> allowance win (unat limit) a (Some ?b)"
        by (rule Cons.IH [OF later(2) next_ok Cons.prems(3)]) (use start le in simp_all)
      have "(if a \<le> t then 1 else 0) + allowance win (unat limit) a (Some ?b) \<le> allowance win (unat limit) a (Some b)"
        using suc start fresh by (auto simp: allowance_def)
      with ih keep run False show ?thesis by (auto simp: passed_in_Cons split: if_splits)
    qed
  qed
qed (simp add: passed_in_def)



text \<open>A request that is turned away is told to wait between one and sixty seconds.\<close>

lemma retry_after_bounds:
  "rl_window rl = from_secs 60 \<Longrightarrow> fst (check rl t ip) = Inl n \<Longrightarrow> 1 \<le> n \<and> n \<le> 60"
  using div_le_mono [of "60000000000 - (t - wn_start (current_window 60000000000 t (rl_inner rl ip)))" 60000000000 1000000000]
  by (auto simp: check_def Let_def as_secs_def from_secs_def split: if_splits)

text \<open>Only the bucket of the address is touched, and a trusted proxy is the only peer that can speak for
  another address.\<close>

lemma check_isolated: "ip' \<noteq> ip \<Longrightarrow> rl_inner (snd (check rl t ip)) ip' = rl_inner rl ip'"
  by (simp add: check_def Let_def)

lemma peer_speaks_for_itself:
  "ro_peer req = Some peer \<Longrightarrow> peer \<notin> set trusted \<Longrightarrow> client_ip parse_ip req trusted = peer"
  by (simp add: client_ip_def)

end
