(* ===== verification/Admin.thy ===== *)
theory Admin
  imports Reactions
begin

text \<open>
  Administration: \<^verbatim>\<open>crates/server/src/admin.rs\<close> and the reports of
  \<^verbatim>\<open>crates/server/src/social.rs\<close>. Every handler first asks whether the caller is an
  administrator; every change is followed by an entry in the audit log, which is written
  best-effort. The properties: a request of anybody else changes nothing, no change goes
  unlogged, and a suspension locks the account out at once.
\<close>

section \<open>Guards and the audit log\<close>

definition settings_whitelist :: "string list" where
  "settings_whitelist = [''registration_mode'', ''federation_mode'', ''upload_size_cap_mb'', ''clip_max_seconds'',
     ''per_user_storage_quota_mb'', ''ffmpeg_threads'', ''jobs_job_timeout_secs'']"

definition default_setting_value :: "string \<Rightarrow> json" where
  "default_setting_value key =
     (if key = ''registration_mode'' \<or> key = ''federation_mode'' then JStr ''open''
      else if key = ''upload_size_cap_mb'' then JInt 500
      else if key = ''clip_max_seconds'' then JInt 180
      else if key = ''per_user_storage_quota_mb'' then JInt 0
      else if key = ''ffmpeg_threads'' then JInt 2
      else if key = ''jobs_job_timeout_secs'' then JInt 900
      else JNull)"

definition admins_only :: response where
  "admins_only = problem 403 ''forbidden'' ''admin privileges are required''"

text \<open>\<^verbatim>\<open>require_admin\<close>, then the rest of the handler.\<close>

definition require_admin :: "auth_user \<Rightarrow> 'w \<Rightarrow> ('w \<Rightarrow> response \<times> 'w) \<Rightarrow> response \<times> 'w" where
  "require_admin auth w k = (if us_is_admin (au_user auth) then k w else (admins_only, w))"

text \<open>A failed audit write is logged and otherwise ignored.\<close>

definition audit_logged ::
  "auth_user \<Rightarrow> string \<Rightarrow> string \<Rightarrow> int option \<Rightarrow> json \<Rightarrow> 'z pool_scheme \<Rightarrow> 'z pool_scheme" where
  "audit_logged auth action target_type target_id payload w =
     snd (exec (audit_log_stmt (ac_id (au_actor auth)) action target_type target_id payload) w)"

definition audit_attempted ::
  "auth_user \<Rightarrow> string \<Rightarrow> string \<Rightarrow> int option \<Rightarrow> json \<Rightarrow> 'z pool_scheme \<Rightarrow> 'z pool_scheme" where
  "audit_attempted auth action = audit_logged auth (action @ ''.attempted'')"

text \<open>A statement of an administrator: on an error the attempt is audited and answered 500.\<close>

definition attempt ::
  "'y server_env_scheme \<Rightarrow> ('z pool_scheme \<Rightarrow> 'z pool_scheme) \<Rightarrow> (db_error + 'a) \<times> 'z pool_scheme \<Rightarrow>
     ('a \<Rightarrow> 'z pool_scheme \<Rightarrow> response \<times> 'z pool_scheme) \<Rightarrow> response \<times> 'z pool_scheme" where
  "attempt env audit r k = (case r of
     (Inl e, w) \<Rightarrow> (db_problem env e, audit w)
   | (Inr a, w) \<Rightarrow> k a w)"

section \<open>Users\<close>

definition user_id_payload :: "int \<Rightarrow> json" where
  "user_id_payload i = JObj [(''user_id'', JInt i)]"

definition admin_user_rows :: "bool \<Rightarrow> db \<Rightarrow> (user \<times> actor) list" where
  "admin_user_rows only_pending d = sort_key (\<lambda>(u, a). us_id u)
     [(u, a). u \<leftarrow> users d, us_deleted_at u = None \<and> (only_pending \<longrightarrow> us_status u = Pending_Approval),
        a \<leftarrow> actors d, ac_id a = us_actor_id u]"

definition admin_user_json :: "(timestamp \<Rightarrow> string) \<Rightarrow> user \<times> actor \<Rightarrow> json" where
  "admin_user_json rfc3339 r = (case r of (u, a) \<Rightarrow> JObj [(''user_id'', JInt (us_id u)), (''actor_id'', JInt (us_actor_id u)),
     (''username'', JStr (ac_username a)), (''email'', opt_json JStr (us_email u)), (''status'', JStr (status_text (us_status u))),
     (''is_admin'', JBool (us_is_admin u)), (''suspended_at'', opt_json (\<lambda>t. JStr (rfc3339 t)) (ac_suspended_at a)),
     (''created_at'', JStr (rfc3339 (us_created_at u)))])"

definition list_users :: "'y server_env_scheme \<Rightarrow> auth_user \<Rightarrow> string option \<Rightarrow> 'z pool_scheme \<Rightarrow> response \<times> 'z pool_scheme" where
  "list_users env auth state w = with_pool env w (\<lambda>w. require_admin auth w (\<lambda>w.
     let payload = JObj [(''state'', JStr (unwrap_or ''all'' state))] in
     attempt env (audit_attempted auth ''user.list'' ''user'' None payload)
       (exec (select (\<lambda>t d. admin_user_rows (state = Some ''pending'') d)) w) (\<lambda>rows w.
       (reply 200 (JObj [(''users'', JArr (map (admin_user_json (sv_rfc3339 env)) rows))]),
        audit_logged auth ''user.list'' ''user'' None payload w))))"

definition no_user :: "int \<Rightarrow> response" where
  "no_user i = problem 404 ''user not found'' (''no user '' @ show_int i)"

definition approve_user :: "'y server_env_scheme \<Rightarrow> auth_user \<Rightarrow> int \<Rightarrow> 'z pool_scheme \<Rightarrow> response \<times> 'z pool_scheme" where
  "approve_user env auth i w = with_pool env w (\<lambda>w. require_admin auth w (\<lambda>w.
     let attempted = audit_attempted auth ''user.approve'' ''user'' (Some i) (user_id_payload i) in
     attempt env attempted (exec (user_set_status i Active) w) (\<lambda>updated w. case updated of
         None \<Rightarrow> (no_user i, attempted w)
       | Some _ \<Rightarrow> (reply 200 (JObj [(''user_id'', JInt i), (''status'', JStr ''active'')]),
           audit_logged auth ''user.approve'' ''user'' (Some i) (user_id_payload i) w))))"

definition suspend_payload :: "int \<Rightarrow> user \<Rightarrow> (string \<times> json) list \<Rightarrow> json" where
  "suspend_payload i user extra = JObj ([(''user_id'', JInt i), (''actor_id'', JInt (us_actor_id user))] @ extra)"

definition revoke_sessions :: "'y server_env_scheme \<Rightarrow> auth_user \<Rightarrow> int \<Rightarrow> user \<Rightarrow> 'z pool_scheme \<Rightarrow> response \<times> 'z pool_scheme" where
  "revoke_sessions env auth i user w =
     attempt env (audit_logged auth ''user.suspend'' ''user'' (Some i)
         (suspend_payload i user [(''note'', JStr ''session revocation failed'')]))
       (exec (session_delete_for_user (us_id user)) w) (\<lambda>_ w.
       case audit_logged auth ''user.suspend'' ''user'' (Some i) (suspend_payload i user []) w of w \<Rightarrow>
         (reply 200 (JObj [(''user_id'', JInt i), (''suspended_at'', JStr (sv_rfc3339 env (now w)))]), w))"

definition suspend_user :: "'y server_env_scheme \<Rightarrow> auth_user \<Rightarrow> int \<Rightarrow> 'z pool_scheme \<Rightarrow> response \<times> 'z pool_scheme" where
  "suspend_user env auth i w = with_pool env w (\<lambda>w. require_admin auth w (\<lambda>w.
     let attempted = audit_attempted auth ''user.suspend'' ''user'' (Some i) in
     attempt env (attempted (user_id_payload i)) (exec (user_fetch_by_id i) w) (\<lambda>found w. case found of
         None \<Rightarrow> (no_user i, attempted (user_id_payload i) w)
       | Some user \<Rightarrow> attempt env (attempted (suspend_payload i user [])) (exec (actor_suspend (us_actor_id user)) w)
           (\<lambda>suspended w. case suspended of
             None \<Rightarrow> (problem 404 ''actor not found'' ''user has no actor'', attempted (suspend_payload i user []) w)
           | Some _ \<Rightarrow> revoke_sessions env auth i user w))))"

section \<open>Domain blocks\<close>

definition domain_block_upsert :: "string \<Rightarrow> string option \<Rightarrow> unit stmt" where
  "domain_block_upsert domain note = (\<lambda>t d. Inr ((), d\<lparr>domain_blocks :=
     (if list_ex (\<lambda>b. dk_domain b = domain) (domain_blocks d)
      then update_where (\<lambda>b. dk_domain b = domain) (\<lambda>b. b\<lparr>dk_public_note := note\<rparr>) (domain_blocks d)
      else domain_blocks d @ [\<lparr>dk_domain = domain, dk_obfuscate = False, dk_public_note = note, dk_created_at = t\<rparr>])\<rparr>))"

definition domain_block_delete :: "string \<Rightarrow> unit stmt" where
  "domain_block_delete domain = (\<lambda>t d.
     Inr ((), d\<lparr>domain_blocks := delete_where (\<lambda>b. dk_domain b = domain) (domain_blocks d)\<rparr>))"

definition create_domain_block ::
  "'y api_env_scheme \<Rightarrow> auth_user \<Rightarrow> string \<Rightarrow> string option \<Rightarrow> 'z pool_scheme \<Rightarrow> response \<times> 'z pool_scheme" where
  "create_domain_block env auth raw note w = with_pool env w (\<lambda>w. require_admin auth w (\<lambda>w.
     let domain = ap_to_lowercase env (trim raw); payload = JObj [(''domain'', JStr domain)] in
     if domain = [] \<or> CHR ''/'' \<in> set domain then (problem 400 ''invalid domain'' ''domain must be a bare hostname'', w)
     else attempt env (audit_attempted auth ''domain_block.create'' ''domain_block'' None payload)
       (exec (domain_block_upsert domain note) w) (\<lambda>_ w.
       (reply 200 payload, audit_logged auth ''domain_block.create'' ''domain_block'' None payload w))))"

definition delete_domain_block ::
  "'y server_env_scheme \<Rightarrow> auth_user \<Rightarrow> string \<Rightarrow> 'z pool_scheme \<Rightarrow> response \<times> 'z pool_scheme" where
  "delete_domain_block env auth domain w = with_pool env w (\<lambda>w. require_admin auth w (\<lambda>w.
     let payload = JObj [(''domain'', JStr domain)] in
     attempt env (audit_attempted auth ''domain_block.delete'' ''domain_block'' None payload)
       (exec (domain_block_delete domain) w) (\<lambda>_ w.
       (reply 204 JNull, audit_logged auth ''domain_block.delete'' ''domain_block'' None payload w))))"

section \<open>Settings\<close>

definition keys_payload :: json where
  "keys_payload = JObj [(''keys'', JArr (map JStr settings_whitelist))]"

fun read_settings :: "string list \<Rightarrow> 'z pool_scheme \<Rightarrow> (db_error + (string \<times> json) list) \<times> 'z pool_scheme" where
  "read_settings [] w = (Inr [], w)"
| "read_settings (key # keys) w = try_then (exec (setting_fetch_by_key key) w) (\<lambda>row w.
     try_then (read_settings keys w) (\<lambda>rest w.
       (Inr ((key, case row of Some s \<Rightarrow> st_value s | None \<Rightarrow> default_setting_value key) # rest), w)))"

definition get_settings :: "'y server_env_scheme \<Rightarrow> auth_user \<Rightarrow> 'z pool_scheme \<Rightarrow> response \<times> 'z pool_scheme" where
  "get_settings env auth w = with_pool env w (\<lambda>w. require_admin auth w (\<lambda>w.
     attempt env (audit_attempted auth ''settings.read'' ''setting'' None keys_payload) (read_settings settings_whitelist w) (\<lambda>settings w.
       (reply 200 (JObj [(''settings'', JObj settings)]), audit_logged auth ''settings.read'' ''setting'' None keys_payload w))))"

definition is_number :: "json \<Rightarrow> bool" where
  "is_number v = (case v of JInt _ \<Rightarrow> True | JReal _ \<Rightarrow> True | _ \<Rightarrow> False)"

definition validate_setting :: "string \<Rightarrow> json \<Rightarrow> response + unit" where
  "validate_setting key value =
     (if key \<notin> set settings_whitelist
      then Inl (problem 400 ''unknown setting'' (key @ '' is not an admin-settable key''))
      else if key = ''registration_mode'' then
        (if value \<in> {JStr ''open'', JStr ''approval'', JStr ''invite''} then Inr ()
         else Inl (problem 400 ''invalid value'' ''registration_mode must be open, approval, or invite''))
      else if key = ''federation_mode'' then
        (if value \<in> {JStr ''open'', JStr ''allowlist''} then Inr ()
         else Inl (problem 400 ''invalid value'' ''federation_mode must be open or allowlist''))
      else if is_number value then Inr ()
      else Inl (problem 400 ''invalid value'' (key @ '' must be a number'')))"

text \<open>The first loop over the request: the first refusal is the answer.\<close>

fun validate_settings :: "(string \<times> json) list \<Rightarrow> response + unit" where
  "validate_settings [] = Inr ()"
| "validate_settings ((key, value) # rest) = (case validate_setting key value of
     Inl resp \<Rightarrow> Inl resp | Inr _ \<Rightarrow> validate_settings rest)"

definition setting_payload :: "string \<Rightarrow> json \<Rightarrow> json" where
  "setting_payload key value = JObj [(''key'', JStr key), (''value'', value)]"

text \<open>The second loop; the request is a hash map, so the order of the pairs is any order.\<close>

fun write_settings ::
  "'y server_env_scheme \<Rightarrow> auth_user \<Rightarrow> (string \<times> json) list \<Rightarrow> 'z pool_scheme \<Rightarrow> response option \<times> 'z pool_scheme" where
  "write_settings env auth [] w = (None, w)"
| "write_settings env auth ((key, value) # rest) w = (case exec (setting_set key value) w of
     (Inl e, w) \<Rightarrow> (Some (db_problem env e),
        audit_attempted auth ''settings.update'' ''setting'' None (setting_payload key value) w)
   | (Inr _, w) \<Rightarrow> write_settings env auth rest
        (audit_logged auth ''settings.update'' ''setting'' None (setting_payload key value) w))"

definition put_settings ::
  "'y server_env_scheme \<Rightarrow> auth_user \<Rightarrow> (string \<times> json) list \<Rightarrow> 'z pool_scheme \<Rightarrow> response \<times> 'z pool_scheme" where
  "put_settings env auth body w = with_pool env w (\<lambda>w. require_admin auth w (\<lambda>w.
     case validate_settings body of
       Inl resp \<Rightarrow> (resp, w)
     | Inr _ \<Rightarrow> (case write_settings env auth body w of
         (Some resp, w) \<Rightarrow> (resp, w)
       | (None, w) \<Rightarrow> get_settings env auth w)))"

section \<open>Reports\<close>

fun target_type_of :: "report_target \<Rightarrow> string" where
  "target_type_of T_Clip = ''clip''"
| "target_type_of T_Comment = ''comment''"
| "target_type_of T_Actor = ''actor''"

definition report_target_of :: "string \<Rightarrow> report_target option" where
  "report_target_of s = List.find (\<lambda>k. target_type_of k = s) [T_Clip, T_Comment, T_Actor]"

fun report_state_text :: "report_state \<Rightarrow> string" where
  "report_state_text Open = ''open''"
| "report_state_text Resolved = ''resolved''"
| "report_state_text Rejected_Report = ''rejected''"

record report_request =
  cp_target_type :: string
  cp_target_id :: int
  cp_category :: "string option"
  cp_body :: "string option"

definition report_body_max_chars :: nat where
  "report_body_max_chars = 2000"

definition report_insert :: "int \<Rightarrow> report_target \<Rightarrow> int \<Rightarrow> string option \<Rightarrow> string \<Rightarrow> int stmt" where
  "report_insert reporter kind i category body = (\<lambda>t d.
     if \<not> has_actor reporter d then Inl foreign_key_violation
     else Inr (next_id d, d\<lparr>reports := reports d @ [\<lparr>rp_id = next_id d, rp_reporter_actor_id = Some reporter,
       rp_target_type = kind, rp_target_id = i, rp_category = category, rp_body = body, rp_state = Open,
       rp_created_at = t, rp_resolved_at = None\<rparr>], next_id := next_id d + 1\<rparr>))"

definition create_report ::
  "'y server_env_scheme \<Rightarrow> auth_user \<Rightarrow> report_request \<Rightarrow> 'z pool_scheme \<Rightarrow> response \<times> 'z pool_scheme" where
  "create_report env auth payload w = with_pool env w (\<lambda>w. case report_target_of (cp_target_type payload) of
     None \<Rightarrow> (problem 400 ''invalid target_type'' ''target_type must be one of clip, comment, actor'', w)
   | Some kind \<Rightarrow>
       let detail = unwrap_or [] (cp_body payload); category = opt_filter (\<lambda>c. c \<noteq> []) (map_option trim (cp_category payload)) in
       if report_body_max_chars < char_count detail
       then (problem 400 ''report too long'' (''report body must be at most '' @ show_nat report_body_max_chars @ '' characters''), w)
       else or_500 env (exec (report_insert (ac_id (au_actor auth)) kind (cp_target_id payload) category detail) w) (\<lambda>i w.
         (reply 201 (JObj [(''id'', JInt i), (''target_type'', JStr (cp_target_type payload)),
            (''target_id'', JInt (cp_target_id payload)), (''state'', JStr ''open'')]), w)))"

text \<open>The row of the queue: the report, the reporter's name and a line about the target.\<close>

definition target_summary :: "report \<Rightarrow> db \<Rightarrow> string option" where
  "target_summary r d = (case rp_target_type r of
     T_Clip \<Rightarrow> Option.bind (fetch_optional (filter (\<lambda>c. cl_id c = rp_target_id r) (clips d))) cl_caption_html
   | T_Comment \<Rightarrow> map_option cm_body_html (fetch_optional (filter (\<lambda>c. cm_id c = rp_target_id r) (comments d)))
   | T_Actor \<Rightarrow> map_option ac_username (fetch_optional (filter (\<lambda>a. ac_id a = rp_target_id r) (actors d))))"

definition reporter_name :: "report \<Rightarrow> db \<Rightarrow> string option" where
  "reporter_name r d = map_option ac_username
     (fetch_optional (filter (\<lambda>a. sql_eq (Some (ac_id a)) (rp_reporter_actor_id r)) (actors d)))"

definition report_queue :: "string \<Rightarrow> (report \<times> string option \<times> string option) list stmt" where
  "report_queue state_filter = select (\<lambda>t d. map (\<lambda>r. (r, reporter_name r d, target_summary r d))
     (take 100 (sort_key (\<lambda>r. - rp_id r)
       (filter (\<lambda>r. state_filter = ''all'' \<or> report_state_text (rp_state r) = state_filter) (reports d)))))"

definition report_json :: "(timestamp \<Rightarrow> string) \<Rightarrow> report \<times> string option \<times> string option \<Rightarrow> json" where
  "report_json rfc3339 row = (case row of (r, reporter, summary) \<Rightarrow> JObj [(''id'', JInt (rp_id r)),
     (''target_type'', JStr (target_type_of (rp_target_type r))), (''target_id'', JInt (rp_target_id r)),
     (''category'', opt_json JStr (rp_category r)), (''body'', JStr (rp_body r)), (''state'', JStr (report_state_text (rp_state r))),
     (''created_at'', JStr (rfc3339 (rp_created_at r))), (''resolved_at'', opt_json (\<lambda>t. JStr (rfc3339 t)) (rp_resolved_at r)),
     (''reporter'', JObj [(''username'', opt_json JStr reporter)]), (''target_summary'', opt_json JStr summary)])"

definition admin_reports :: "'y server_env_scheme \<Rightarrow> auth_user \<Rightarrow> string option \<Rightarrow> 'z pool_scheme \<Rightarrow> response \<times> 'z pool_scheme" where
  "admin_reports env auth state w = require_admin auth w (\<lambda>w. with_pool env w (\<lambda>w.
     let state_filter = unwrap_or ''open'' state in
     if state_filter \<notin> {''open'', ''resolved'', ''rejected'', ''all''}
     then (problem 400 ''invalid state'' ''state must be one of open, resolved, rejected, all'', w)
     else or_500 env (exec (report_queue state_filter) w) (\<lambda>rows w.
       (reply 200 (JObj [(''items'', JArr (map (report_json (sv_rfc3339 env)) rows))]), w))))"

text \<open>The \<^verbatim>\<open>UPDATE\<close> of \<^verbatim>\<open>resolve_report\<close>: the note is appended to the body on a line of its own.\<close>

definition resolve_row :: "string \<Rightarrow> timestamp \<Rightarrow> report \<Rightarrow> report" where
  "resolve_row note t r = r\<lparr>rp_state := Resolved, rp_resolved_at := Some t, rp_body :=
     (if note = [] then rp_body r else if rp_body r = [] then note else rp_body r @ [CHR 0x0A] @ note)\<rparr>"

definition report_resolve :: "int \<Rightarrow> string \<Rightarrow> timestamp option stmt" where
  "report_resolve i note = (\<lambda>t d.
     let P = (\<lambda>r. rp_id r = i \<and> rp_state r = Open) in
     Inr (Option.bind (fetch_optional (returning P (resolve_row note t) (reports d))) rp_resolved_at,
          d\<lparr>reports := update_where P (resolve_row note t) (reports d)\<rparr>))"

definition resolve_report ::
  "'y server_env_scheme \<Rightarrow> auth_user \<Rightarrow> int \<Rightarrow> string option \<Rightarrow> 'z pool_scheme \<Rightarrow> response \<times> 'z pool_scheme" where
  "resolve_report env auth i action_note w = require_admin auth w (\<lambda>w. with_pool env w (\<lambda>w.
     let note = trim (unwrap_or [] action_note) in
     or_500 env (exec (report_resolve i note) w) (\<lambda>resolved_at w. case resolved_at of
         None \<Rightarrow> (problem 404 ''report not found'' (''no open report with id '' @ show_int i), w)
       | Some t \<Rightarrow> (reply 200 (JObj [(''id'', JInt i), (''state'', JStr ''resolved''), (''resolved_at'', JStr (sv_rfc3339 env t))]),
           audit_logged auth ''reports.resolve'' ''report'' (Some i) (JObj [(''action_note'', JStr note)]) w))))"

section \<open>No change goes unlogged\<close>

text \<open>Since the log was \<open>l\<close>, only entries of the actor \<open>a\<close> were added; \<open>a\<close> still has a row.\<close>

definition trail :: "int \<Rightarrow> audit_entry list \<Rightarrow> db \<Rightarrow> bool" where
  "trail a l d \<longleftrightarrow> has_actor a d \<and> (\<exists>es. audit_log d = l @ es \<and> (\<forall>e \<in> set es. au_admin_actor_id e = Some a))"

definition on_trail :: "int \<Rightarrow> audit_entry list \<Rightarrow> 'z pool_scheme \<Rightarrow> bool" where
  "on_trail a l w \<longleftrightarrow> link w = all_up \<and> trail a l (db w)"

definition on_log :: "int \<Rightarrow> audit_entry list \<Rightarrow> 'z pool_scheme \<Rightarrow> bool" where
  "on_log a l w \<longleftrightarrow> on_trail a l w \<and> audit_log (db w) \<noteq> l"

lemma trail_frame: "trail a l d \<Longrightarrow> audit_log d' = audit_log d \<Longrightarrow> (has_actor a d \<Longrightarrow> has_actor a d') \<Longrightarrow> trail a l d'"
  by (auto simp: trail_def)

lemma trail_keeps [intro]:
  "keeps (trail a l) (user_set_status i s)" "keeps (trail a l) (actor_suspend i)" "keeps (trail a l) (session_delete_for_user i)"
  "keeps (trail a l) (domain_block_upsert x n)" "keeps (trail a l) (domain_block_delete x)" "keeps (trail a l) (setting_set k v)"
  "keeps (trail a l) (report_resolve i note)" "keeps (trail a l) (setting_fetch_by_key k)" "keeps (trail a l) (user_fetch_by_id i)"
proof -
  show "keeps (trail a l) (actor_suspend i)"
    by (rule keepsI, erule trail_frame) (auto simp: actor_suspend_def update_actor_def put_actors_def has_actor_def Let_def
        list_ex_update_where split: if_splits)
  show "keeps (trail a l) (user_set_status i s)"
    by (rule keepsI, erule trail_frame) (auto simp: user_set_status_def update_user_def put_users_def has_actor_def split: if_splits)
  show "keeps (trail a l) (setting_set k v)"
    by (rule keepsI, erule trail_frame) (auto simp: setting_set_def has_actor_def Let_def split: if_splits)
  show "keeps (trail a l) (domain_block_upsert x n)"
    by (rule keepsI, erule trail_frame) (auto simp: domain_block_upsert_def has_actor_def)
qed (rule keepsI, erule trail_frame; auto simp: session_delete_for_user_def domain_block_delete_def report_resolve_def
    setting_fetch_by_key_def user_fetch_by_id_def user_by_def select_def has_actor_def Let_def)+

lemma trail_exec: "keeps (trail a l) f \<Longrightarrow> on_trail a l w \<Longrightarrow> on_trail a l (snd (exec f w))"
  by (simp add: on_trail_def keeps_exec)

lemma log_trail: "on_log a l w \<Longrightarrow> on_trail a l w"
  by (simp add: on_log_def)

lemma audit_logged_log:
  assumes "on_trail (ac_id (au_actor auth)) l w"
  shows "on_log (ac_id (au_actor auth)) l (audit_logged auth action target_type target_id payload w)"
  using assms by (auto simp: on_log_def on_trail_def trail_def audit_logged_def exec_up audit_log_stmt_def has_actor_def)

lemma audit_attempted_log:
  "on_trail (ac_id (au_actor auth)) l w \<Longrightarrow> on_log (ac_id (au_actor auth)) l (audit_attempted auth action target_type target_id payload w)"
  by (simp add: audit_attempted_def audit_logged_log)

lemma attempt_log:
  assumes "on_trail a l (snd r)" and "\<And>w. on_trail a l w \<Longrightarrow> on_log a l (audit w)"
    and "\<And>x w. on_trail a l w \<Longrightarrow> on_log a l (snd (k x w))"
  shows "on_log a l (snd (attempt env audit r k))"
  using assms by (cases r; cases "fst r") (auto simp: attempt_def)

lemmas log_intros = attempt_log audit_logged_log audit_attempted_log trail_exec trail_keeps keeps_select

text \<open>Of an administrator, with a pool, each handler ends on the log.\<close>

lemma list_users_log:
  "on_trail (ac_id (au_actor auth)) l w \<Longrightarrow> sv_has_pool env \<Longrightarrow> us_is_admin (au_user auth) \<Longrightarrow>
     on_log (ac_id (au_actor auth)) l (snd (list_users env auth state w))"
  by (auto simp: list_users_def with_pool_def require_admin_def Let_def intro!: log_intros)

lemma approve_user_log:
  "on_trail (ac_id (au_actor auth)) l w \<Longrightarrow> sv_has_pool env \<Longrightarrow> us_is_admin (au_user auth) \<Longrightarrow>
     on_log (ac_id (au_actor auth)) l (snd (approve_user env auth i w))"
  by (auto simp: approve_user_def with_pool_def require_admin_def Let_def intro!: log_intros split: option.split)

lemma suspend_user_log:
  "on_trail (ac_id (au_actor auth)) l w \<Longrightarrow> sv_has_pool env \<Longrightarrow> us_is_admin (au_user auth) \<Longrightarrow>
     on_log (ac_id (au_actor auth)) l (snd (suspend_user env auth i w))"
  by (auto simp: suspend_user_def revoke_sessions_def with_pool_def require_admin_def Let_def intro!: log_intros split: option.split)

lemma delete_domain_block_log:
  "on_trail (ac_id (au_actor auth)) l w \<Longrightarrow> sv_has_pool env \<Longrightarrow> us_is_admin (au_user auth) \<Longrightarrow>
     on_log (ac_id (au_actor auth)) l (snd (delete_domain_block env auth domain w))"
  by (auto simp: delete_domain_block_def with_pool_def require_admin_def Let_def intro!: log_intros)

lemma create_domain_block_log:
  "on_trail (ac_id (au_actor auth)) l w \<Longrightarrow> sv_has_pool env \<Longrightarrow> us_is_admin (au_user auth) \<Longrightarrow>
     snd (create_domain_block env auth raw note w) = w \<or> on_log (ac_id (au_actor auth)) l (snd (create_domain_block env auth raw note w))"
  by (auto simp: create_domain_block_def with_pool_def require_admin_def Let_def intro!: log_intros)

lemma read_settings_trail: "on_trail a l w \<Longrightarrow> on_trail a l (snd (read_settings keys w))"
proof (induction keys arbitrary: w)
  case (Cons key keys)
  let ?r = "exec (setting_fetch_by_key key) w"
  have "on_trail a l (snd ?r)" using Cons.prems by (intro log_intros)
  with Cons.IH [of "snd ?r"] show ?case
    by (cases ?r; cases "fst ?r"; cases "read_settings keys (snd ?r)"; cases "fst (read_settings keys (snd ?r))") auto
qed simp

lemma get_settings_log:
  "on_trail (ac_id (au_actor auth)) l w \<Longrightarrow> sv_has_pool env \<Longrightarrow> us_is_admin (au_user auth) \<Longrightarrow>
     on_log (ac_id (au_actor auth)) l (snd (get_settings env auth w))"
  by (auto simp: get_settings_def with_pool_def require_admin_def intro!: log_intros read_settings_trail)

lemma write_settings_log:
  assumes "on_trail (ac_id (au_actor auth)) l w" and "write_settings env auth kvs w = (r, w')"
  shows "on_trail (ac_id (au_actor auth)) l w' \<and> (r \<noteq> None \<longrightarrow> on_log (ac_id (au_actor auth)) l w')"
  using assms
proof (induction kvs arbitrary: w)
  case (Cons kv kvs)
  obtain key v where kv: "kv = (key, v)" by (cases kv)
  let ?r = "exec (setting_set key v) w"
  have step: "on_trail (ac_id (au_actor auth)) l (snd ?r)" using Cons.prems(1) by (intro log_intros)
  show ?case
  proof (cases "fst ?r")
    case (Inl e)
    with Cons.prems(2) kv audit_attempted_log [OF step] log_trail [OF audit_attempted_log [OF step]] show ?thesis
      by (cases ?r) auto
  next
    case (Inr x)
    with Cons.prems(2) kv Cons.IH [OF log_trail [OF audit_logged_log [OF step]]] show ?thesis
      by (cases ?r) auto
  qed
qed simp

lemma put_settings_log:
  assumes "on_trail (ac_id (au_actor auth)) l w" and "sv_has_pool env" and "us_is_admin (au_user auth)"
  shows "snd (put_settings env auth body w) = w \<or> on_log (ac_id (au_actor auth)) l (snd (put_settings env auth body w))"
proof (cases "validate_settings body")
  case (Inr _)
  obtain r w1 where w1: "write_settings env auth body w = (r, w1)" by fastforce
  note wrote = write_settings_log [OF assms(1) w1]
  then show ?thesis
    using Inr w1 assms(2,3) get_settings_log [of auth l w1 env]
    by (cases r) (auto simp: put_settings_def with_pool_def require_admin_def)
qed (use assms in \<open>simp add: put_settings_def with_pool_def require_admin_def\<close>)

lemma resolve_report_log:
  assumes "on_trail (ac_id (au_actor auth)) l w" and "sv_has_pool env" and "us_is_admin (au_user auth)"
  shows "db (snd (resolve_report env auth i note w)) = db w \<or> on_log (ac_id (au_actor auth)) l (snd (resolve_report env auth i note w))"
proof -
  let ?note = "trim (unwrap_or [] note)" and ?P = "\<lambda>r. rp_id r = i \<and> rp_state r = Open"
  let ?s = "report_resolve i ?note"
  have up: "link w = all_up" using assms(1) by (simp add: on_trail_def)
  then obtain w1 where ran: "exec ?s w = (Inr (Option.bind (fetch_optional (returning ?P (resolve_row ?note (now w)) (reports (db w)))) rp_resolved_at), w1)"
      and w1: "db w1 = (db w)\<lparr>reports := update_where ?P (resolve_row ?note (now w)) (reports (db w))\<rparr>"
    by (simp add: exec_up report_resolve_def Let_def)
  have trail: "on_trail (ac_id (au_actor auth)) l w1"
    using trail_exec [of "ac_id (au_actor auth)" l ?s w] trail_keeps(7) assms(1) ran by simp
  show ?thesis
  proof (cases "filter ?P (reports (db w))")
    case Nil
    then have "db w1 = db w" using w1 by (simp add: update_where_id filter_empty_conv)
    moreover have "snd (resolve_report env auth i note w) = w1"
      using assms(2,3) ran Nil by (simp add: resolve_report_def with_pool_def require_admin_def or_500_def returning_def Let_def)
    ultimately show ?thesis by simp
  next
    case (Cons r rs)
    then have "snd (resolve_report env auth i note w) =
        audit_logged auth ''reports.resolve'' ''report'' (Some i) (JObj [(''action_note'', JStr ?note)]) w1"
      using assms(2,3) ran by (simp add: resolve_report_def with_pool_def require_admin_def or_500_def returning_def resolve_row_def Let_def)
    with audit_logged_log [OF trail] show ?thesis by simp
  qed
qed

section \<open>Administration as a whole\<close>

datatype admin_request =
    List_Users "string option" | Approve int | Suspend int | Block string "string option" | Unblock string
  | Get_Settings | Put_Settings "(string \<times> json) list" | List_Reports "string option" | Resolve int "string option"

fun serve_admin :: "'y api_env_scheme \<Rightarrow> auth_user \<Rightarrow> admin_request \<Rightarrow> 'z pool_scheme \<Rightarrow> 'z pool_scheme" where
  "serve_admin env auth (List_Users state) w = snd (list_users env auth state w)"
| "serve_admin env auth (Approve i) w = snd (approve_user env auth i w)"
| "serve_admin env auth (Suspend i) w = snd (suspend_user env auth i w)"
| "serve_admin env auth (Block domain note) w = snd (create_domain_block env auth domain note w)"
| "serve_admin env auth (Unblock domain) w = snd (delete_domain_block env auth domain w)"
| "serve_admin env auth Get_Settings w = snd (get_settings env auth w)"
| "serve_admin env auth (Put_Settings body) w = snd (put_settings env auth body w)"
| "serve_admin env auth (List_Reports state) w = snd (admin_reports env auth state w)"
| "serve_admin env auth (Resolve i note) w = snd (resolve_report env auth i note w)"

lemma refused_without_rights:
  "\<not> us_is_admin (au_user auth) \<or> \<not> sv_has_pool env \<Longrightarrow> serve_admin env auth r w = w"
  by (cases r) (auto simp: list_users_def approve_user_def suspend_user_def create_domain_block_def delete_domain_block_def
      get_settings_def put_settings_def admin_reports_def resolve_report_def with_pool_def require_admin_def)

lemma admin_reports_reads: "db (snd (admin_reports env auth state w)) = db w"
proof -
  obtain r w1 where run: "exec (report_queue (unwrap_or ''open'' state)) w = (r, w1)" by fastforce
  then have "db w1 = db w" unfolding report_queue_def using exec_selectD by blast
  with run show ?thesis
    by (cases r) (auto simp: admin_reports_def require_admin_def with_pool_def or_500_def Let_def)
qed

lemma admin_outcome:
  assumes "on_trail (ac_id (au_actor auth)) l w" and "sv_has_pool env" and "us_is_admin (au_user auth)"
  shows "db (serve_admin env auth r w) = db w \<or> on_log (ac_id (au_actor auth)) l (serve_admin env auth r w)"
proof (cases r)
  case (Block domain msg)
  then show ?thesis using create_domain_block_log [OF assms, of domain msg] by auto
next
  case (Put_Settings body)
  then show ?thesis using put_settings_log [OF assms, of body] by auto
next
  case (Resolve i msg)
  then show ?thesis using resolve_report_log [OF assms, of i msg] by simp
qed (simp_all add: list_users_log [OF assms] approve_user_log [OF assms] suspend_user_log [OF assms]
    delete_domain_block_log [OF assms] get_settings_log [OF assms] admin_reports_reads)


section \<open>A suspension locks the account out\<close>

lemma attempt_okE:
  assumes "attempt env audit r k = (resp, w')" and "rs_status resp \<noteq> 500"
  obtains a w1 where "r = (Inr a, w1)" and "k a w1 = (resp, w')"
  using assms by (cases r; cases "fst r") (auto simp: attempt_def)

lemma audit_log_stmt_InrD:
  "audit_log_stmt a action ty i payload t d = Inr (x, d') \<Longrightarrow> users d' = users d \<and> actors d' = actors d \<and> sessions d' = sessions d"
  by (auto simp: audit_log_stmt_def split: if_splits)

lemma audit_logged_frame [simp]:
  "users (db (audit_logged auth action ty i payload w)) = users (db w)"
  "actors (db (audit_logged auth action ty i payload w)) = actors (db w)"
  "sessions (db (audit_logged auth action ty i payload w)) = sessions (db w)"
proof -
  let ?f = "audit_log_stmt (ac_id (au_actor auth)) action ty i payload"
  obtain r w' where run: "exec ?f w = (r, w')" by fastforce
  from exec_post [OF run] show "users (db (audit_logged auth action ty i payload w)) = users (db w)"
    "actors (db (audit_logged auth action ty i payload w)) = actors (db w)"
    "sessions (db (audit_logged auth action ty i payload w)) = sessions (db w)"
    using run by (auto simp: audit_logged_def dest: audit_log_stmt_InrD)
qed

lemma actor_suspend_InrD:
  assumes "actor_suspend i t d = Inr (r, d')"
  shows "users d' = users d" and "sessions d' = sessions d" and "a \<in> set (actors d') \<Longrightarrow> ac_id a = i \<Longrightarrow> ac_suspended_at a \<noteq> None"
proof -
  let ?g = "\<lambda>a. a\<lparr>ac_suspended_at := Some t, ac_updated_at := t\<rparr>"
  have d': "d\<lparr>actors := update_where (\<lambda>a. ac_id a = i) ?g (actors d)\<rparr> = d'"
    using assms by (simp add: actor_suspend_def update_actor_def put_actors_def Let_def split: if_splits)
  show "users d' = users d" and "sessions d' = sessions d" by (simp_all add: d' [symmetric])
  assume "a \<in> set (actors d')" and "ac_id a = i"
  then obtain b where "a = (if ac_id b = i then ?g b else b)"
    by (auto simp: d' [symmetric] mem_update_where)
  with \<open>ac_id a = i\<close> show "ac_suspended_at a \<noteq> None" by (simp split: if_splits)
qed

lemma revoke_sessions_ok:
  assumes "revoke_sessions env auth i u w = (resp, w')" and "rs_status resp = 200"
  shows "users (db w') = users (db w)" and "actors (db w') = actors (db w)"
    and "sessions (db w') = filter (\<lambda>s. se_user_id s \<noteq> us_id u) (sessions (db w))"
proof -
  obtain x w1 where run: "exec (session_delete_for_user (us_id u)) w = (Inr x, w1)"
      and w': "w' = audit_logged auth ''user.suspend'' ''user'' (Some i) (suspend_payload i u []) w1"
    using assms by (auto simp: revoke_sessions_def elim!: attempt_okE)
  from exec_InrD [OF run] have "Inr ((), (db w)\<lparr>sessions := delete_where (\<lambda>s. se_user_id s = us_id u) (sessions (db w))\<rparr>) = (Inr ((), db w1) :: sql_error + unit \<times> db)"
    by (simp add: session_delete_for_user_def)
  then have "db w1 = (db w)\<lparr>sessions := delete_where (\<lambda>s. se_user_id s = us_id u) (sessions (db w))\<rparr>" by simp
  then show "users (db w') = users (db w)" and "actors (db w') = actors (db w)"
    and "sessions (db w') = filter (\<lambda>s. se_user_id s \<noteq> us_id u) (sessions (db w))"
    unfolding w' by (simp_all add: delete_where_def)
qed

lemma suspend_user_ok:
  assumes "suspend_user env auth i w = (resp, w')" and "rs_status resp = 200"
  shows "\<exists>u. u \<in> set (users (db w')) \<and> us_id u = i \<and> (\<forall>a \<in> set (actors (db w')). ac_id a = us_actor_id u \<longrightarrow> ac_suspended_at a \<noteq> None) \<and>
    users (db w') = users (db w) \<and> (\<forall>s \<in> set (sessions (db w')). se_user_id s \<noteq> i)"
proof -
  have "require_admin auth w (\<lambda>w.
     let attempted = audit_attempted auth ''user.suspend'' ''user'' (Some i) in
     attempt env (attempted (user_id_payload i)) (exec (user_fetch_by_id i) w) (\<lambda>found w. case found of
         None \<Rightarrow> (no_user i, attempted (user_id_payload i) w)
       | Some user \<Rightarrow> attempt env (attempted (suspend_payload i user [])) (exec (actor_suspend (us_actor_id user)) w)
           (\<lambda>suspended w. case suspended of
             None \<Rightarrow> (problem 404 ''actor not found'' ''user has no actor'', attempted (suspend_payload i user []) w)
           | Some _ \<Rightarrow> revoke_sessions env auth i user w))) = (resp, w')"
    using with_pool_okE [OF assms(1) [unfolded suspend_user_def]] assms(2) by simp
  then obtain u w1 x w2 where fetch: "exec (user_fetch_by_id i) w = (Inr (Some u), w1)"
      and suspend: "exec (actor_suspend (us_actor_id u)) w1 = (Inr x, w2)" and revoke: "revoke_sessions env auth i u w2 = (resp, w')"
    using assms by (auto simp: require_admin_def admins_only_def no_user_def Let_def elim!: attempt_okE split: if_splits option.splits)
  have u: "db w1 = db w" "u \<in> set (users (db w))" "us_id u = i" using fetch_by(2) [OF fetch] by simp_all
  have "actor_suspend (us_actor_id u) (now w1) (db w1) = Inr (x, db w2)" using exec_InrD [OF suspend] by simp
  note suspended = actor_suspend_InrD [OF this]
  note revoked = revoke_sessions_ok [OF revoke assms(2)]
  show ?thesis
    using u suspended revoked by (intro exI [of _ u]) auto
qed

text \<open>C37: A suspension answered 200 leaves the account no session, and as long as its user and actor rows
  stay as they are no request authenticates as it: a session opened later is refused too.\<close>

theorem suspension_locks_out:
  assumes "suspend_user env admin i w = (resp, w')" and "rs_status resp = 200" and "distinct (map us_id (users (db w)))"
    and "users (db later) = users (db w')" and "actors (db later) = actors (db w')"
  shows "(\<forall>s \<in> set (sessions (db w')). se_user_id s \<noteq> i) \<and>
    \<not> (\<exists>auth later'. from_request_parts env headers later = (Inr auth, later') \<and> us_id (au_user auth) = i)"
proof -
  obtain u where u: "u \<in> set (users (db w'))" "us_id u = i" "users (db w') = users (db w)"
      and suspended: "\<And>a. a \<in> set (actors (db w')) \<Longrightarrow> ac_id a = us_actor_id u \<Longrightarrow> ac_suspended_at a \<noteq> None"
      and gone: "\<forall>s \<in> set (sessions (db w')). se_user_id s \<noteq> i"
    using suspend_user_ok [OF assms(1,2)] by blast
  have "us_id (au_user auth) \<noteq> i" if extracted: "from_request_parts env headers later = (Inr auth, later')" for auth later'
  proof
    assume same: "us_id (au_user auth) = i"
    obtain token where token: "session_token_from_headers headers = Some token"
      using extracted by (auto simp: from_request_parts_def split: option.splits)
    then obtain s w1 where fetched: "exec (session_fetch_by_id (sv_hash_token env token)) later = (Inr (Some s), w1)"
        and admitted: "admit_user env s w1 = (Inr auth, later')"
      using extracted by (auto simp: from_request_parts_def elim!: or_reject_InrE split: option.splits if_splits)
    have "au_user auth \<in> set (users (db later))" "au_actor auth \<in> set (actors (db later))"
        "ac_id (au_actor auth) = us_actor_id (au_user auth)" "in_good_standing (au_actor auth)"
      using admit_user_InrD [OF admitted] fetch_by(1) [OF fetched] by auto
    moreover from this have "au_user auth = u"
      using u assms(3,4) same by (metis distinct_map inj_onD)
    ultimately show False
      using suspended assms(5) by (auto simp: in_good_standing_def)
  qed
  with gone show ?thesis by blast
qed

section \<open>Witnesses\<close>

definition demo_admin :: auth_user where
  "demo_admin = demo_auth\<lparr>au_user := demo_user\<lparr>us_is_admin := True\<rparr>\<rparr>"

definition demo_target :: user where
  "demo_target = demo_user\<lparr>us_id := 12, us_actor_id := 2, us_email := None\<rparr>"

definition demo_admin_world :: web_world where
  "demo_admin_world = demo_web_world\<lparr>db := demo_inbox_db\<lparr>users := [demo_user, demo_target],
     sessions := [demo_session, demo_session\<lparr>se_id := ''#def'', se_user_id := 12\<rparr>]\<rparr>\<rparr>"


lemma demo_suspension: "rs_status (fst (suspend_user demo_api_env demo_admin 12 demo_admin_world)) = 200"
  by code_simp

theorem suspension_locks_out_witness:
  "list_all (\<lambda>s. se_user_id s \<noteq> 12) (sessions (db (snd (suspend_user demo_api_env demo_admin 12 demo_admin_world))))"
  using suspension_locks_out [OF surjective_pairing demo_suspension, of "snd (suspend_user demo_api_env demo_admin 12 demo_admin_world)" "[]"]
  by (simp add: demo_admin_world_def demo_target_def demo_user_def list_all_iff)

end
