(* ===== verification/Server.thy ===== *)
theory Server
  imports Profile_Api Config Auth Admin
begin

text \<open>
  The server as a whole, \<^verbatim>\<open>crates/server/src/lib.rs\<close>: start-up (\<^verbatim>\<open>AppState::new\<close>,
  \<^verbatim>\<open>init_federation\<close>, \<^verbatim>\<open>create_admin\<close>), with \<^verbatim>\<open>build_config\<close> of
  \<^verbatim>\<open>crates/federation/src/lib.rs\<close>, and the router: which handler a request reaches, through which
  rate limiter and behind which CSRF check. Parameters: the builder of the federation crate, the handlers
  behind the routes, and the answers to requests that no route accepts.
\<close>

section \<open>Start-up\<close>

text \<open>What the federation crate is configured with.\<close>

record federation_data =
  fc_domain :: string
  fc_base_url :: string
  fc_allow_loopback :: bool

record fed_settings =
  fs_domain :: string
  fs_signed_fetch_actor :: actor
  fs_http_signature_compat :: bool
  fs_app_data :: federation_data
  fs_debug :: bool
  fs_client :: guarded_resolve

datatype boot_error =
    Boot_Key string | Boot_Db db_error | Boot_No_Instance string | Boot_Build string | Boot_Panic | Boot_Hash string

definition fed_settings_of :: "federation_data \<Rightarrow> actor \<Rightarrow> fed_settings" where
  "fed_settings_of data instance_row = \<lparr>fs_domain = fc_domain data, fs_signed_fetch_actor = instance_row,
     fs_http_signature_compat = True, fs_app_data = data, fs_debug = fc_allow_loopback data,
     fs_client = \<lparr>gr_allow_loopback = fc_allow_loopback data,
       gr_allow_hosts = (if fc_allow_loopback data then [fc_domain data, ''localhost''] else [])\<rparr>\<rparr>"

definition or_boot :: "(db_error + 'a) \<times> 'w \<Rightarrow> ('a \<Rightarrow> 'w \<Rightarrow> (boot_error + 'b) \<times> 'w) \<Rightarrow> (boot_error + 'b) \<times> 'w" where
  "or_boot r k = (case r of (Inl e, w) \<Rightarrow> (Inl (Boot_Db e), w) | (Inr a, w) \<Rightarrow> k a w)"

definition build_config ::
  "(fed_settings \<Rightarrow> string option) \<Rightarrow> federation_data \<Rightarrow> 'z pool_scheme \<Rightarrow> (boot_error + fed_settings) \<times> 'z pool_scheme" where
  "build_config build data w =
     (let instance_ap = fc_base_url data @ ''/ap/actor'' in
      or_boot (exec (actor_fetch_by_ap_id instance_ap) w) (\<lambda>found w. case found of
        None \<Rightarrow> (Inl (Boot_No_Instance instance_ap), w)
      | Some instance_row \<Rightarrow> (let fs = fed_settings_of data instance_row in
          case build fs of Some e \<Rightarrow> (Inl (Boot_Build e), w) | None \<Rightarrow> (Inr fs, w))))"

datatype route_class = Auth_Class | Upload_Class | Account_Class | Admin_Class | Default_Class | Federation_Class

record app_state =
  as_has_pool :: bool
  as_cfg :: config
  as_fed_config :: "fed_settings option"
  as_egress :: egress_guard

definition app_state_new :: "bool \<Rightarrow> config \<Rightarrow> app_state" where
  "app_state_new has_pool cfg = \<lparr>as_has_pool = has_pool, as_cfg = cfg, as_fed_config = None, as_egress = egress_new False\<rparr>"

text \<open>The limiters of \<^verbatim>\<open>AppState::new\<close>, and the one \<^verbatim>\<open>federation_routes\<close> makes for itself.\<close>

definition initial_limiters :: "config \<Rightarrow> route_class \<Rightarrow> rate_limiter" where
  "initial_limiters cfg class = (case class of
     Auth_Class \<Rightarrow> with_trusted_proxies rl_auth (cf_trusted_proxies cfg)
   | Upload_Class \<Rightarrow> with_trusted_proxies rl_upload (cf_trusted_proxies cfg)
   | Account_Class \<Rightarrow> with_trusted_proxies rl_accounts (cf_trusted_proxies cfg)
   | Admin_Class \<Rightarrow> with_trusted_proxies rl_admin (cf_trusted_proxies cfg)
   | Default_Class \<Rightarrow> with_trusted_proxies rl_general (cf_trusted_proxies cfg)
   | Federation_Class \<Rightarrow> rl_general)"

text \<open>The keys of the instance actor: those on record, or a fresh pair; an error of the look-up counts as none.\<close>

definition instance_keys ::
  "'y server_env_scheme \<Rightarrow> (db_error + actor option) \<Rightarrow> 'z web_world_scheme \<Rightarrow>
     (string + string \<times> string) \<times> 'z web_world_scheme" where
  "instance_keys env found w = (case found of
     Inr (Some existing) \<Rightarrow> (Inr (ac_public_key_pem existing, unwrap_or '''' (ac_private_key_pem existing)), w)
   | _ \<Rightarrow> generate_actor_keypair env w)"

definition federate ::
  "(fed_settings \<Rightarrow> string option) \<Rightarrow> app_state \<Rightarrow> string \<times> string \<Rightarrow> 'z pool_scheme \<Rightarrow>
     (boot_error + app_state) \<times> 'z pool_scheme" where
  "federate build st keys w = (case keys of (public_key_pem, private_key_pem) \<Rightarrow>
     (let base = public_base_url (as_cfg st); allow = cf_allow_insecure_loopback_peers (as_cfg st) in
      or_boot (actor_ensure_instance_actor (cf_domain (as_cfg st)) public_key_pem private_key_pem (base @ ''/ap/actor'')
          (base @ ''/ap/inbox'') (base @ ''/ap/outbox'') (base @ ''/ap/followers'') w) (\<lambda>row w.
        if row = None then (Inl Boot_Panic, w)
        else (case build_config build \<lparr>fc_domain = federation_domain (as_cfg st), fc_base_url = base,
                fc_allow_loopback = allow\<rparr> w of
            (Inl e, w) \<Rightarrow> (Inl e, w)
          | (Inr fs, w) \<Rightarrow> (Inr (st\<lparr>as_egress := egress_new allow, as_fed_config := Some fs\<rparr>), w)))))"

definition init_federation ::
  "'y server_env_scheme \<Rightarrow> (fed_settings \<Rightarrow> string option) \<Rightarrow> app_state \<Rightarrow> 'z web_world_scheme \<Rightarrow>
     (boot_error + app_state) \<times> 'z web_world_scheme" where
  "init_federation env build st w =
     (if \<not> as_has_pool st then (Inr st, w)
      else case exec (actor_fetch_by_ap_id (public_base_url (as_cfg st) @ ''/ap/actor'')) w of (found, w) \<Rightarrow>
        (case instance_keys env found w of
           (Inl e, w) \<Rightarrow> (Inl (Boot_Key e), w)
         | (Inr keys, w) \<Rightarrow> federate build st keys w))"

text \<open>\<^verbatim>\<open>create-admin\<close>, from the point where the database is open.\<close>

definition create_admin ::
  "'y server_env_scheme \<Rightarrow> config \<Rightarrow> string \<Rightarrow> string \<Rightarrow> 'z web_world_scheme \<Rightarrow> (boot_error + user) \<times> 'z web_world_scheme" where
  "create_admin env cfg username password w = (case generate_actor_keypair env w of
     (Inl e, w) \<Rightarrow> (Inl (Boot_Key e), w)
   | (Inr (public_key_pem, private_key_pem), w) \<Rightarrow>
     (let base = public_base_url cfg in
      or_boot (exec (actor_create username None Person public_key_pem (Some private_key_pem)
          (base @ ''/users/'' @ username @ ''/inbox'') (Some (base @ ''/ap/inbox''))
          (base @ ''/users/'' @ username @ ''/outbox'') (base @ ''/users/'' @ username @ ''/followers'')
          (base @ ''/users/'' @ username)) w) (\<lambda>a w.
      case hash_password env password w of
        (Inl e, w) \<Rightarrow> (Inl (Boot_Hash e), w)
      | (Inr hashed, w) \<Rightarrow> or_boot (exec (user_create_admin (ac_id a) None hashed) w) (\<lambda>u w. (Inr u, w)))))"

text \<open>\<^verbatim>\<open>main_entry\<close>: the first argument selects the command.\<close>

datatype cli_command = Create_Admin string string | Serve | Usage_Error

definition cli_command_of :: "string list \<Rightarrow> cli_command" where
  "cli_command_of args = (case args of
     program # command # rest \<Rightarrow>
       if command = ''create-admin''
       then (case rest of username # password # extra \<Rightarrow> Create_Admin username password | _ \<Rightarrow> Usage_Error)
       else Serve
   | _ \<Rightarrow> Serve)"

section \<open>The instance actor\<close>

lemma or_boot_InrE:
  assumes "or_boot (exec f w) k = (Inr b, w')"
  obtains a w1 where "exec f w = (Inr a, w1)" and "f (now w) (db w) = Inr (a, db w1)" and "k a w1 = (Inr b, w')"
proof (cases "exec f w")
  case (Pair r w1)
  then obtain a where "r = Inr a" "k a w1 = (Inr b, w')" using assms by (cases r) (auto simp: or_boot_def)
  with Pair exec_InrD [of f w a w1] show ?thesis by (intro that [of a w1]) simp_all
qed

lemma fetch_actor_InrD:
  "actor_fetch_by_ap_id i t d = Inr (found, d') \<Longrightarrow> d' = d \<and> found = fetch_optional (filter (\<lambda>a. ac_ap_id a = i) (actors d))"
  by (auto simp: actor_fetch_by_ap_id_def actor_by_def select_def)

lemma insert_instance_InrD:
  assumes "insert_instance_actor u pub priv i inb outb fol t d = Inr (r, d')"
  shows "if list_ex (\<lambda>a. ac_ap_id a = i) (actors d) then d' = d
    else \<exists>a. actors d' = actors d @ [a] \<and> ac_ap_id a = i \<and> ac_private_key_pem a = Some priv"
  using assms
  by (auto simp: insert_instance_actor_def insert_actor_def put_actors_def new_actor_def split: if_splits sum.splits)

lemma ensure_instance_InrD:
  assumes "actor_ensure_instance_actor u pub priv i inb outb fol w = (Inr r, w')"
  shows "if list_ex (\<lambda>a. ac_ap_id a = i) (actors (db w)) then db w' = db w
    else \<exists>a. actors (db w') = actors (db w) @ [a] \<and> ac_ap_id a = i \<and> ac_private_key_pem a = Some priv"
proof -
  obtain r1 w1 where ins: "exec (insert_instance_actor u pub priv i inb outb fol) w = (Inr r1, w1)"
      and "db w' = db w1"
    using assms
    by (cases rule: exec_cases [of "insert_instance_actor u pub priv i inb outb fol" w])
      (auto simp: actor_ensure_instance_actor_def actor_fetch_by_ap_id_def actor_by_def split: option.splits
        dest: exec_selectD)
  with insert_instance_InrD [OF conjunct1 [OF exec_InrD [OF ins]]] show ?thesis by simp
qed

lemma build_config_InrD:
  assumes "build_config build data w = (Inr fs, w')"
  shows "db w' = db w" and "fs = fed_settings_of data (fs_signed_fetch_actor fs)"
    and "fs_signed_fetch_actor fs \<in> set (actors (db w))"
    and "ac_ap_id (fs_signed_fetch_actor fs) = fc_base_url data @ ''/ap/actor''"
proof -
  obtain row w1 where f: "actor_fetch_by_ap_id (fc_base_url data @ ''/ap/actor'') (now w) (db w) = Inr (Some row, db w1)"
      and fs: "fs = fed_settings_of data row" and w': "w' = w1"
    using assms by (auto simp: build_config_def Let_def elim!: or_boot_InrE split: option.splits)
  have row: "row \<in> set (actors (db w))" "ac_ap_id row = fc_base_url data @ ''/ap/actor''"
    using fetch_actor_InrD [OF f] by (auto dest: sym [THEN fetch_optional_Some_mem])
  have sel: "fs_signed_fetch_actor fs = row" by (simp add: fs fed_settings_of_def)
  show "db w' = db w" using fetch_actor_InrD [OF f] w' by simp
  show "fs = fed_settings_of data (fs_signed_fetch_actor fs)" unfolding sel by (rule fs)
  show "fs_signed_fetch_actor fs \<in> set (actors (db w))" "ac_ap_id (fs_signed_fetch_actor fs) = fc_base_url data @ ''/ap/actor''"
    unfolding sel by (rule row)+
qed

lemma federate_InrD:
  assumes "federate build st (pub, priv) w = (Inr st', w')"
  obtains fs w1 r where "actor_ensure_instance_actor (cf_domain (as_cfg st)) pub priv (public_base_url (as_cfg st) @ ''/ap/actor'')
      (public_base_url (as_cfg st) @ ''/ap/inbox'') (public_base_url (as_cfg st) @ ''/ap/outbox'')
      (public_base_url (as_cfg st) @ ''/ap/followers'') w = (Inr r, w1)"
    and "build_config build \<lparr>fc_domain = federation_domain (as_cfg st), fc_base_url = public_base_url (as_cfg st),
      fc_allow_loopback = cf_allow_insecure_loopback_peers (as_cfg st)\<rparr> w1 = (Inr fs, w')"
    and "as_fed_config st' = Some fs"
  using assms
  by (auto simp: federate_def or_boot_def Let_def split: prod.splits sum.splits if_splits intro: that)

lemma instance_keys_db: "instance_keys env found w = (r, w1) \<Longrightarrow> db w1 = db w"
  by (auto simp: instance_keys_def generate_actor_keypair_def split: sum.splits option.splits)

text \<open>C40: start-up and the instance's identity. After a start of the federation that succeeds, the fetches of the
  federation crate are signed by a row of the \<^verbatim>\<open>actors\<close> table that carries the instance's id, and its debug mode is on exactly if
  loopback peers are allowed; a restart with the actor on record changes nothing in the database, whatever keys the
  generator would give; and the first start only appends the actor.\<close>

theorem restart_keeps_instance_actor:
  assumes "init_federation env build st w = (Inr st', w')" and "as_has_pool st"
    and "instance = public_base_url (as_cfg st) @ ''/ap/actor''"
  shows "(\<exists>fs. as_fed_config st' = Some fs \<and> fs_signed_fetch_actor fs \<in> set (actors (db w')) \<and>
      ac_ap_id (fs_signed_fetch_actor fs) = instance \<and> fs_debug fs = cf_allow_insecure_loopback_peers (as_cfg st)) \<and>
    (if list_ex (\<lambda>a. ac_ap_id a = instance) (actors (db w)) then db w' = db w
     else \<exists>a. actors (db w') = actors (db w) @ [a] \<and> ac_ap_id a = instance)"
proof -
  obtain found w1 where look: "exec (actor_fetch_by_ap_id instance) w = (found, w1)" by fastforce
  then have db1: "db w1 = db w"
    using exec_select_db [of _ w] by (simp add: actor_fetch_by_ap_id_def actor_by_def exec_selectD)
  obtain keys w2 where keys: "instance_keys env found w1 = (Inr keys, w2)" and fed: "federate build st keys w2 = (Inr st', w')"
    using assms(1,2) look by (auto simp: init_federation_def assms(3) split: prod.splits sum.splits)
  obtain pub priv where "keys = (pub, priv)" by fastforce
  with fed obtain fs w3 r where ens: "actor_ensure_instance_actor (cf_domain (as_cfg st)) pub priv instance
      (public_base_url (as_cfg st) @ ''/ap/inbox'') (public_base_url (as_cfg st) @ ''/ap/outbox'')
      (public_base_url (as_cfg st) @ ''/ap/followers'') w2 = (Inr r, w3)"
    and cfg: "build_config build \<lparr>fc_domain = federation_domain (as_cfg st), fc_base_url = public_base_url (as_cfg st),
      fc_allow_loopback = cf_allow_insecure_loopback_peers (as_cfg st)\<rparr> w3 = (Inr fs, w')"
    and st': "as_fed_config st' = Some fs"
    unfolding assms(3) by (auto elim: federate_InrD)
  have "fs_debug fs = cf_allow_insecure_loopback_peers (as_cfg st)"
    by (subst build_config_InrD(2) [OF cfg]) (simp add: fed_settings_of_def)
  then show ?thesis
    using ensure_instance_InrD [OF ens] build_config_InrD(1,3,4) [OF cfg] st' instance_keys_db [OF keys] db1
    by (auto simp: assms(3) [symmetric] split: if_splits)
qed

text \<open>A first start on an empty database, and a restart of the same server with another key generator.\<close>

definition demo_app_state :: app_state where
  "demo_app_state = app_state_new True config_default"

definition demo_started :: web_world where
  "demo_started = snd (init_federation demo_server_env (\<lambda>_. None) demo_app_state (demo_web_world\<lparr>db := empty_db\<rparr>))"

theorem restart_keeps_instance_actor_witness:
  "length (actors (db demo_started)) = 1 \<and>
   db (snd (init_federation (demo_server_env\<lparr>sv_keypair := \<lambda>_. Inr (''new'', ''keys'')\<rparr>) (\<lambda>_. None) demo_app_state demo_started))
     = db demo_started"
proof -
  have first: "map ac_ap_id (actors (db demo_started)) = [public_base_url (as_cfg demo_app_state) @ ''/ap/actor'']" by code_simp
  have "isl (fst (init_federation (demo_server_env\<lparr>sv_keypair := \<lambda>_. Inr (''new'', ''keys'')\<rparr>) (\<lambda>_. None) demo_app_state demo_started)) = False"
    by code_simp
  then obtain st' w' where run: "init_federation (demo_server_env\<lparr>sv_keypair := \<lambda>_. Inr (''new'', ''keys'')\<rparr>) (\<lambda>_. None)
      demo_app_state demo_started = (Inr st', w')"
    by (metis isl_def prod.collapse sum.collapse(2))
  have "as_has_pool demo_app_state" by (simp add: demo_app_state_def app_state_new_def)
  from restart_keeps_instance_actor [OF run this refl] run first show ?thesis
    by (auto simp: map_eq_Cons_conv split: if_splits)
qed


section \<open>Routes\<close>

datatype segment = Lit string | Param string

record route =
  rt_method :: http_method
  rt_path :: "segment list"
  rt_handler :: string
  rt_class :: route_class

definition route_at :: "http_method \<Rightarrow> segment list \<Rightarrow> string \<Rightarrow> route_class \<Rightarrow> route" where
  "route_at method path handler class = \<lparr>rt_method = method, rt_path = path, rt_handler = handler, rt_class = class\<rparr>"

definition auth_routes :: "route list" where
  "auth_routes = [route_at Post [Lit ''api'', Lit ''v1'', Lit ''auth'', Lit ''register''] ''auth::register'' Auth_Class,
     route_at Post [Lit ''api'', Lit ''v1'', Lit ''auth'', Lit ''login''] ''auth::login'' Auth_Class,
     route_at Post [Lit ''api'', Lit ''v1'', Lit ''auth'', Lit ''logout''] ''auth::logout'' Auth_Class,
     route_at Post [Lit ''api'', Lit ''v1'', Lit ''auth'', Lit ''request-reset''] ''auth::request_reset'' Auth_Class,
     route_at Post [Lit ''api'', Lit ''v1'', Lit ''auth'', Lit ''reset''] ''auth::reset'' Auth_Class,
     route_at Post [Lit ''api'', Lit ''v1'', Lit ''auth'', Lit ''verify-email''] ''auth::verify_email'' Auth_Class]"

definition upload_routes :: "route list" where
  "upload_routes = [route_at Post [Lit ''api'', Lit ''v1'', Lit ''clips'', Lit ''upload''] ''upload::upload'' Upload_Class]"

definition account_routes :: "route list" where
  "account_routes = [route_at Get [Lit ''api'', Lit ''v1'', Lit ''accounts'', Lit ''me''] ''accounts::me'' Account_Class,
     route_at Patch [Lit ''api'', Lit ''v1'', Lit ''accounts'', Lit ''me''] ''accounts::patch_me'' Account_Class,
     route_at Delete_Method [Lit ''api'', Lit ''v1'', Lit ''accounts'', Lit ''me''] ''accounts::delete_me'' Account_Class,
     route_at Post [Lit ''api'', Lit ''v1'', Lit ''accounts'', Lit ''me'', Lit ''avatar''] ''accounts::avatar'' Account_Class,
     route_at Get [Lit ''api'', Lit ''v1'', Lit ''feed'', Lit ''following''] ''social::following_feed'' Account_Class,
     route_at Get [Lit ''api'', Lit ''v1'', Lit ''feed'', Lit ''discover''] ''social::discover_feed'' Account_Class,
     route_at Get [Lit ''api'', Lit ''v1'', Lit ''feed'', Lit ''local''] ''social::local_feed'' Account_Class,
     route_at Get [Lit ''api'', Lit ''v1'', Lit ''feed'', Lit ''trending''] ''social::trending_feed'' Account_Class,
     route_at Get [Lit ''api'', Lit ''v1'', Lit ''tags'', Lit ''trending''] ''social::trending_tags'' Account_Class,
     route_at Get [Lit ''api'', Lit ''v1'', Lit ''sounds'', Param ''id''] ''social::sound_detail'' Account_Class,
     route_at Get [Lit ''api'', Lit ''v1'', Lit ''sounds'', Param ''id'', Lit ''clips''] ''social::sound_clips'' Account_Class,
     route_at Post [Lit ''api'', Lit ''v1'', Lit ''clips'', Param ''id'', Lit ''like''] ''social::like_clip'' Account_Class,
     route_at Delete_Method [Lit ''api'', Lit ''v1'', Lit ''clips'', Param ''id'', Lit ''like''] ''social::unlike_clip'' Account_Class,
     route_at Post [Lit ''api'', Lit ''v1'', Lit ''clips'', Param ''id'', Lit ''announce''] ''social::announce_clip'' Account_Class,
     route_at Delete_Method [Lit ''api'', Lit ''v1'', Lit ''clips'', Param ''id'', Lit ''announce''] ''social::unannounce_clip'' Account_Class,
     route_at Put [Lit ''api'', Lit ''v1'', Lit ''clips'', Param ''id'', Lit ''bookmark''] ''social::bookmark_clip'' Account_Class,
     route_at Delete_Method [Lit ''api'', Lit ''v1'', Lit ''clips'', Param ''id'', Lit ''bookmark''] ''social::unbookmark_clip'' Account_Class,
     route_at Get [Lit ''api'', Lit ''v1'', Lit ''bookmarks''] ''social::list_bookmarks'' Account_Class,
     route_at Delete_Method [Lit ''api'', Lit ''v1'', Lit ''comments'', Param ''id''] ''social::delete_comment'' Account_Class,
     route_at Get [Lit ''api'', Lit ''v1'', Lit ''notifications''] ''social::list_notifications'' Account_Class,
     route_at Put [Lit ''api'', Lit ''v1'', Lit ''notifications'', Lit ''read''] ''social::mark_read'' Account_Class,
     route_at Post [Lit ''api'', Lit ''v1'', Lit ''reports''] ''social::create_report'' Account_Class,
     route_at Post [Lit ''api'', Lit ''v1'', Lit ''clips'', Param ''id'', Lit ''comments''] ''social::create_comment'' Account_Class]"

definition admin_routes :: "route list" where
  "admin_routes = [route_at Get [Lit ''api'', Lit ''v1'', Lit ''admin'', Lit ''users''] ''admin::list_users'' Admin_Class,
     route_at Post [Lit ''api'', Lit ''v1'', Lit ''admin'', Lit ''users'', Param ''id'', Lit ''approve''] ''admin::approve_user'' Admin_Class,
     route_at Post [Lit ''api'', Lit ''v1'', Lit ''admin'', Lit ''users'', Param ''id'', Lit ''suspend''] ''admin::suspend_user'' Admin_Class,
     route_at Post [Lit ''api'', Lit ''v1'', Lit ''admin'', Lit ''domain-blocks''] ''admin::create_domain_block'' Admin_Class,
     route_at Delete_Method [Lit ''api'', Lit ''v1'', Lit ''admin'', Lit ''domain-blocks'', Param ''domain''] ''admin::delete_domain_block'' Admin_Class,
     route_at Get [Lit ''api'', Lit ''v1'', Lit ''admin'', Lit ''settings''] ''admin::get_settings'' Admin_Class,
     route_at Put [Lit ''api'', Lit ''v1'', Lit ''admin'', Lit ''settings''] ''admin::put_settings'' Admin_Class,
     route_at Get [Lit ''api'', Lit ''v1'', Lit ''admin'', Lit ''reports''] ''social::admin_reports'' Admin_Class,
     route_at Post [Lit ''api'', Lit ''v1'', Lit ''admin'', Lit ''reports'', Param ''id'', Lit ''resolve''] ''social::resolve_report'' Admin_Class]"

definition default_routes :: "route list" where
  "default_routes = [route_at Get [Lit ''healthz''] ''healthz'' Default_Class,
     route_at Get [Lit ''api'', Lit ''v1'', Lit ''clips'', Param ''id''] ''clips::show'' Default_Class,
     route_at Get [Lit ''api'', Lit ''v1'', Lit ''clips'', Param ''id'', Lit ''comments''] ''social::list_comments'' Default_Class,
     route_at Get [Lit ''api'', Lit ''v1'', Lit ''search''] ''social::search'' Default_Class,
     route_at Get [Lit ''api'', Lit ''v1'', Lit ''tags'', Param ''tag'', Lit ''clips''] ''social::tag_clips'' Default_Class,
     route_at Get [Lit ''api'', Lit ''v1'', Lit ''profiles'', Param ''username''] ''social::profile_grid'' Default_Class,
     route_at Get [Lit ''assets'', Param ''clip_id'', Param ''filename''] ''assets::asset'' Default_Class]"

definition federation_routes :: "route list" where
  "federation_routes = [route_at Get [Lit ''.well-known'', Lit ''webfinger''] ''federation::webfinger'' Federation_Class,
     route_at Get [Lit ''.well-known'', Lit ''nodeinfo''] ''federation::nodeinfo_jrd'' Federation_Class,
     route_at Get [Lit ''nodeinfo'', Param ''version''] ''federation::nodeinfo_doc'' Federation_Class,
     route_at Get [Lit ''ap'', Lit ''actor''] ''federation::instance_actor'' Federation_Class,
     route_at Post [Lit ''ap'', Lit ''inbox''] ''federation::inbox'' Federation_Class,
     route_at Get [Lit ''users'', Param ''username''] ''federation::user_actor'' Federation_Class,
     route_at Post [Lit ''users'', Param ''username'', Lit ''inbox''] ''federation::inbox'' Federation_Class,
     route_at Get [Lit ''users'', Param ''username'', Param ''collection''] ''federation::user_collection'' Federation_Class,
     route_at Get [Lit ''clips'', Param ''id''] ''federation::clip_object'' Federation_Class,
     route_at Get [Lit ''clips'', Param ''id'', Lit ''activity''] ''federation::clip_activity'' Federation_Class,
     route_at Post [Lit ''api'', Lit ''v1'', Lit ''follows''] ''federation::api_follow'' Federation_Class,
     route_at Get [Lit ''api'', Lit ''v1'', Lit ''follows'', Lit ''mine''] ''federation::api_my_follows'' Federation_Class,
     route_at Post [Lit ''api'', Lit ''v1'', Lit ''follows'', Param ''target_id'', Lit ''unfollow''] ''federation::api_unfollow'' Federation_Class,
     route_at Get [Lit ''api'', Lit ''v1'', Lit ''profiles'', Param ''username'', Lit ''follow-state''] ''federation::api_follow_state'' Federation_Class,
     route_at Get [Lit ''api'', Lit ''v1'', Lit ''profiles'', Param ''username'', Param ''list''] ''federation::api_follow_list'' Federation_Class]"

text \<open>The routes are merged; those of the federation are there once it is initialised.\<close>

definition app_routes :: "app_state \<Rightarrow> route list" where
  "app_routes st = auth_routes @ upload_routes @ account_routes @ admin_routes @ default_routes @
     (if as_fed_config st = None then [] else federation_routes)"

text \<open>What the framework promises of its router, a parameter of \<open>app\<close>: a request is routed to a route of the table whose
  method it has (\<^verbatim>\<open>get\<close> serves \<^verbatim>\<open>HEAD\<close> too) and whose pattern its path matches, a parameter taking one
  segment that is not empty. Which of two such routes it prefers is left open.\<close>

fun path_matches :: "segment list \<Rightarrow> string list \<Rightarrow> bool" where
  "path_matches [] [] = True"
| "path_matches (Lit l # ps) (s # ss) = (l = s \<and> path_matches ps ss)"
| "path_matches (Param x # ps) (s # ss) = (s \<noteq> [] \<and> path_matches ps ss)"
| "path_matches _ _ = False"

definition serves_method :: "http_method \<Rightarrow> route \<Rightarrow> bool" where
  "serves_method m r \<longleftrightarrow> rt_method r = m \<or> (m = Head \<and> rt_method r = Get)"

definition path_segments :: "string \<Rightarrow> string list" where
  "path_segments p = tl (split_on (CHR ''/'') p)"

definition accepts_request :: "http_method \<Rightarrow> string \<Rightarrow> route \<Rightarrow> bool" where
  "accepts_request m p r \<longleftrightarrow> serves_method m r \<and> path_matches (rt_path r) (path_segments p)"

type_synonym router = "route list \<Rightarrow> http_method \<Rightarrow> string \<Rightarrow> route option"

definition router_sound :: "router \<Rightarrow> bool" where
  "router_sound match_route \<longleftrightarrow> (\<forall>rs m p r. match_route rs m p = Some r \<longrightarrow> r \<in> set rs \<and> accepts_request m p r)"

section \<open>A request\<close>

text \<open>The world of the running server: that of the handlers, and the limiters.\<close>

record app_world = web_world +
  aw_limiters :: "route_class \<Rightarrow> rate_limiter"

text \<open>The answer 429; the header \<^verbatim>\<open>Retry-After\<close> repeats the number in the text.\<close>

definition rate_limited :: "nat \<Rightarrow> response" where
  "rate_limited retry_after = problem 429 ''rate limited'' (''too many requests; retry after '' @ show_nat retry_after @ ''s'')"

definition origin_of :: "ip option \<Rightarrow> request \<Rightarrow> request_origin" where
  "origin_of peer req = \<lparr>ro_peer = peer, ro_xff = header_str ''x-forwarded-for'' (rq_headers req)\<rparr>"

definition limited ::
  "(string \<Rightarrow> ip option) \<Rightarrow> ip option \<Rightarrow> nat \<Rightarrow> route_class \<Rightarrow> (request \<Rightarrow> 'z app_world_scheme \<Rightarrow> response \<times> 'z app_world_scheme) \<Rightarrow>
     request \<Rightarrow> 'z app_world_scheme \<Rightarrow> response \<times> 'z app_world_scheme" where
  "limited parse_ip peer t class next_handler req w =
     (case apply_limit parse_ip (origin_of peer req) t (aw_limiters w class) of (verdict, rl) \<Rightarrow>
        (let w' = w\<lparr>aw_limiters := (aw_limiters w)(class := rl)\<rparr> in
         case verdict of Inl retry_after \<Rightarrow> (rate_limited retry_after, w') | Inr _ \<Rightarrow> next_handler req w'))"

definition app ::
  "'y server_env_scheme \<Rightarrow> app_state \<Rightarrow> router \<Rightarrow> (string \<Rightarrow> ip option) \<Rightarrow>
     (string \<Rightarrow> request \<Rightarrow> 'z app_world_scheme \<Rightarrow> response \<times> 'z app_world_scheme) \<Rightarrow> (request \<Rightarrow> response) \<Rightarrow>
     ip option \<Rightarrow> nat \<Rightarrow> request \<Rightarrow> 'z app_world_scheme \<Rightarrow> response \<times> 'z app_world_scheme" where
  "app env st match_route parse_ip handlers unrouted peer t req w =
     (case match_route (app_routes st) (rq_method req) (rq_path req) of
        Some r \<Rightarrow> csrf_middleware env req (limited parse_ip peer t (rt_class r) (handlers (rt_handler r))) w
      | None \<Rightarrow> (unrouted req, w))"

definition healthz :: response where
  "healthz = reply 200 (JObj [(''status'', JStr ''ok''), (''service'', JStr ''toottok'')])"


section \<open>What reaches a handler\<close>

text \<open>The routes of the table that accept a write on an exempt path are those of login and registration.\<close>

definition writes :: "http_method list" where
  "writes = [Post, Put, Patch, Delete_Method]"

definition exempt_handlers :: "route list \<Rightarrow> string list" where
  "exempt_handlers rs = [rt_handler r. m \<leftarrow> writes, p \<leftarrow> csrf_exempt_paths, r \<leftarrow> filter (accepts_request m p) rs]"

lemma exempt_handlers_of_app: "exempt_handlers (app_routes st) = [''auth::login'', ''auth::register'']"
proof (cases "as_fed_config st = None")
  case True
  have "exempt_handlers (auth_routes @ upload_routes @ account_routes @ admin_routes @ default_routes @ []) =
      [''auth::login'', ''auth::register'']" by code_simp
  then show ?thesis by (simp only: app_routes_def True if_True refl)
next
  case False
  have "exempt_handlers (auth_routes @ upload_routes @ account_routes @ admin_routes @ default_routes @ federation_routes) =
      [''auth::login'', ''auth::register'']" by code_simp
  then show ?thesis by (simp only: app_routes_def False if_False)
qed

lemma exempt_is_login_or_register:
  assumes "router_sound match_route" and "match_route (app_routes st) m p = Some r" and "m \<in> set writes"
    and "p \<in> set csrf_exempt_paths"
  shows "rt_handler r \<in> {''auth::login'', ''auth::register''}"
proof -
  have "rt_handler r \<in> set (exempt_handlers (app_routes st))"
    using assms unfolding exempt_handlers_def router_sound_def by force
  then show ?thesis by (simp add: exempt_handlers_of_app)
qed


text \<open>A router that takes the first route of the table.\<close>

definition first_route :: router where
  "first_route rs m p = List.find (accepts_request m p) rs"

lemma first_route_sound: "router_sound first_route"
  by (auto simp: router_sound_def first_route_def dest: find_SomeD)

text \<open>The deletion of Alice's account, forged from another site, with handlers that would erase everything.\<close>

definition demo_app_world :: app_world where
  "demo_app_world = web_world.extend demo_web_world (app_world.fields (initial_limiters config_default))"

definition demo_eraser :: "string \<Rightarrow> request \<Rightarrow> app_world \<Rightarrow> response \<times> app_world" where
  "demo_eraser handler req w = (reply 204 JNull, w\<lparr>db := empty_db\<rparr>)"


text \<open>Budgets: a request of one class leaves the budgets of the others, and a spent budget runs no handler.\<close>

lemma limited_other_budgets:
  assumes "\<And>req w. aw_limiters (snd (h req w)) = aw_limiters w" and "c \<noteq> class"
  shows "aw_limiters (snd (limited parse_ip peer t class h req w)) c = aw_limiters w c"
  using assms by (auto simp: limited_def Let_def split: prod.splits sum.splits)

lemma spent_budget_runs_no_handler:
  assumes "fst (apply_limit parse_ip (origin_of peer req) t (aw_limiters w class)) = Inl secs"
  shows "fst (limited parse_ip peer t class h req w) = rate_limited secs \<and>
    db (snd (limited parse_ip peer t class h req w)) = db w"
  using assms by (auto simp: limited_def Let_def split: prod.splits)

text \<open>Behind a trusted proxy the federation's limiter still counts the proxy: all peers share one budget.\<close>

lemma federation_counts_the_proxy:
  "client_ip parse_ip (origin_of (Some proxy) req) (rl_trusted_proxies (initial_limiters cfg Federation_Class)) = proxy"
  by (simp add: initial_limiters_def rl_general_def rate_limiter_new_def client_ip_def origin_of_def)


text \<open>\<^verbatim>\<open>create-admin\<close> adds an active administrator with a local actor of its own, or reports an error.\<close>

lemma actor_create_InrD:
  "actor_create u dm ty pub priv inb sh outb fol i t d = Inr (a, d') \<Longrightarrow>
     actors d' = actors d @ [a] \<and> users d' = users d \<and> ac_username a = u \<and> ac_domain a = dm"
  by (auto simp: actor_create_def insert_actor_def put_actors_def new_actor_def split: if_splits)

lemma user_create_admin_InrD:
  "user_create_admin i e h t d = Inr (u, d') \<Longrightarrow>
     users d' = users d @ [u] \<and> actors d' = actors d \<and> us_is_admin u \<and> us_status u = Active \<and> us_actor_id u = i"
  by (auto simp: user_create_admin_def insert_user_def put_users_def Let_def split: if_splits)

lemma create_admin_ok:
  assumes "create_admin env cfg username password w = (Inr u, w')"
  shows "\<exists>a. actors (db w') = actors (db w) @ [a] \<and> users (db w') = users (db w) @ [u] \<and> ac_username a = username \<and>
    ac_domain a = None \<and> us_actor_id u = ac_id a \<and> us_is_admin u \<and> us_status u = Active"
  using assms unfolding create_admin_def Let_def
  by (auto simp: generate_actor_keypair_def hash_password_def split: prod.splits sum.splits elim!: or_boot_InrE
      dest!: actor_create_InrD user_create_admin_InrD)

end
