(* ===== verification/Spec2Isabelle.thy ===== *)
theory Spec2Isabelle
  imports Media_Gc Server
begin

text \<open>
  A model of the server of toot-tok, a federated short-video service, with the theorems that make it correct.
  Sources are named relative to \<^verbatim>\<open>src\<close>.

  \<^bold>\<open>The program.\<close> One process serves a JSON API and the ActivityPub endpoints over a Postgres database and a directory
  of media files. An upload becomes a pending clip and a \<^verbatim>\<open>probe\<close> job; the workers probe, transcode and finalize it; finalizing
  makes the clip public and queues a \<^verbatim>\<open>deliver_create\<close> job, which fans out to one \<^verbatim>\<open>deliver\<close> job per remote
  follower. Other servers post activities to the inbox, which updates the same tables. All components meet in the database: its tables
  are one record \<open>db\<close>, and every statement of the code is one function on it.

  \<^bold>\<open>How effects are modelled.\<close> A statement (type \<open>stmt\<close>, theory \<open>Db_Schema\<close>) takes the time and the tables and
  gives an SQL error or a value and the new tables, with the constraints and triggers of \<^verbatim>\<open>crates/db/migrations\<close>. \<open>exec\<close>
  runs a statement over a connection whose state the record \<open>pool\<close> fixes for every moment: up, down, or up with the acknowledgement
  lost, so that every theorem on a handler ranges over all failures of the database unless it says otherwise. Records extend \<open>pool\<close>
  by what a component adds: the network exchange (\<open>deliver_world\<close>), the object store (\<open>media_world\<close>), mails and
  randomness (\<open>web_world\<close>), the rate limiters (\<open>app_world\<close>). A handler is a function from its request and such a world to a
  response and the next world, with every early return as a branch. Integers of the database are \<^verbatim>\<open>int\<close> with range checks where a
  cast can fail; counters of the limiter, byte offsets and configuration numbers are words; strings are lists of UTF-8 bytes; doubles
  are rationals with infinities and NaN as far as the code compares and scales them.

  \<^bold>\<open>Theories, in the order of the layers.\<close>

    \<^item> \<open>Prelude\<close>: results, JSON, strings, table operations and their simplification rules.
    \<^item> \<open>Db_Schema\<close>, \<open>Db_Actors\<close>, \<open>Db_Clips\<close>, \<open>Db_Federation\<close>, \<open>Db_Feed\<close>, \<open>Job_Queue\<close>: the crate
      \<^verbatim>\<open>crates/db\<close>, one group of statements per file of it. The queue has a step relation of workers, retries and reaper with its invariant
      and mutual exclusion of claims.
    \<^item> \<open>Html\<close>, \<open>Note\<close>: \<^verbatim>\<open>crates/federation/src/note.rs\<close>, the sanitizer and the notes in both directions, with their
      round trip.
    \<^item> \<open>Inbox\<close>: \<^verbatim>\<open>activity.rs\<close>, the gate against redelivery and the handler of every activity. Its theorems are about any sequence of
      deliveries: idempotence, permanence of deletion, who may change what.
    \<^item> \<open>Egress\<close>: \<^verbatim>\<open>egress.rs\<close> and \<^verbatim>\<open>resolver.rs\<close>; the address policy equals a list of address blocks, and no client connects
      outside it.
    \<^item> \<open>Deliver\<close>, \<open>Backfill\<close>, \<open>Remote\<close>: \<^verbatim>\<open>deliver.rs\<close>, \<^verbatim>\<open>backfill.rs\<close> and \<^verbatim>\<open>lib.rs\<close> of the federation crate.
    \<^item> \<open>Media\<close>, \<open>Worker\<close>, \<open>Pipeline\<close>, \<open>Media_Gc\<close>: \<^verbatim>\<open>crates/media\<close> and \<^verbatim>\<open>crates/server/src/worker.rs\<close>: the
      store, the job handlers, timeouts and turns of a worker, what the pipeline achieves, and the garbage collector.
    \<^item> \<open>Rate_Limit\<close>, \<open>Web\<close>: \<^verbatim>\<open>ratelimit.rs\<close>, \<^verbatim>\<open>session.rs\<close>, \<^verbatim>\<open>csrf.rs\<close>, \<^verbatim>\<open>problem.rs\<close>, \<^verbatim>\<open>mail.rs\<close>.
    \<^item> \<open>Auth\<close>, \<open>Accounts\<close>, \<open>Admin\<close>, \<open>Feed_Api\<close>, \<open>Reactions\<close>, \<open>Upload_Api\<close>, \<open>Media_Api\<close>, \<open>Profile_Api\<close>,
      \<open>Follow_Api\<close>: the handlers of \<^verbatim>\<open>auth.rs\<close>, \<^verbatim>\<open>accounts.rs\<close>, \<^verbatim>\<open>admin.rs\<close>, \<^verbatim>\<open>social.rs\<close>, \<^verbatim>\<open>upload.rs\<close>,
      \<^verbatim>\<open>assets.rs\<close>, \<^verbatim>\<open>clips.rs\<close> and \<^verbatim>\<open>federation.rs\<close> in \<^verbatim>\<open>crates/server/src\<close>.
    \<^item> \<open>Config\<close>, \<open>Server\<close>: \<^verbatim>\<open>config.rs\<close> and \<^verbatim>\<open>lib.rs\<close>: configuration, start-up, and the routing table with its limiters and CSRF
      check around the handlers.

  \<^bold>\<open>Interfaces.\<close> Where several operations share a contract it is a locale, proved on the definitions of the model: \<open>keyed_table\<close>
  (tables updated under a unique key), \<open>job_transition\<close> (what a statement may do to a job), \<open>inbox_invariant\<close>,
  \<open>delivery_invariant\<close>, \<open>backfill_invariant\<close> and \<open>worker_invariant\<close> (an invariant of the tables that the statements of
  a component keep is kept by all its handlers), \<open>stable_mark\<close>, \<open>account_invariant\<close>, \<open>keyset_feed\<close> and \<open>feed_endpoint\<close>
  (paging over any keyset query), \<open>object_store\<close>, \<open>counted_table\<close> (rows and their counter).

  \<^bold>\<open>The theorems.\<close> Each property stands after a text that states it under its number: the queue and the inbox in \<open>Job_Queue\<close> and
  \<open>Inbox\<close>, the network in \<open>Egress\<close>, \<open>Deliver\<close> and \<open>Backfill\<close>, the life of a clip in \<open>Upload_Api\<close>, \<open>Worker\<close>,
  \<open>Pipeline\<close>, \<open>Media_Gc\<close> and \<open>Media_Api\<close>, accounts and access in \<open>Web\<close>, \<open>Auth\<close>, \<open>Accounts\<close>,
  \<open>Admin\<close> and \<open>Server\<close>, the rest in the theory of its handlers. A property with hypotheses is followed by a witness, the property at a
  concrete input.

  \<^bold>\<open>Bounds and fuel.\<close> The loops of the code are structural recursions or have a termination proof (\<open>drop_pieces\<close>, the scanner of
  \<open>Html\<close>, the directory walk of \<open>Media_Gc\<close>, whose measure is the number of nodes still to visit). Only a client that follows
  cursors is given fuel, and its theorem asks for more pages than rows divided by the page size, which is what the walk needs.

  \<^bold>\<open>Parameters.\<close> Code outside the repository is an argument: URL, address, date, TOML and multipart parsers, DNS, HTTP exchanges and
  signatures, SHA-256, argon2, RSA keys, randomness and UUIDs, \<^verbatim>\<open>ffprobe\<close> and \<^verbatim>\<open>ffmpeg\<close>, the disk with its errors, collation and
  \<^verbatim>\<open>ILIKE\<close>, the router of the web framework (used through its contract \<open>router_sound\<close>), error texts. Each record of parameters is
  described at the head of its theory.

  \<^bold>\<open>Not modelled.\<close> Connecting, migrating, opening the socket, spawning the tasks and the command-line usage text
  (\<^verbatim>\<open>main.rs\<close>, \<^verbatim>\<open>crates/db/src/lib.rs\<close>, \<^verbatim>\<open>serve\<close>) are pure I/O. \<^verbatim>\<open>password.rs\<close> and \<^verbatim>\<open>keys.rs\<close> only call libraries.
  Logging, response headers other than the cookie, the media headers and the range, and the static files have no definition. Handlers run
  alone: the interleaving of statements of different requests is modelled for the queue, and for two reactions, only. The
  tests, the test helpers and the web client are left out.
\<close>

end
